(* ===== verification/Mesh_Prelude.thy ===== *)
theory Mesh_Prelude
  imports Main "HOL-Library.Word" "HOL-Library.Sublist"
begin

text \<open>
  Shared vocabulary of the development: the collections of simplification rules that
  the component theories fill, the outcomes of the calls that leave the program (a
  database statement, a commit), and generic facts on lists that several components use.
\<close>

named_theorems go_string_simps \<open>evaluation of the string functions of the Go library\<close>
named_theorems table_simps \<open>reading a table after a statement\<close>
named_theorems handler_defs \<open>definitions of the HTTP handlers and their parts\<close>

section \<open>Outcomes of calls to the database\<close>

text \<open>
  A statement outside a transaction (or a COMMIT) either succeeds, or reports an error.
  An error leaves open whether the server applied the statement: the connection can
  break before the server has read it or after it has acted on it. The flag says which.
\<close>

datatype outcome = Ok | Err (applied: bool)

definition reported_ok :: "outcome \<Rightarrow> bool" where
  "reported_ok out \<longleftrightarrow> out = Ok"

definition takes_effect :: "outcome \<Rightarrow> bool" where
  "takes_effect out \<longleftrightarrow> (case out of Ok \<Rightarrow> True | Err a \<Rightarrow> a)"

lemma reported_ok_simps [simp]:
  "reported_ok Ok" "\<not> reported_ok (Err a)"
  by (simp_all add: reported_ok_def)

lemma takes_effect_simps [simp]:
  "takes_effect Ok" "takes_effect (Err a) = a"
  by (simp_all add: takes_effect_def)

lemma reported_ok_takes_effect: "reported_ok out \<Longrightarrow> takes_effect out"
  by (cases out) simp_all

section \<open>Lists\<close>

text \<open>
  A table is a list of rows. A statement with a WHERE clause on a unique column
  rewrites at most one row: \<open>update_where\<close> maps the matching rows, and
  \<open>count_where\<close> is the number of rows the statement reports.
\<close>

definition update_where :: "('a \<Rightarrow> bool) \<Rightarrow> ('a \<Rightarrow> 'a) \<Rightarrow> 'a list \<Rightarrow> 'a list" where
  "update_where p f xs = map (\<lambda>x. if p x then f x else x) xs"

definition count_where :: "('a \<Rightarrow> bool) \<Rightarrow> 'a list \<Rightarrow> nat" where
  "count_where p xs = length (filter p xs)"

lemma update_where_Nil [table_simps]: "update_where p f [] = []"
  by (simp add: update_where_def)

lemma update_where_Cons [table_simps]:
  "update_where p f (x # xs) = (if p x then f x else x) # update_where p f xs"
  by (simp add: update_where_def)

lemma map_update_where:
  "(\<And>x. g (f x) = g x) \<Longrightarrow> map g (update_where p f xs) = map g xs"
  by (simp add: update_where_def)

lemma update_where_id: "(\<And>x. x \<in> set xs \<Longrightarrow> \<not> p x) \<Longrightarrow> update_where p f xs = xs"
  by (simp add: update_where_def map_idI)

lemma count_where_0_iff: "count_where p xs = 0 \<longleftrightarrow> (\<forall>x \<in> set xs. \<not> p x)"
  by (auto simp: count_where_def filter_empty_conv)

lemma set_update_where:
  "y \<in> set (update_where p f xs) \<longleftrightarrow> (\<exists>x \<in> set xs. y = (if p x then f x else x))"
  by (auto simp: update_where_def)

lemma find_update_where:
  assumes "\<And>x. q (f x) = q x"
  shows "find q (update_where p f xs) = map_option (\<lambda>x. if p x then f x else x) (find q xs)"
  using assms by (induction xs) (simp_all add: update_where_def)

lemma find_append: "find q (xs @ ys) = (case find q xs of None \<Rightarrow> find q ys | Some x \<Rightarrow> Some x)"
  by (induction xs) simp_all

lemma find_SomeD: "find q xs = Some x \<Longrightarrow> x \<in> set xs \<and> q x"
  by (induction xs) (auto split: if_splits)

lemma find_None_iff': "find q xs = None \<longleftrightarrow> (\<forall>x \<in> set xs. \<not> q x)"
  by (induction xs) auto

text \<open>With distinct keys, looking a row up by its key finds exactly that row.\<close>

lemma find_distinct_key:
  "distinct (map k xs) \<Longrightarrow> x \<in> set xs \<Longrightarrow> find (\<lambda>y. k y = k x) xs = Some x"
  by (induction xs) (auto simp: rev_image_eqI)

lemma find_key_iff:
  "distinct (map k xs) \<Longrightarrow> find (\<lambda>y. k y = a) xs = Some x \<longleftrightarrow> x \<in> set xs \<and> k x = a"
  using find_distinct_key find_SomeD by fastforce

lemma distinct_key_eq:
  "distinct (map k xs) \<Longrightarrow> x \<in> set xs \<Longrightarrow> y \<in> set xs \<Longrightarrow> k x = k y \<Longrightarrow> x = y"
  by (metis find_distinct_key option.inject)

lemma count_where_distinct_key:
  "distinct (map k xs) \<Longrightarrow> count_where (\<lambda>y. k y = a \<and> q y) xs \<le> 1"
proof (induction xs)
  case Nil
  then show ?case by (simp add: count_where_def)
next
  case (Cons x xs)
  show ?case
  proof (cases "k x = a \<and> q x")
    case True
    with Cons.prems have "\<forall>y \<in> set xs. \<not> (k y = a \<and> q y)" by (auto simp: image_iff)
    then have "count_where (\<lambda>y. k y = a \<and> q y) xs = 0" by (simp only: count_where_0_iff)
    with True show ?thesis by (simp add: count_where_def)
  next
    case False
    with Cons show ?thesis by (auto simp: count_where_def)
  qed
qed

end
