(* ===== verification/Go_Strings.thy ===== *)
theory Go_Strings
  imports Mesh_Prelude
begin

text \<open>
  The part of Go's \<open>strings\<close>, \<open>strconv\<close> and \<open>unicode/utf8\<close> packages that the
  program uses. A Go string is a sequence of bytes: here a \<open>string\<close>, whose \<open>char\<close>s are
  bytes. Trimming knows every white-space rune of Unicode in its UTF-8 encoding. Case
  mapping is exact on ASCII and on the four other runes whose image under
  \<open>unicode.ToUpper\<close> or \<open>unicode.ToLower\<close> is an ASCII letter; a rune whose image is
  not ASCII is copied, which no comparison of the program with one of its ASCII constants
  can tell apart.
\<close>

section \<open>White space\<close>

text \<open>\<open>unicode.IsSpace\<close>: the six ASCII bytes, U+0085, U+00A0, and category Z.\<close>

definition space_runes :: "string list" where
  "space_runes =
    [[CHR 0x09], [CHR 0x0A], [CHR 0x0B], [CHR 0x0C], [CHR 0x0D], [CHR 0x20],
     [CHR 0xC2, CHR 0x85], [CHR 0xC2, CHR 0xA0], [CHR 0xE1, CHR 0x9A, CHR 0x80],
     [CHR 0xE2, CHR 0x80, CHR 0x80], [CHR 0xE2, CHR 0x80, CHR 0x81],
     [CHR 0xE2, CHR 0x80, CHR 0x82], [CHR 0xE2, CHR 0x80, CHR 0x83],
     [CHR 0xE2, CHR 0x80, CHR 0x84], [CHR 0xE2, CHR 0x80, CHR 0x85],
     [CHR 0xE2, CHR 0x80, CHR 0x86], [CHR 0xE2, CHR 0x80, CHR 0x87],
     [CHR 0xE2, CHR 0x80, CHR 0x88], [CHR 0xE2, CHR 0x80, CHR 0x89],
     [CHR 0xE2, CHR 0x80, CHR 0x8A], [CHR 0xE2, CHR 0x80, CHR 0xA8],
     [CHR 0xE2, CHR 0x80, CHR 0xA9], [CHR 0xE2, CHR 0x80, CHR 0xAF],
     [CHR 0xE2, CHR 0x81, CHR 0x9F], [CHR 0xE3, CHR 0x80, CHR 0x80]]"

text \<open>Removing one of the given prefixes, and removing them as long as there is one.\<close>

fun strip_one :: "string list \<Rightarrow> string \<Rightarrow> string option" where
  "strip_one [] s = None"
| "strip_one (p # ps) s =
     (if p \<noteq> [] \<and> take (length p) s = p then Some (drop (length p) s) else strip_one ps s)"

lemma strip_one_SomeD:
  "strip_one ps s = Some r \<Longrightarrow> \<exists>p \<in> set ps. p \<noteq> [] \<and> s = p @ r"
  by (induction ps) (auto split: if_splits dest: sym [of "take _ _"] simp: append_take_drop_id
      intro: bexI [rotated], metis append_take_drop_id)

lemma strip_one_shorter: "strip_one ps s = Some r \<Longrightarrow> length r < length s"
  by (auto dest: strip_one_SomeD)

lemma strip_one_None_iff:
  "strip_one ps s = None \<longleftrightarrow> (\<forall>p \<in> set ps. p \<noteq> [] \<longrightarrow> \<not> prefix p s)"
  by (induction ps) (auto simp: prefix_def, metis append_take_drop_id)

function strip_all :: "string list \<Rightarrow> string \<Rightarrow> string" where
  "strip_all ps s = (case strip_one ps s of None \<Rightarrow> s | Some r \<Rightarrow> strip_all ps r)"
  by pat_completeness auto
termination
  by (relation "measure (\<lambda>(ps, s). length s)") (auto dest: strip_one_shorter)

declare strip_all.simps [simp del]

lemma strip_all_None [simp]: "strip_one ps s = None \<Longrightarrow> strip_all ps s = s"
  by (simp add: strip_all.simps)

lemma strip_all_stops: "strip_one ps (strip_all ps s) = None"
proof (induction ps s rule: strip_all.induct)
  case (1 ps s)
  then show ?case
    by (cases "strip_one ps s") (simp_all add: strip_all.simps [of ps s])
qed

lemma strip_all_suffix: "suffix (strip_all ps s) s"
proof (induction ps s rule: strip_all.induct)
  case (1 ps s)
  show ?case
  proof (cases "strip_one ps s")
    case None
    then show ?thesis by simp
  next
    case (Some r)
    with 1 have "suffix (strip_all ps r) r" by simp
    moreover from Some have "suffix r s"
      by (auto dest: strip_one_SomeD simp: suffix_def)
    ultimately show ?thesis
      using Some by (simp add: strip_all.simps [of ps s] suffix_order.trans)
  qed
qed

text \<open>\<open>strings.TrimSpace\<close>: from the left, then from the right.\<close>

definition trim_space :: "string \<Rightarrow> string" where
  "trim_space s = rev (strip_all (map rev space_runes) (rev (strip_all space_runes s)))"

text \<open>A string is trimmed when no white-space rune starts or ends it.\<close>

definition trimmed :: "string \<Rightarrow> bool" where
  "trimmed s \<longleftrightarrow> strip_one space_runes s = None \<and> strip_one (map rev space_runes) (rev s) = None"

lemma trimmed_iff:
  "trimmed s \<longleftrightarrow> (\<forall>p \<in> set space_runes. \<not> prefix p s \<and> \<not> suffix p s)"
proof -
  have "\<forall>p \<in> set space_runes. p \<noteq> []" by (simp add: space_runes_def)
  then show ?thesis
    by (auto simp: trimmed_def strip_one_None_iff suffix_to_prefix)
qed

lemma trim_space_trimmed [simp]: "trimmed s \<Longrightarrow> trim_space s = s"
  by (simp add: trimmed_def trim_space_def)

lemma trimmed_trim_space [simp]: "trimmed (trim_space s)"
proof -
  let ?l = "strip_all space_runes s"
  have l: "strip_one space_runes ?l = None" by (rule strip_all_stops)
  have r: "strip_one (map rev space_runes) (rev (trim_space s)) = None"
    by (simp add: trim_space_def strip_all_stops)
  have "suffix (rev (trim_space s)) (rev ?l)"
    by (simp add: trim_space_def strip_all_suffix)
  then have pre: "prefix (trim_space s) ?l" by (simp add: suffix_to_prefix)
  have "strip_one space_runes (trim_space s) = None"
    using l pre by (auto simp: strip_one_None_iff intro: prefix_order.trans)
  with r show ?thesis by (simp add: trimmed_def)
qed

lemma trim_space_idem: "trim_space (trim_space s) = trim_space s"
  by simp

lemma trim_space_Nil [simp, go_string_simps]: "trim_space [] = []"
  by code_simp


section \<open>Case mapping and comparison\<close>

definition byte_val :: "char \<Rightarrow> nat" where
  "byte_val c = of_char c"

definition is_lower :: "char \<Rightarrow> bool" where
  "is_lower c \<longleftrightarrow> 97 \<le> byte_val c \<and> byte_val c \<le> 122"

definition is_upper :: "char \<Rightarrow> bool" where
  "is_upper c \<longleftrightarrow> 65 \<le> byte_val c \<and> byte_val c \<le> 90"

definition upper_byte :: "char \<Rightarrow> char" where
  "upper_byte c = (if is_lower c then char_of (byte_val c - 32) else c)"

definition lower_byte :: "char \<Rightarrow> char" where
  "lower_byte c = (if is_upper c then char_of (byte_val c + 32) else c)"

lemma byte_val_less [simp]: "byte_val c < 256"
  by (simp add: byte_val_def)

lemma byte_val_char_of [simp]: "byte_val (char_of n) = n mod 256"
  by (simp add: byte_val_def)

lemma byte_val_eq_iff: "byte_val c = byte_val d \<longleftrightarrow> c = d"
  by (simp add: byte_val_def)

lemma not_lower_upper_byte [simp]: "\<not> is_lower (upper_byte c)"
  using byte_val_less [of c] by (auto simp: upper_byte_def is_lower_def)

lemma upper_byte_not_lower [simp]: "\<not> is_lower c \<Longrightarrow> upper_byte c = c"
  by (simp add: upper_byte_def)

lemma is_upper_upper_byte [simp]: "is_lower c \<Longrightarrow> is_upper (upper_byte c)"
  using byte_val_less [of c] by (auto simp: upper_byte_def is_lower_def is_upper_def)

lemma not_upper_lower_byte [simp]: "\<not> is_upper (lower_byte c)"
  using byte_val_less [of c] by (auto simp: lower_byte_def is_upper_def)

lemma lower_byte_not_upper [simp]: "\<not> is_upper c \<Longrightarrow> lower_byte c = c"
  by (simp add: lower_byte_def)

lemma upper_not_lower: "is_upper c \<Longrightarrow> \<not> is_lower c"
  by (simp add: is_upper_def is_lower_def)

lemma lower_byte_upper_byte [simp]: "is_lower c \<Longrightarrow> lower_byte (upper_byte c) = c"
  using byte_val_less [of c]
  by (auto simp: upper_byte_def lower_byte_def is_lower_def is_upper_def byte_val_def)

lemma upper_byte_lower_byte [simp]: "is_upper c \<Longrightarrow> upper_byte (lower_byte c) = c"
  using byte_val_less [of c]
  by (auto simp: upper_byte_def lower_byte_def is_lower_def is_upper_def byte_val_def)

lemma byte_val_lower_byte_less: "byte_val c < 128 \<Longrightarrow> byte_val (lower_byte c) < 128"
  by (auto simp: lower_byte_def is_upper_def)

text \<open>
  \<open>strings.ToUpper\<close>: ASCII letters, and dotless i (U+0131, bytes C4 B1) and long s
  (U+017F, bytes C5 BF), whose upper case is ASCII.
\<close>

fun to_upper :: "string \<Rightarrow> string" where
  "to_upper [] = []"
| "to_upper [c] = [upper_byte c]"
| "to_upper (c # d # s) =
     (if c = CHR 0xC4 \<and> d = CHR 0xB1 then CHR ''I'' # to_upper s
      else if c = CHR 0xC5 \<and> d = CHR 0xBF then CHR ''S'' # to_upper s
      else upper_byte c # to_upper (d # s))"

text \<open>
  \<open>strings.ToLower\<close>: ASCII letters, and I with dot (U+0130, bytes C4 B0) and the Kelvin
  sign (U+212A, bytes E2 84 AA), whose lower case is ASCII.
\<close>

fun to_lower :: "string \<Rightarrow> string" where
  "to_lower [] = []"
| "to_lower (c # s) =
     (if c = CHR 0xC4 \<and> take 1 s = [CHR 0xB0] then CHR ''i'' # to_lower (drop 1 s)
      else if c = CHR 0xE2 \<and> take 2 s = [CHR 0x84, CHR 0xAA] then CHR ''k'' # to_lower (drop 2 s)
      else lower_byte c # to_lower s)"

text \<open>
  \<open>strings.EqualFold\<close> (and the field names of \<open>encoding/json\<close>, which are compared the same
  way): equality of the simple case foldings. Two non-ASCII runes fold to an ASCII letter,
  the Kelvin sign and long s.
\<close>

fun fold_case :: "string \<Rightarrow> string" where
  "fold_case [] = []"
| "fold_case (c # s) =
     (if c = CHR 0xC5 \<and> take 1 s = [CHR 0xBF] then CHR ''s'' # fold_case (drop 1 s)
      else if c = CHR 0xE2 \<and> take 2 s = [CHR 0x84, CHR 0xAA] then CHR ''k'' # fold_case (drop 2 s)
      else lower_byte c # fold_case s)"

definition equal_fold :: "string \<Rightarrow> string \<Rightarrow> bool" where
  "equal_fold s t \<longleftrightarrow> fold_case s = fold_case t"

lemma equal_fold_refl [simp]: "equal_fold s s"
  by (simp add: equal_fold_def)

definition ascii :: "string \<Rightarrow> bool" where
  "ascii s \<longleftrightarrow> list_all (\<lambda>c. byte_val c < 128) s"

lemma ascii_simps [simp]:
  "ascii []" "ascii (c # s) \<longleftrightarrow> byte_val c < 128 \<and> ascii s"
  "ascii (s @ t) \<longleftrightarrow> ascii s \<and> ascii t"
  by (simp_all add: ascii_def)

lemma high_bytes [simp]:
  "byte_val (CHR 0xC4) = 196" "byte_val (CHR 0xC5) = 197" "byte_val (CHR 0xE2) = 226"
  by (simp_all add: byte_val_def)

lemma to_upper_ascii: "ascii s \<Longrightarrow> to_upper s = map upper_byte s"
  by (induction s rule: to_upper.induct) auto

lemma to_lower_ascii: "ascii s \<Longrightarrow> to_lower s = map lower_byte s"
  by (induction s) auto

lemma fold_case_ascii: "ascii s \<Longrightarrow> fold_case s = map lower_byte s"
  by (induction s) auto

lemma to_upper_no_lower: "c \<in> set (to_upper s) \<Longrightarrow> \<not> is_lower c"
proof (induction s rule: to_upper.induct)
  case (3 c d s)
  have "\<not> is_lower (CHR ''I'')" "\<not> is_lower (CHR ''S'')" by code_simp+
  with 3 show ?case by (auto split: if_splits)
qed simp_all

lemma to_upper_fixed: "(\<And>c. c \<in> set s \<Longrightarrow> is_upper c) \<Longrightarrow> to_upper s = s"
proof (induction s rule: to_upper.induct)
  case (3 c d s)
  have "\<not> is_upper (CHR 0xC4)" "\<not> is_upper (CHR 0xC5)" by code_simp+
  with 3 show ?case by (auto simp: upper_not_lower)
qed (simp_all add: upper_not_lower)

text \<open>
  A block of bytes that are not letters occurs at an end of the mapped string only where it
  does in the original: upper-casing neither creates nor hides white space.
\<close>

definition no_letters :: "string \<Rightarrow> bool" where
  "no_letters p \<longleftrightarrow> list_all (\<lambda>c. \<not> is_upper c \<and> \<not> is_lower c) p"

lemma no_letters_simps [simp]:
  "no_letters []" "no_letters (c # p) \<longleftrightarrow> \<not> is_upper c \<and> \<not> is_lower c \<and> no_letters p"
  by (simp_all add: no_letters_def)

lemma upper_I_S [simp]: "is_upper (CHR ''I'')" "is_upper (CHR ''S'')"
  by code_simp+

lemma upper_byte_no_letter: "\<not> is_upper (upper_byte c) \<Longrightarrow> upper_byte c = c"
  by (metis is_upper_upper_byte upper_byte_not_lower)

lemma prefix_to_upperD: "prefix p (to_upper t) \<Longrightarrow> no_letters p \<Longrightarrow> prefix p t"
proof (induction t arbitrary: p rule: to_upper.induct)
  case (2 c)
  then show ?case by (cases p) (auto dest: upper_byte_no_letter)
next
  case (3 c d s)
  show ?case
  proof (cases p)
    case (Cons a q)
    with 3 show ?thesis
      by (auto split: if_splits dest: upper_byte_no_letter)
  qed simp
qed simp

lemma to_upper_no_letters: "no_letters (to_upper t) \<Longrightarrow> to_upper t = t"
proof (induction t rule: to_upper.induct)
  case (2 c)
  then show ?case by (auto dest: upper_byte_no_letter)
next
  case (3 c d s)
  then show ?case by (auto split: if_splits dest: upper_byte_no_letter)
qed simp

lemma to_upper_appendD:
  "to_upper t = u @ q \<Longrightarrow> no_letters q \<Longrightarrow> suffix q t"
proof (induction t arbitrary: u rule: to_upper.induct)
  case (2 c)
  then show ?case
    by (cases u) (auto intro: upper_byte_no_letter [symmetric] simp: suffix_def append_eq_Cons_conv)
next
  case (3 c d s)
  show ?case
  proof (cases u)
    case Nil
    with 3 have "to_upper (c # d # s) = c # d # s"
      by (intro to_upper_no_letters) simp
    with 3 Nil show ?thesis by simp
  next
    case (Cons a u')
    with 3 show ?thesis
      by (auto split: if_splits intro: suffix_ConsI)
  qed
qed simp

lemma space_runes_no_letters: "p \<in> set space_runes \<Longrightarrow> no_letters p"
proof -
  have "list_all no_letters space_runes" by code_simp
  then show "p \<in> set space_runes \<Longrightarrow> no_letters p" by (simp add: list_all_iff)
qed

lemma trimmed_to_upper: "trimmed s \<Longrightarrow> trimmed (to_upper s)"
  unfolding trimmed_iff
  by (metis prefix_to_upperD space_runes_no_letters suffixE to_upper_appendD)

text \<open>The same for lower case; lower-casing twice changes nothing more.\<close>

lemma lower_i_k [simp]: "is_lower (CHR ''i'')" "is_lower (CHR ''k'')"
  by code_simp+

lemma is_lower_lower_byte: "is_upper c \<Longrightarrow> is_lower (lower_byte c)"
  using byte_val_less [of c] by (auto simp: lower_byte_def is_lower_def is_upper_def)

lemma lower_byte_no_letter: "\<not> is_lower (lower_byte c) \<Longrightarrow> lower_byte c = c"
  by (metis is_lower_lower_byte lower_byte_not_upper)

lemma prefix_to_lowerD: "prefix p (to_lower t) \<Longrightarrow> no_letters p \<Longrightarrow> prefix p t"
proof (induction t arbitrary: p rule: to_lower.induct)
  case (2 c s)
  show ?case
  proof (cases p)
    case (Cons a q)
    with 2 show ?thesis
      by (auto split: if_splits dest: lower_byte_no_letter)
  qed simp
qed simp

lemma to_lower_no_letters: "no_letters (to_lower t) \<Longrightarrow> to_lower t = t"
proof (induction t rule: to_lower.induct)
  case (2 c s)
  then show ?case by (auto split: if_splits dest: lower_byte_no_letter)
qed simp

lemma to_lower_appendD: "to_lower t = u @ q \<Longrightarrow> no_letters q \<Longrightarrow> suffix q t"
proof (induction t arbitrary: u rule: to_lower.induct)
  case (2 c s)
  show ?case
  proof (cases u)
    case Nil
    with 2 have "to_lower (c # s) = c # s"
      by (intro to_lower_no_letters) simp
    with 2 Nil show ?thesis by simp
  next
    case (Cons a u')
    have keep: "suffix q (x # s)" if "suffix q (drop n s)" for x n
      using that suffix_drop [of n s] by (meson suffix_ConsI suffix_order.trans)
    from 2 Cons show ?thesis
      by (auto split: if_splits intro: keep suffix_ConsI)
  qed
qed simp

lemma trimmed_to_lower: "trimmed s \<Longrightarrow> trimmed (to_lower s)"
  unfolding trimmed_iff
  by (metis prefix_to_lowerD space_runes_no_letters suffixE to_lower_appendD)

lemma to_lower_idem [simp]: "to_lower (to_lower s) = to_lower s"
proof (induction s rule: to_lower.induct)
  case (2 c s)
  have letters: "no_letters [CHR 0xB0]" "no_letters [CHR 0x84, CHR 0xAA]"
    "\<not> is_upper (CHR ''i'')" "\<not> is_upper (CHR ''k'')" by code_simp+
  have two: "take (length p) (to_lower s) = p \<Longrightarrow> no_letters p \<Longrightarrow> take (length p) s = p" for p
    by (metis append_eq_conv_conj prefix_def prefix_to_lowerD take_is_prefix)
  have rec: "lower_byte c = CHR 0xC4 \<Longrightarrow> c = CHR 0xC4" "lower_byte c = CHR 0xE2 \<Longrightarrow> c = CHR 0xE2"
    using lower_byte_no_letter [of c] by (auto simp: is_lower_def)
  have lower: "lower_byte (lower_byte c) = lower_byte c" by simp
  show ?case
    using 2 letters two [of "[CHR 0xB0]"] two [of "[CHR 0x84, CHR 0xAA]"] rec lower
    by (auto simp: numeral_2_eq_2)
qed simp


section \<open>Prefixes, cut sets, splitting and joining\<close>

text \<open>\<open>strings.TrimPrefix\<close>, \<open>strings.TrimRight\<close> and \<open>strings.Trim\<close> with an ASCII cut set.\<close>

definition trim_prefix :: "string \<Rightarrow> string \<Rightarrow> string" where
  "trim_prefix p s = (if take (length p) s = p then drop (length p) s else s)"

definition trim_right_chars :: "string \<Rightarrow> string \<Rightarrow> string" where
  "trim_right_chars cs s = rev (dropWhile (\<lambda>c. c \<in> set cs) (rev s))"

definition trim_chars :: "string \<Rightarrow> string \<Rightarrow> string" where
  "trim_chars cs s = trim_right_chars cs (dropWhile (\<lambda>c. c \<in> set cs) s)"

lemma trim_prefix_append [simp]: "trim_prefix p (p @ s) = s"
  by (simp add: trim_prefix_def)

text \<open>\<open>strings.Contains\<close>.\<close>

fun contains_sub :: "string \<Rightarrow> string \<Rightarrow> bool" where
  "contains_sub sub [] \<longleftrightarrow> sub = []"
| "contains_sub sub (c # s) \<longleftrightarrow> take (length sub) (c # s) = sub \<or> contains_sub sub s"

lemma contains_single: "contains_sub [c] s \<longleftrightarrow> c \<in> set s"
  by (induction s) auto

text \<open>\<open>strings.Split\<close> at a one-byte separator, and \<open>strings.Join\<close>.\<close>

fun split_on :: "char \<Rightarrow> string \<Rightarrow> string list" where
  "split_on c [] = [[]]"
| "split_on c (d # s) =
     (if d = c then [] # split_on c s
      else (case split_on c s of [] \<Rightarrow> [[d]] | w # ws \<Rightarrow> (d # w) # ws))"

fun join_with :: "string \<Rightarrow> string list \<Rightarrow> string" where
  "join_with sep [] = []"
| "join_with sep [w] = w"
| "join_with sep (w # v # ws) = w @ sep @ join_with sep (v # ws)"

lemma split_on_not_Nil [simp]: "split_on c s \<noteq> []"
  by (induction s) (auto split: list.splits)

lemma join_split [simp]: "join_with [c] (split_on c s) = s"
proof (induction s)
  case (Cons d s)
  then show ?case
    by (cases "split_on c s"; cases "tl (split_on c s)") auto
qed simp

lemma split_on_no_sep: "w \<in> set (split_on c s) \<Longrightarrow> c \<notin> set w"
proof (induction s arbitrary: w)
  case (Cons d s)
  then show ?case
    by (cases "split_on c s") (auto split: if_splits)
qed simp

lemma split_on_join:
  "ws \<noteq> [] \<Longrightarrow> (\<And>w. w \<in> set ws \<Longrightarrow> c \<notin> set w) \<Longrightarrow> split_on c (join_with [c] ws) = ws"
proof (induction "[c]" ws rule: join_with.induct)
  case (2 w)
  have "c \<notin> set v \<Longrightarrow> split_on c v = [v]" for v by (induction v) auto
  with 2 show ?case by simp
next
  case (3 w v ws)
  have "c \<notin> set u \<Longrightarrow> split_on c (u @ c # r) = u # split_on c r" for u r
    by (induction u) auto
  with 3 show ?case by simp
qed simp

section \<open>Decimal numbers\<close>

text \<open>\<open>strconv.FormatInt(v, 10)\<close> and \<open>strconv.ParseInt(s, 10, 64)\<close> on JSON number literals.\<close>

definition digit_char :: "nat \<Rightarrow> char" where
  "digit_char n = char_of (48 + n)"

definition is_digit :: "char \<Rightarrow> bool" where
  "is_digit c \<longleftrightarrow> 48 \<le> byte_val c \<and> byte_val c \<le> 57"

fun nat_dec :: "nat \<Rightarrow> string" where
  "nat_dec n = (if n < 10 then [digit_char n] else nat_dec (n div 10) @ [digit_char (n mod 10)])"

declare nat_dec.simps [simp del]

definition int_dec :: "int \<Rightarrow> string" where
  "int_dec i = (if i < 0 then CHR ''-'' # nat_dec (nat (- i)) else nat_dec (nat i))"

definition digits_val :: "string \<Rightarrow> nat" where
  "digits_val s = foldl (\<lambda>v c. 10 * v + (byte_val c - 48)) 0 s"

definition int64_min :: int where "int64_min = - (2 ^ 63)"
definition int64_max :: int where "int64_max = 2 ^ 63 - 1"

definition in_int64 :: "int \<Rightarrow> bool" where
  "in_int64 i \<longleftrightarrow> int64_min \<le> i \<and> i \<le> int64_max"

definition parse_int64 :: "string \<Rightarrow> int option" where
  "parse_int64 s =
     (let neg = (take 1 s = ''-''); ds = (if neg then drop 1 s else s);
          v = (if neg then - int (digits_val ds) else int (digits_val ds))
      in if ds \<noteq> [] \<and> list_all is_digit ds \<and> in_int64 v then Some v else None)"

lemma digit_char_simps [simp]:
  "n < 10 \<Longrightarrow> is_digit (digit_char n)" "n < 10 \<Longrightarrow> byte_val (digit_char n) = 48 + n"
  by (simp_all add: is_digit_def digit_char_def)

lemma nat_dec_digits: "list_all is_digit (nat_dec n)"
  by (induction n rule: nat_dec.induct) (subst nat_dec.simps, simp)

lemma nat_dec_not_Nil [simp]: "nat_dec n \<noteq> []"
  by (subst nat_dec.simps) simp

lemma digits_val_nat_dec [simp]: "digits_val (nat_dec n) = n"
proof (induction n rule: nat_dec.induct)
  case (1 n)
  show ?case
  proof (cases "n < 10")
    case True
    then show ?thesis by (subst nat_dec.simps) (simp add: digits_val_def)
  next
    case False
    with 1 have "foldl (\<lambda>v c. 10 * v + (byte_val c - 48)) 0 (nat_dec (n div 10)) = n div 10"
      by (simp add: digits_val_def)
    with False show ?thesis
      by (subst nat_dec.simps) (simp add: digits_val_def)
  qed
qed

lemma nat_dec_no_minus [simp]: "take (Suc 0) (nat_dec n) \<noteq> ''-''"
proof
  assume a: "take (Suc 0) (nat_dec n) = ''-''"
  then have "CHR ''-'' \<in> set (nat_dec n)"
    by (cases "nat_dec n") auto
  with nat_dec_digits have "is_digit (CHR ''-'')" by (auto simp: list_all_iff)
  moreover have "\<not> is_digit (CHR ''-'')" by code_simp
  ultimately show False by simp
qed

lemma parse_int64_int_dec: "in_int64 i \<Longrightarrow> parse_int64 (int_dec i) = Some i"
  by (auto simp: parse_int64_def int_dec_def nat_dec_digits Let_def)

lemma parse_int64_range: "parse_int64 s = Some i \<Longrightarrow> in_int64 i"
  by (auto simp: parse_int64_def Let_def split: if_splits)

lemma nat_dec_inj: "nat_dec m = nat_dec n \<Longrightarrow> m = n"
  by (metis digits_val_nat_dec)

lemma int_dec_inj: "int_dec i = int_dec j \<Longrightarrow> i = j"
proof -
  have val: "(if take 1 (int_dec i) = ''-'' then - int (digits_val (drop 1 (int_dec i)))
      else int (digits_val (int_dec i))) = i" for i
    by (simp add: int_dec_def)
  show "int_dec i = int_dec j \<Longrightarrow> i = j" by (metis val)
qed

lemma int_dec_chars: "c \<in> set (int_dec i) \<Longrightarrow> is_digit c \<or> c = CHR ''-''"
  using nat_dec_digits by (auto simp: int_dec_def list_all_iff split: if_splits)

lemma length_nat_dec: "n < 10 ^ Suc k \<Longrightarrow> length (nat_dec n) \<le> Suc k"
proof (induction k arbitrary: n)
  case 0
  then show ?case by (subst nat_dec.simps) simp
next
  case (Suc k)
  then have "n div 10 < 10 ^ Suc k" by (simp add: less_mult_imp_div_less mult.commute)
  with Suc.IH [of "n div 10"] show ?case by (subst nat_dec.simps) simp
qed

lemma length_int_dec: "in_int64 i \<Longrightarrow> length (int_dec i) \<le> 20"
  using length_nat_dec [of "nat \<bar>i\<bar>" 18]
  by (auto simp: in_int64_def int64_min_def int64_max_def int_dec_def nat_less_iff)

lemma ascii_nat_dec [simp]: "ascii (nat_dec n)"
  using nat_dec_digits [of n] by (auto simp: ascii_def list_all_iff is_digit_def)

lemma ascii_int_dec [simp]: "ascii (int_dec i)"
proof -
  have "ascii ''-''" by code_simp
  then show ?thesis by (simp add: int_dec_def)
qed

text \<open>\<open>strconv.Atoi\<close> with its error ignored: 0 for a syntax error, the nearest \<open>int\<close> out of range.\<close>

definition atoi :: "string \<Rightarrow> int" where
  "atoi s =
     (let neg = (take 1 s = ''-''); ds = (if neg \<or> take 1 s = ''+'' then drop 1 s else s);
          v = (if neg then - int (digits_val ds) else int (digits_val ds))
      in if ds = [] \<or> \<not> list_all is_digit ds then 0
         else max int64_min (min int64_max v))"

text \<open>Whether \<open>strconv.Atoi\<close> has no error.\<close>

definition atoi_ok :: "string \<Rightarrow> bool" where
  "atoi_ok s \<longleftrightarrow>
     (let neg = (take 1 s = ''-''); ds = (if neg \<or> take 1 s = ''+'' then drop 1 s else s);
          v = (if neg then - int (digits_val ds) else int (digits_val ds))
      in ds \<noteq> [] \<and> list_all is_digit ds \<and> in_int64 v)"

lemma atoi_range: "in_int64 (atoi s)"
  by (simp add: atoi_def in_int64_def int64_min_def int64_max_def Let_def)

end
