(* ===== verification/Json_Text.thy ===== *)
theory Json_Text
  imports Go_Strings
begin

text \<open>
  \<open>encoding/json\<close> at the level of bytes: string literals, the compact text of a value
  (\<open>json.Marshal\<close>) and the parser behind \<open>json.Unmarshal\<close> and \<open>json.Decoder\<close>. The
  main facts are the round trips: every value whose strings are well-formed UTF-8 is read
  back from its text, so that two different values never have the same text.
\<close>

section \<open>UTF-8\<close>

text \<open>
  \<open>utf8.DecodeRune\<close>, as far as sizes go: the length of the well-formed rune that starts
  the string, 0 where there is none (the decoder then yields U+FFFD for one byte).
\<close>

definition rune_len :: "nat \<Rightarrow> nat" where
  "rune_len v =
     (if v < 128 then 1
      else if 194 \<le> v \<and> v \<le> 223 then 2
      else if 224 \<le> v \<and> v \<le> 239 then 3
      else if 240 \<le> v \<and> v \<le> 244 then 4
      else 0)"

definition second_ok :: "nat \<Rightarrow> nat \<Rightarrow> bool" where
  "second_ok v w \<longleftrightarrow>
     (if v = 224 then 160 \<le> w \<and> w \<le> 191
      else if v = 237 then 128 \<le> w \<and> w \<le> 159
      else if v = 240 then 144 \<le> w \<and> w \<le> 191
      else if v = 244 then 128 \<le> w \<and> w \<le> 143
      else 128 \<le> w \<and> w \<le> 191)"

definition continuation :: "char \<Rightarrow> bool" where
  "continuation c \<longleftrightarrow> 128 \<le> byte_val c \<and> byte_val c \<le> 191"

fun rune_size :: "string \<Rightarrow> nat" where
  "rune_size [] = 0"
| "rune_size [c] = (if byte_val c < 128 then 1 else 0)"
| "rune_size (c # d # s) =
     (let n = rune_len (byte_val c)
      in if n \<le> 1 then n
         else if second_ok (byte_val c) (byte_val d) \<and> n - 2 \<le> length s
             \<and> list_all continuation (take (n - 2) s) then n
         else 0)"

lemma rune_size_le: "rune_size s \<le> length s"
  by (induction s rule: rune_size.induct) (auto simp: Let_def)

lemma rune_size_append: "0 < rune_size s \<Longrightarrow> rune_size (s @ t) = rune_size s"
proof (induction s rule: rune_size.induct)
  case (2 c)
  then show ?case by (cases t) (auto simp: rune_len_def Let_def split: if_splits)
next
  case (3 c d s)
  then show ?case by (auto simp: Let_def split: if_splits)
qed simp

lemma rune_size_take: "0 < rune_size s \<Longrightarrow> rune_size (take (rune_size s) s) = rune_size s"
proof (induction s rule: rune_size.induct)
  case (3 c d s)
  show ?case
  proof (cases "rune_len (byte_val c) \<le> 1")
    case True
    with 3 have "rune_len (byte_val c) = 1" by (simp add: Let_def)
    then show ?thesis by (auto simp: Let_def rune_len_def split: if_splits)
  next
    case False
    with 3 have "rune_size (c # d # s) = rune_len (byte_val c)"
      by (auto simp: Let_def split: if_splits)
    moreover from False obtain k where "rune_len (byte_val c) = Suc (Suc k)"
      by (metis One_nat_def Suc_le_D not_less_eq_eq numeral_1_eq_Suc_0)
    ultimately show ?thesis using 3 by (auto simp: Let_def split: if_splits)
  qed
qed (auto split: if_splits)

lemma rune_size_take_append:
  "0 < rune_size s \<Longrightarrow> rune_size (take (rune_size s) s @ t) = rune_size s"
  using rune_size_append rune_size_take by metis

lemma rune_size_1: "byte_val c < 128 \<Longrightarrow> rune_size (c # s) = 1"
  by (cases s) (auto simp: rune_len_def Let_def)

lemma rune_size_ge_2: "128 \<le> byte_val c \<Longrightarrow> 0 < rune_size (c # s) \<Longrightarrow> 2 \<le> rune_size (c # s)"
  by (cases s) (auto simp: rune_len_def Let_def split: if_splits)

function utf8_valid :: "string \<Rightarrow> bool" where
  "utf8_valid s =
     (if s = [] then True else if rune_size s = 0 then False else utf8_valid (drop (rune_size s) s))"
  by pat_completeness auto
termination
  by (relation "measure length") auto

declare utf8_valid.simps [simp del]

lemma utf8_valid_Nil [simp]: "utf8_valid []"
  by (simp add: utf8_valid.simps)

lemma utf8_valid_ascii: "ascii s \<Longrightarrow> utf8_valid s"
proof (induction s)
  case (Cons c s)
  then show ?case by (subst utf8_valid.simps) (simp add: rune_size_1)
qed simp

lemma utf8_valid_rune:
  "0 < rune_size s \<Longrightarrow> utf8_valid t \<Longrightarrow> utf8_valid (take (rune_size s) s @ t)"
  using utf8_valid.simps [of "take (rune_size s) s @ t"]
  by (simp add: rune_size_take_append rune_size_le min_absorb1)

lemma utf8_valid_append: "utf8_valid s \<Longrightarrow> utf8_valid t \<Longrightarrow> utf8_valid (s @ t)"
proof (induction s rule: utf8_valid.induct)
  case (1 s)
  show ?case
  proof (cases "s = []")
    case True
    with 1 show ?thesis by simp
  next
    case False
    with "1.prems" have pos: "0 < rune_size s" and rest: "utf8_valid (drop (rune_size s) s)"
      by (auto simp: utf8_valid.simps [of s] split: if_splits)
    with 1 False have "utf8_valid (drop (rune_size s) s @ t)" by simp
    from utf8_valid_rune [OF pos this] show ?thesis
      by (metis append.assoc append_take_drop_id)
  qed
qed

text \<open>\<open>utf8.EncodeRune\<close> for a code point that is not a surrogate.\<close>

definition utf8_encode :: "nat \<Rightarrow> string" where
  "utf8_encode v =
     (if v < 128 then [char_of v]
      else if v < 2048 then [char_of (192 + v div 64), char_of (128 + v mod 64)]
      else if v < 65536 then
        [char_of (224 + v div 4096), char_of (128 + v div 64 mod 64), char_of (128 + v mod 64)]
      else [char_of (240 + v div 262144), char_of (128 + v div 4096 mod 64),
            char_of (128 + v div 64 mod 64), char_of (128 + v mod 64)])"

definition replacement :: string where
  "replacement = [CHR 0xEF, CHR 0xBF, CHR 0xBD]"

section \<open>String literals\<close>

definition hex_char :: "nat \<Rightarrow> char" where
  "hex_char n = (if n < 10 then char_of (48 + n) else char_of (87 + n))"

definition hex_val :: "char \<Rightarrow> nat option" where
  "hex_val c =
     (if is_digit c then Some (byte_val c - 48)
      else if 97 \<le> byte_val c \<and> byte_val c \<le> 102 then Some (byte_val c - 87)
      else if 65 \<le> byte_val c \<and> byte_val c \<le> 70 then Some (byte_val c - 55)
      else None)"

lemma hex_val_hex_char [simp]: "n < 16 \<Longrightarrow> hex_val (hex_char n) = Some n"
  by (auto simp: hex_val_def hex_char_def is_digit_def)

text \<open>
  What \<open>json.Marshal\<close> writes for one ASCII byte, with HTML escaping on, as it is by
  default.
\<close>

definition escape_byte :: "char \<Rightarrow> string" where
  "escape_byte c =
     (if c = CHR 0x22 \<or> c = CHR 0x5C then [CHR 0x5C, c]
      else if c = CHR 0x08 then [CHR 0x5C, CHR ''b'']
      else if c = CHR 0x0C then [CHR 0x5C, CHR ''f'']
      else if c = CHR 0x0A then [CHR 0x5C, CHR ''n'']
      else if c = CHR 0x0D then [CHR 0x5C, CHR ''r'']
      else if c = CHR 0x09 then [CHR 0x5C, CHR ''t'']
      else if byte_val c < 32 \<or> c = CHR ''<'' \<or> c = CHR ''>'' \<or> c = CHR ''&'' then
        [CHR 0x5C, CHR ''u'', CHR ''0'', CHR ''0'', hex_char (byte_val c div 16), hex_char (byte_val c mod 16)]
      else [c])"

function json_escape :: "string \<Rightarrow> string" where
  "json_escape [] = []"
| "json_escape (c # s) =
     (if byte_val c < 128 then escape_byte c @ json_escape s
      else if rune_size (c # s) = 0 then CHR 0x5C # ''ufffd'' @ json_escape s
      else if take 3 (c # s) = [CHR 0xE2, CHR 0x80, CHR 0xA8] then
        CHR 0x5C # ''u2028'' @ json_escape (drop 3 (c # s))
      else if take 3 (c # s) = [CHR 0xE2, CHR 0x80, CHR 0xA9] then
        CHR 0x5C # ''u2029'' @ json_escape (drop 3 (c # s))
      else take (rune_size (c # s)) (c # s) @ json_escape (drop (rune_size (c # s)) (c # s)))"
  by pat_completeness auto
termination
  by (relation "measure length") auto

text \<open>Reading \<open>XXXX\<close> of \<open>\uXXXX\<close>.\<close>

definition hex4 :: "string \<Rightarrow> nat option" where
  "hex4 s =
     (case map hex_val (take 4 s) of
        [Some a, Some b, Some c, Some d] \<Rightarrow> Some (4096 * a + 256 * b + 16 * c + d)
      | _ \<Rightarrow> None)"

definition simple_escape :: "char \<Rightarrow> char option" where
  "simple_escape e =
     (if e = CHR 0x22 \<or> e = CHR 0x5C \<or> e = CHR ''/'' then Some e
      else if e = CHR ''b'' then Some (CHR 0x08)
      else if e = CHR ''f'' then Some (CHR 0x0C)
      else if e = CHR ''n'' then Some (CHR 0x0A)
      else if e = CHR ''r'' then Some (CHR 0x0D)
      else if e = CHR ''t'' then Some (CHR 0x09)
      else None)"

text \<open>
  One escape of the form \<open>\u\<close>, given what follows the \<open>u\<close>: the bytes it stands for and
  the number of bytes read. A surrogate pair is two escapes; a surrogate on its own is
  U+FFFD.
\<close>

definition unescape_u :: "string \<Rightarrow> (string \<times> nat) option" where
  "unescape_u s =
     (case hex4 s of None \<Rightarrow> None
      | Some v \<Rightarrow>
          if 55296 \<le> v \<and> v < 57344 then
            (case (if take 2 (drop 4 s) = [CHR 0x5C, CHR ''u''] then hex4 (drop 6 s) else None) of
               Some w \<Rightarrow>
                 if v < 56320 \<and> 56320 \<le> w \<and> w < 57344
                 then Some (utf8_encode (65536 + (v - 55296) * 1024 + (w - 56320)), 10)
                 else Some (replacement, 4)
             | None \<Rightarrow> Some (replacement, 4))
          else Some (utf8_encode v, 4))"

definition prepend :: "string \<Rightarrow> (string \<times> string) option \<Rightarrow> (string \<times> string) option" where
  "prepend w r = map_option (\<lambda>(s, rest). (w @ s, rest)) r"

lemma prepend_Some [simp]: "prepend w (Some (s, r)) = Some (w @ s, r)"
  by (simp add: prepend_def)

text \<open>The rest of a string literal after its opening quote: its value and what follows.\<close>

function unquote :: "string \<Rightarrow> (string \<times> string) option" where
  "unquote [] = None"
| "unquote (c # s) =
     (if c = CHR 0x22 then Some ([], s)
      else if c = CHR 0x5C then
        (case s of [] \<Rightarrow> None
         | e # r \<Rightarrow>
             if e = CHR ''u'' then
               (case unescape_u r of None \<Rightarrow> None
                | Some (w, n) \<Rightarrow> prepend w (unquote (drop n r)))
             else (case simple_escape e of None \<Rightarrow> None | Some d \<Rightarrow> prepend [d] (unquote r)))
      else if byte_val c < 32 then None
      else if rune_size (c # s) = 0 then prepend replacement (unquote s)
      else prepend (take (rune_size (c # s)) (c # s)) (unquote (drop (rune_size (c # s)) (c # s))))"
  by pat_completeness auto
termination
  by (relation "measure length") auto


declare unquote.simps(2) [simp del]

lemma unquote_quote [simp]: "unquote (CHR 0x22 # r) = Some ([], r)"
  by (simp add: unquote.simps)

lemma unquote_simple_escape:
  "simple_escape e = Some d \<Longrightarrow> e \<noteq> CHR ''u'' \<Longrightarrow>
   unquote (CHR 0x5C # e # t) = prepend [d] (unquote t)"
  by (simp add: unquote.simps)

lemma unquote_u_escape:
  "unescape_u (x @ t) = Some (w, length x) \<Longrightarrow>
   unquote (CHR 0x5C # CHR ''u'' # x @ t) = prepend w (unquote t)"
  by (simp add: unquote.simps)

lemma unquote_rune:
  assumes "0 < rune_size (c # s)" "c \<noteq> CHR 0x22" "c \<noteq> CHR 0x5C" "32 \<le> byte_val c"
  shows "unquote (take (rune_size (c # s)) (c # s) @ t) =
         prepend (take (rune_size (c # s)) (c # s)) (unquote t)"
proof -
  let ?n = "rune_size (c # s)"
  have eq: "take ?n (c # s) @ t = c # (take (?n - 1) s @ t)"
    using assms(1) by (cases ?n) simp_all
  then have n: "rune_size (c # (take (?n - 1) s @ t)) = ?n"
    using rune_size_take_append [OF assms(1), of t] by simp
  have "length (take ?n (c # s)) = ?n" using rune_size_le [of "c # s"] by simp
  then have "take ?n (take ?n (c # s) @ t) = take ?n (c # s)" "drop ?n (take ?n (c # s) @ t) = t"
    by (metis append_eq_conv_conj)+
  then have parts: "take ?n (c # (take (?n - 1) s @ t)) = take ?n (c # s)"
    "drop ?n (c # (take (?n - 1) s @ t)) = t"
    by (simp_all only: eq)
  show ?thesis
    unfolding eq by (subst unquote.simps) (simp only: n parts, use assms in simp)
qed

lemma unescape_u_ascii:
  assumes "byte_val c < 128"
  shows "unescape_u (''00'' @ [hex_char (byte_val c div 16), hex_char (byte_val c mod 16)] @ t)
         = Some ([c], 4)"
proof -
  have "hex_val (CHR ''0'') = Some 0" by code_simp
  moreover have "byte_val c div 16 < 16" "byte_val c mod 16 < 16"
    using assms by auto
  ultimately have "hex4 (''00'' @ [hex_char (byte_val c div 16), hex_char (byte_val c mod 16)] @ t)
      = Some (16 * (byte_val c div 16) + byte_val c mod 16)"
    by (simp add: hex4_def)
  moreover have "16 * (byte_val c div 16) + byte_val c mod 16 = byte_val c" by simp
  ultimately show ?thesis
    using assms by (simp add: unescape_u_def utf8_encode_def byte_val_def)
qed

lemma unquote_escape_byte:
  assumes "byte_val c < 128"
  shows "unquote (escape_byte c @ t) = prepend [c] (unquote t)"
proof -
  have simple: "simple_escape (CHR 0x22) = Some (CHR 0x22)" "simple_escape (CHR 0x5C) = Some (CHR 0x5C)"
    "simple_escape (CHR ''b'') = Some (CHR 0x08)" "simple_escape (CHR ''f'') = Some (CHR 0x0C)"
    "simple_escape (CHR ''n'') = Some (CHR 0x0A)" "simple_escape (CHR ''r'') = Some (CHR 0x0D)"
    "simple_escape (CHR ''t'') = Some (CHR 0x09)"
    by code_simp+
  have u: "unquote (CHR 0x5C # CHR ''u'' # (''00'' @ [hex_char (byte_val c div 16), hex_char (byte_val c mod 16)]) @ t)
      = prepend [c] (unquote t)"
    using unescape_u_ascii [OF assms, of t] by (intro unquote_u_escape) simp
  have lit: "unquote ([c] @ t) = prepend [c] (unquote t)"
    if "c \<noteq> CHR 0x22" "c \<noteq> CHR 0x5C" "32 \<le> byte_val c"
    using unquote_rune [of c "[]" t] that assms by (simp add: rune_size_1)
  show ?thesis
  proof (cases "c \<in> {CHR 0x22, CHR 0x5C, CHR 0x08, CHR 0x0C, CHR 0x0A, CHR 0x0D, CHR 0x09}")
    case True
    then show ?thesis using simple
      by (auto simp: escape_byte_def unquote_simple_escape)
  next
    case False
    show ?thesis
    proof (cases "byte_val c < 32 \<or> c = CHR ''<'' \<or> c = CHR ''>'' \<or> c = CHR ''&''")
      case True
      with False have "escape_byte c = CHR 0x5C # CHR ''u'' #
          (''00'' @ [hex_char (byte_val c div 16), hex_char (byte_val c mod 16)])"
        by (simp add: escape_byte_def)
      with u show ?thesis by simp
    next
      case F: False
      with False have "escape_byte c = [c]" by (simp add: escape_byte_def)
      with lit False F show ?thesis by simp
    qed
  qed
qed

lemma unescape_u_separators:
  "unescape_u (''2028'' @ t) = Some ([CHR 0xE2, CHR 0x80, CHR 0xA8], 4)"
  "unescape_u (''2029'' @ t) = Some ([CHR 0xE2, CHR 0x80, CHR 0xA9], 4)"
proof -
  have h: "map hex_val ''2028'' = [Some 2, Some 0, Some 2, Some 8]"
    "map hex_val ''2029'' = [Some 2, Some 0, Some 2, Some 9]"
    by code_simp+
  have e: "utf8_encode 8232 = [CHR 0xE2, CHR 0x80, CHR 0xA8]"
    "utf8_encode 8233 = [CHR 0xE2, CHR 0x80, CHR 0xA9]"
    by (simp_all add: utf8_encode_def char_of_def bit_0)
  from h e show "unescape_u (''2028'' @ t) = Some ([CHR 0xE2, CHR 0x80, CHR 0xA8], 4)"
    "unescape_u (''2029'' @ t) = Some ([CHR 0xE2, CHR 0x80, CHR 0xA9], 4)"
    by (simp_all add: unescape_u_def hex4_def)
qed

text \<open>A well-formed string is read back from its literal.\<close>

lemma separator_rune:
  "take 3 s = [CHR 0xE2, CHR 0x80, d] \<Longrightarrow> continuation d \<Longrightarrow> rune_size s = 3"
proof -
  assume a: "take 3 s = [CHR 0xE2, CHR 0x80, d]" "continuation d"
  then obtain t where "s = CHR 0xE2 # CHR 0x80 # d # t"
    by (metis append_Cons append_Nil append_take_drop_id)
  moreover have "byte_val (CHR 0x80) = 128" by code_simp
  ultimately show ?thesis
    using a by (simp add: rune_len_def second_ok_def Let_def)
qed

lemma continuation_A8_A9: "continuation (CHR 0xA8)" "continuation (CHR 0xA9)"
  by code_simp+

lemma unquote_escape:
  "utf8_valid s \<Longrightarrow> unquote (json_escape s @ CHR 0x22 # r) = Some (s, r)"
proof (induction s rule: json_escape.induct)
  case 1
  show ?case by simp
next
  case (2 c s)
  let ?t = "\<lambda>k. json_escape (drop k (c # s)) @ CHR 0x22 # r"
  let ?n = "rune_size (c # s)"
  from "2.prems" have valid: "?n \<noteq> 0" "utf8_valid (drop ?n (c # s))"
    by (auto simp: utf8_valid.simps [of "c # s"] split: if_splits)
  show ?case
  proof (cases "byte_val c < 128")
    case True
    then have "?n = 1" by (rule rune_size_1)
    with 2 True valid show ?thesis by (simp add: unquote_escape_byte)
  next
    case False
    have ne: "c \<noteq> CHR 0x22" "c \<noteq> CHR 0x5C" using False by (auto simp: byte_val_def)
    consider (a) "take 3 (c # s) = [CHR 0xE2, CHR 0x80, CHR 0xA8]"
      | (b) "take 3 (c # s) = [CHR 0xE2, CHR 0x80, CHR 0xA9]"
      | (o) "take 3 (c # s) \<noteq> [CHR 0xE2, CHR 0x80, CHR 0xA8]"
            "take 3 (c # s) \<noteq> [CHR 0xE2, CHR 0x80, CHR 0xA9]"
      by blast
    then show ?thesis
    proof cases
      case a
      then have n: "?n = 3" using separator_rune continuation_A8_A9 by blast
      have "unquote (?t 3) = Some (drop 3 (c # s), r)"
        using "2.IH"(3) [OF False valid(1) a] valid n by simp
      moreover have "unquote (CHR 0x5C # CHR ''u'' # ''2028'' @ ?t 3)
          = prepend [CHR 0xE2, CHR 0x80, CHR 0xA8] (unquote (?t 3))"
        by (rule unquote_u_escape) (simp add: unescape_u_separators [simplified])
      moreover have "[CHR 0xE2, CHR 0x80, CHR 0xA8] @ drop 3 (c # s) = c # s"
        using a by (metis append_take_drop_id)
      ultimately show ?thesis using a False valid(1) by simp
    next
      case b
      then have n: "?n = 3" using separator_rune continuation_A8_A9 by blast
      have "take 3 (c # s) \<noteq> [CHR 0xE2, CHR 0x80, CHR 0xA8]" using b by simp
      then have "unquote (?t 3) = Some (drop 3 (c # s), r)"
        using "2.IH"(4) [OF False valid(1) _ b] valid n by simp
      moreover have "unquote (CHR 0x5C # CHR ''u'' # ''2029'' @ ?t 3)
          = prepend [CHR 0xE2, CHR 0x80, CHR 0xA9] (unquote (?t 3))"
        by (rule unquote_u_escape) (simp add: unescape_u_separators [simplified])
      moreover have "[CHR 0xE2, CHR 0x80, CHR 0xA9] @ drop 3 (c # s) = c # s"
        using b by (metis append_take_drop_id)
      ultimately show ?thesis using b False valid(1) by simp
    next
      case o
      have "unquote (?t ?n) = Some (drop ?n (c # s), r)"
        using "2.IH"(5) [OF False valid(1) o] valid by simp
      moreover have "unquote (take ?n (c # s) @ ?t ?n) = prepend (take ?n (c # s)) (unquote (?t ?n))"
        using unquote_rune [of c s "?t ?n"] valid ne False by simp
      moreover have "json_escape (c # s) = take ?n (c # s) @ json_escape (drop ?n (c # s))"
        by (subst json_escape.simps(2)) (simp only: o False valid(1) if_False)
      ultimately show ?thesis by simp
    qed
  qed
qed


text \<open>The decoder yields well-formed strings only, and consumes what it reads.\<close>

lemma utf8_valid_single_rune: "0 < rune_size s \<Longrightarrow> rune_size s = length s \<Longrightarrow> utf8_valid s"
  by (subst utf8_valid.simps) auto

lemma utf8_valid_2:
  fixes a b :: nat
  shows "194 \<le> a \<Longrightarrow> a < 224 \<Longrightarrow> 128 \<le> b \<Longrightarrow> b < 192 \<Longrightarrow> utf8_valid [char_of a, char_of b]"
  by (rule utf8_valid_single_rune) (simp_all add: rune_len_def second_ok_def Let_def)

lemma utf8_valid_3:
  fixes a b c :: nat
  shows "224 \<le> a \<Longrightarrow> a < 240 \<Longrightarrow> second_ok a b \<Longrightarrow> b < 192 \<Longrightarrow> 128 \<le> c \<Longrightarrow> c < 192 \<Longrightarrow>
   utf8_valid [char_of a, char_of b, char_of c]"
  by (rule utf8_valid_single_rune) (simp_all add: rune_len_def continuation_def Let_def)

lemma utf8_valid_4:
  fixes a b c d :: nat
  shows "240 \<le> a \<Longrightarrow> a < 245 \<Longrightarrow> second_ok a b \<Longrightarrow> b < 192 \<Longrightarrow> 128 \<le> c \<Longrightarrow> c < 192 \<Longrightarrow> 128 \<le> d \<Longrightarrow> d < 192 \<Longrightarrow>
   utf8_valid [char_of a, char_of b, char_of c, char_of d]"
  by (rule utf8_valid_single_rune) (simp_all add: rune_len_def continuation_def Let_def)

lemma second_okI:
  "b \<le> 191 \<Longrightarrow> 128 \<le> b \<Longrightarrow> (a = 224 \<longrightarrow> 160 \<le> b) \<Longrightarrow> (a = 237 \<longrightarrow> b \<le> 159) \<Longrightarrow>
   (a = 240 \<longrightarrow> 144 \<le> b) \<Longrightarrow> (a = 244 \<longrightarrow> b \<le> 143) \<Longrightarrow> second_ok a b"
  by (simp add: second_ok_def)

lemma low_bits_bounds:
  fixes w q :: nat
  assumes "w div 64 = q"
  shows "64 * q + lo \<le> w \<Longrightarrow> lo \<le> w mod 64" "w \<le> 64 * q + hi \<Longrightarrow> w mod 64 \<le> hi"
  using assms div_mult_mod_eq [of w 64] by auto

lemma utf8_valid_utf8_encode:
  assumes "v < 55296 \<or> 57344 \<le> v" "v < 1114112"
  shows "utf8_valid (utf8_encode v)"
proof -
  consider (a) "v < 128" | (b) "128 \<le> v" "v < 2048" | (c) "2048 \<le> v" "v < 65536" | (d) "65536 \<le> v"
    by linarith
  then show ?thesis
  proof cases
    case a
    then show ?thesis by (intro utf8_valid_single_rune) (simp_all add: utf8_encode_def)
  next
    case b
    then have "utf8_valid [char_of (192 + v div 64), char_of (128 + v mod 64)]"
      by (intro utf8_valid_2) auto
    with b show ?thesis by (simp add: utf8_encode_def)
  next
    case c
    let ?b1 = "224 + v div 4096" and ?b2 = "128 + v div 64 mod 64"
    have r: "?b1 < 240" "?b2 < 192" "128 + v mod 64 < 192"
      using c less_mult_imp_div_less [of v 16 4096] by simp_all
    have q: "v div 64 div 64 = v div 4096" by (simp flip: div_mult2_eq)
    have "?b1 = 224 \<longrightarrow> 160 \<le> ?b2"
      using low_bits_bounds(1) [OF q, of 32] c(1) div_le_mono [of 2048 v 64] by simp
    moreover have "?b1 = 237 \<longrightarrow> ?b2 \<le> 159"
      using low_bits_bounds(2) [OF q, of 31] assms(1) div_le_mono [of v 55295 64] by auto
    moreover have "?b1 \<noteq> 240" "?b1 \<noteq> 244" using r(1) by linarith+
    moreover have "?b2 \<le> 191" "128 \<le> ?b2" by simp_all
    ultimately have "second_ok ?b1 ?b2" by (intro second_okI) blast+
    then have "utf8_valid [char_of ?b1, char_of ?b2, char_of (128 + v mod 64)]"
      using r by (intro utf8_valid_3) simp_all
    with c show ?thesis by (simp add: utf8_encode_def)
  next
    case d
    let ?b1 = "240 + v div 262144" and ?b2 = "128 + v div 4096 mod 64"
    have r: "?b1 < 245" "?b2 < 192" "128 + v mod 64 < 192" "128 + v div 64 mod 64 < 192"
      using assms(2) less_mult_imp_div_less [of v 5 262144] by simp_all
    have q: "v div 4096 div 64 = v div 262144" by (simp flip: div_mult2_eq)
    have "?b1 = 240 \<longrightarrow> 144 \<le> ?b2"
      using low_bits_bounds(1) [OF q, of 16] d div_le_mono [of 65536 v 4096] by simp
    moreover have "?b1 = 244 \<longrightarrow> ?b2 \<le> 143"
      using low_bits_bounds(2) [OF q, of 15] assms(2) div_le_mono [of v 1114111 4096] by simp
    moreover have "?b1 \<noteq> 224" "?b1 \<noteq> 237" by linarith+
    moreover have "?b2 \<le> 191" "128 \<le> ?b2" by simp_all
    ultimately have "second_ok ?b1 ?b2" by (intro second_okI) blast+
    then have "utf8_valid [char_of ?b1, char_of ?b2, char_of (128 + v div 64 mod 64), char_of (128 + v mod 64)]"
      using r by (intro utf8_valid_4) simp_all
    with d show ?thesis by (simp add: utf8_encode_def)
  qed
qed

lemma utf8_valid_replacement: "utf8_valid replacement"
  by code_simp

lemma hex_val_less: "hex_val c = Some n \<Longrightarrow> n < 16"
  by (auto simp: hex_val_def is_digit_def split: if_splits)

lemma hex4_less: "hex4 s = Some v \<Longrightarrow> v < 65536"
  by (auto simp: hex4_def split: list.splits option.splits dest!: hex_val_less)

lemma unescape_u_valid: "unescape_u s = Some (w, n) \<Longrightarrow> utf8_valid w"
  by (auto simp: unescape_u_def utf8_valid_replacement split: option.splits if_splits
      dest!: hex4_less intro!: utf8_valid_utf8_encode)

lemma prepend_SomeD: "prepend w x = Some (t, r) \<Longrightarrow> \<exists>u. x = Some (u, r) \<and> t = w @ u"
  by (cases x) (auto simp: prepend_def)

lemma simple_escape_valid: "simple_escape e = Some d \<Longrightarrow> utf8_valid [d]"
  by (intro utf8_valid_ascii) (auto simp: simple_escape_def byte_val_def split: if_splits)

lemma unquote_valid: "unquote s = Some (t, r) \<Longrightarrow> utf8_valid t \<and> length r < length s"
proof (induction s arbitrary: t r rule: unquote.induct)
  case (2 c s)
  let ?n = "rune_size (c # s)"
  have rune: "utf8_valid (take ?n (c # s) @ u)" if "utf8_valid u" "?n \<noteq> 0" for u
    using utf8_valid_rune that by blast
  show ?case
  proof (cases "c = CHR 0x5C")
    case True
    with "2.prems" obtain e q where s: "s = e # q" by (cases s) (auto simp: unquote.simps(2))
    show ?thesis
    proof (cases "e = CHR ''u''")
      case u: True
      with "2.prems" True s obtain w n v where
        "unescape_u q = Some (w, n)" "unquote (drop n q) = Some (v, r)" "t = w @ v"
        by (auto simp: unquote.simps(2) split: option.splits dest!: prepend_SomeD)
      moreover from this have "utf8_valid v \<and> length r < length (drop n q)"
        using "2.IH"(1) [OF _ True s u] True by fastforce
      ultimately show ?thesis using s by (auto intro: utf8_valid_append dest: unescape_u_valid)
    next
      case nu: False
      with "2.prems" True s obtain d v where
        "simple_escape e = Some d" "unquote q = Some (v, r)" "t = [d] @ v"
        by (auto simp: unquote.simps(2) split: option.splits dest!: prepend_SomeD)
      moreover from this have "utf8_valid v \<and> length r < length q"
        using "2.IH"(2) [OF _ True s nu] True by fastforce
      ultimately show ?thesis using s utf8_valid_append [of "[d]" v] simple_escape_valid by auto
    qed
  next
    case False
    consider "c = CHR 0x22" | "c \<noteq> CHR 0x22" "32 \<le> byte_val c" "?n = 0" | "c \<noteq> CHR 0x22" "32 \<le> byte_val c" "?n \<noteq> 0"
      using "2.prems" False by (fastforce simp: unquote.simps(2) split: if_splits)
    then show ?thesis
    proof cases
      case 1
      with "2.prems" show ?thesis by simp
    next
      case 2
      with False "2.prems" "2.IH"(3) show ?thesis
        by (fastforce simp: unquote.simps(2) intro: utf8_valid_append utf8_valid_replacement
            dest!: prepend_SomeD)
    next
      case 3
      then obtain u where u: "unquote (drop ?n (c # s)) = Some (u, r)" "t = take ?n (c # s) @ u"
        using False "2.prems" by (auto simp: unquote.simps(2) dest!: prepend_SomeD)
      then have "utf8_valid u" "length r < length (drop ?n (c # s))"
        using "2.IH"(4) 3 False by auto
      with u rune 3 show ?thesis by auto
    qed
  qed
qed simp

lemma length_json_escape_ascii: "ascii s \<Longrightarrow> length (json_escape s) \<le> 6 * length s"
proof (induction s)
  case (Cons c s)
  have "length (escape_byte c) \<le> 6" by (simp add: escape_byte_def)
  with Cons show ?case by simp
qed simp

end
