(* ===== verification/Json.thy ===== *)
theory Json
  imports Json_Text
begin

text \<open>
  JSON values, their compact text (\<open>json.Marshal\<close>), the parser of the decoder, and the
  assignment of an object's members to the fields of a struct. The bytes of a request or a
  response are text in this sense; the round trip \<open>json_parse_text\<close> is what lets one
  service read what another wrote.
\<close>

section \<open>Values and their text\<close>

text \<open>A number is kept as its literal, as the decoder does until it knows the field's type.\<close>

datatype json =
    JNull
  | JBool bool
  | JNum string
  | JStr string
  | JArr "json list"
  | JObj "(string \<times> json) list"

definition quoted :: "string \<Rightarrow> string" where
  "quoted s = CHR 0x22 # json_escape s @ [CHR 0x22]"

fun json_text :: "json \<Rightarrow> string" where
  "json_text JNull = ''null''"
| "json_text (JBool b) = (if b then ''true'' else ''false'')"
| "json_text (JNum t) = t"
| "json_text (JStr s) = quoted s"
| "json_text (JArr xs) = ''['' @ join_with '','' (map json_text xs) @ '']''"
| "json_text (JObj kvs) =
     ''{'' @ join_with '','' (map (\<lambda>(k, v). quoted k @ '':'' @ json_text v) kvs) @ ''}''"

definition member_text :: "string \<times> json \<Rightarrow> string" where
  "member_text kv = quoted (fst kv) @ '':'' @ json_text (snd kv)"

lemma json_text_JObj:
  "json_text (JObj kvs) = ''{'' @ join_with '','' (map member_text kvs) @ ''}''"
  by (simp add: member_text_def [abs_def] case_prod_unfold)

declare json_text.simps(6) [simp del]

section \<open>Parsing\<close>

definition is_ws :: "char \<Rightarrow> bool" where
  "is_ws c \<longleftrightarrow> c = CHR 0x20 \<or> c = CHR 0x09 \<or> c = CHR 0x0A \<or> c = CHR 0x0D"

definition skip_ws :: "string \<Rightarrow> string" where
  "skip_ws s = dropWhile is_ws s"

definition num_char :: "char \<Rightarrow> bool" where
  "num_char c \<longleftrightarrow>
     is_digit c \<or> c = CHR ''-'' \<or> c = CHR ''+'' \<or> c = CHR ''.'' \<or> c = CHR ''e'' \<or> c = CHR ''E''"

definition valid_exponent :: "string \<Rightarrow> bool" where
  "valid_exponent t \<longleftrightarrow>
     t = [] \<or>
     (take 1 t = ''e'' \<or> take 1 t = ''E'') \<and>
     (let u = (if take 1 (drop 1 t) = ''+'' \<or> take 1 (drop 1 t) = ''-'' then drop 2 t else drop 1 t)
      in u \<noteq> [] \<and> list_all is_digit u)"

definition valid_fraction :: "string \<Rightarrow> bool" where
  "valid_fraction t \<longleftrightarrow>
     (if take 1 t = ''.'' then
        takeWhile is_digit (drop 1 t) \<noteq> [] \<and> valid_exponent (dropWhile is_digit (drop 1 t))
      else valid_exponent t)"

text \<open>The number grammar: no leading zero, no leading plus.\<close>

definition valid_number :: "string \<Rightarrow> bool" where
  "valid_number t \<longleftrightarrow>
     (let u = (if take 1 t = ''-'' then drop 1 t else t); ip = takeWhile is_digit u
      in ip \<noteq> [] \<and> (take 1 ip = ''0'' \<longrightarrow> length ip = 1) \<and> valid_fraction (dropWhile is_digit u)
         \<and> list_all num_char t)"

text \<open>
  The first value of a byte sequence and what follows it. The first argument bounds the
  number of nested calls; \<open>json_parse\<close> gives it enough for any text.
\<close>

fun parse_value :: "nat \<Rightarrow> string \<Rightarrow> (json \<times> string) option"
and parse_elems :: "nat \<Rightarrow> string \<Rightarrow> (json list \<times> string) option"
and parse_members :: "nat \<Rightarrow> string \<Rightarrow> ((string \<times> json) list \<times> string) option"
where
  "parse_value 0 s = None"
| "parse_value (Suc n) s =
     (case skip_ws s of
        [] \<Rightarrow> None
      | c # r \<Rightarrow>
          if c = CHR 0x22 then map_option (\<lambda>(t, rest). (JStr t, rest)) (unquote r)
          else if c = CHR ''['' then
            (if take 1 (skip_ws r) = '']'' then Some (JArr [], drop 1 (skip_ws r))
             else map_option (\<lambda>(xs, rest). (JArr xs, rest)) (parse_elems n r))
          else if c = CHR ''{'' then
            (if take 1 (skip_ws r) = ''}'' then Some (JObj [], drop 1 (skip_ws r))
             else map_option (\<lambda>(kvs, rest). (JObj kvs, rest)) (parse_members n r))
          else if take 4 (c # r) = ''null'' then Some (JNull, drop 4 (c # r))
          else if take 4 (c # r) = ''true'' then Some (JBool True, drop 4 (c # r))
          else if take 5 (c # r) = ''false'' then Some (JBool False, drop 5 (c # r))
          else if valid_number (takeWhile num_char (c # r)) then
            Some (JNum (takeWhile num_char (c # r)), dropWhile num_char (c # r))
          else None)"
| "parse_elems 0 s = None"
| "parse_elems (Suc n) s =
     (case parse_value n s of
        None \<Rightarrow> None
      | Some (v, r) \<Rightarrow>
          (if take 1 (skip_ws r) = '','' then
             map_option (\<lambda>(vs, rest). (v # vs, rest)) (parse_elems n (drop 1 (skip_ws r)))
           else if take 1 (skip_ws r) = '']'' then Some ([v], drop 1 (skip_ws r))
           else None))"
| "parse_members 0 s = None"
| "parse_members (Suc n) s =
     (if take 1 (skip_ws s) = [CHR 0x22] then
        (case unquote (drop 1 (skip_ws s)) of
           None \<Rightarrow> None
         | Some (k, r) \<Rightarrow>
             (if take 1 (skip_ws r) = '':'' then
                (case parse_value n (drop 1 (skip_ws r)) of
                   None \<Rightarrow> None
                 | Some (v, r2) \<Rightarrow>
                     (if take 1 (skip_ws r2) = '','' then
                        map_option (\<lambda>(kvs, rest). ((k, v) # kvs, rest))
                          (parse_members n (drop 1 (skip_ws r2)))
                      else if take 1 (skip_ws r2) = ''}'' then Some ([(k, v)], drop 1 (skip_ws r2))
                      else None))
              else None))
      else None)"

text \<open>
  \<open>json.NewDecoder(r).Decode\<close> reads the first value of the stream; \<open>json.Unmarshal\<close> wants
  nothing but white space after it.
\<close>

definition decode_first :: "string \<Rightarrow> json option" where
  "decode_first s = map_option fst (parse_value (2 * length s) s)"

definition unmarshal :: "string \<Rightarrow> json option" where
  "unmarshal s =
     (case parse_value (2 * length s) s of
        Some (j, rest) \<Rightarrow> if skip_ws rest = [] then Some j else None
      | None \<Rightarrow> None)"

text \<open>The values that can be written: well-formed strings, literals of the number grammar.\<close>

fun json_ok :: "json \<Rightarrow> bool" where
  "json_ok (JNum t) \<longleftrightarrow> valid_number t"
| "json_ok (JStr s) \<longleftrightarrow> utf8_valid s"
| "json_ok (JArr xs) \<longleftrightarrow> list_all json_ok xs"
| "json_ok (JObj kvs) \<longleftrightarrow> list_all (\<lambda>(k, v). utf8_valid k \<and> json_ok v) kvs"
| "json_ok _ \<longleftrightarrow> True"


section \<open>The round trip\<close>

lemma quoted_Cons: "quoted s @ r = CHR 0x22 # (json_escape s @ CHR 0x22 # r)"
  by (simp add: quoted_def)

lemma unquote_quoted: "utf8_valid s \<Longrightarrow> unquote (drop 1 (quoted s @ r)) = Some (s, r)"
  by (simp add: quoted_Cons unquote_escape)

lemma skip_ws_Cons [simp]: "\<not> is_ws c \<Longrightarrow> skip_ws (c # s) = c # s"
  by (simp add: skip_ws_def)

lemma not_ws [simp]:
  "\<not> is_ws (CHR 0x22)" "\<not> is_ws (CHR '','')" "\<not> is_ws (CHR '':'')" "\<not> is_ws (CHR ''['')"
  "\<not> is_ws (CHR '']'')" "\<not> is_ws (CHR ''{'')" "\<not> is_ws (CHR ''}'')"
  "\<not> is_ws (CHR ''n'')" "\<not> is_ws (CHR ''t'')" "\<not> is_ws (CHR ''f'')"
  by (simp_all add: is_ws_def)

lemma num_char_not_ws: "num_char c \<Longrightarrow> \<not> is_ws c"
  by (auto simp: num_char_def is_ws_def is_digit_def byte_val_def)

text \<open>What may follow a number so that the scanner stops there.\<close>

definition stops_number :: "string \<Rightarrow> bool" where
  "stops_number r \<longleftrightarrow> (case r of [] \<Rightarrow> True | c # _ \<Rightarrow> \<not> num_char c)"

lemma stops_number_simps [simp]:
  "stops_number []" "stops_number (CHR '','' # r)" "stops_number (CHR '']'' # r)"
  "stops_number (CHR ''}'' # r)"
  by (simp_all add: stops_number_def num_char_def is_digit_def byte_val_def)

lemma valid_number_num_chars: "valid_number t \<Longrightarrow> list_all num_char t"
  by (simp add: valid_number_def Let_def)

lemma valid_number_not_Nil: "valid_number t \<Longrightarrow> t \<noteq> []"
  by (auto simp: valid_number_def)

lemma takeWhile_number:
  assumes "list_all num_char t" "stops_number r"
  shows "takeWhile num_char (t @ r) = t" "dropWhile num_char (t @ r) = r"
proof -
  have "takeWhile num_char r = []" "dropWhile num_char r = r"
    using assms(2) by (simp_all add: stops_number_def split: list.splits)
  with assms(1) show "takeWhile num_char (t @ r) = t" "dropWhile num_char (t @ r) = r"
    by (induction t) simp_all
qed

lemma num_char_neq:
  "num_char c \<Longrightarrow> c \<noteq> CHR 0x22 \<and> c \<noteq> CHR ''['' \<and> c \<noteq> CHR ''{'' \<and> c \<noteq> CHR ''n''
     \<and> c \<noteq> CHR ''t'' \<and> c \<noteq> CHR ''f'' \<and> c \<noteq> CHR '']'' \<and> c \<noteq> CHR ''}''"
  by (auto simp: num_char_def is_digit_def byte_val_def)

lemma parse_number:
  assumes "valid_number t" "stops_number r"
  shows "parse_value (Suc n) (t @ r) = Some (JNum t, r)"
proof -
  obtain c t' where t: "t = c # t'"
    using valid_number_not_Nil [OF assms(1)] by (cases t) auto
  have c: "num_char c" using valid_number_num_chars [OF assms(1)] t by simp
  have ws: "skip_ws (t @ r) = c # (t' @ r)" using c t by (simp add: num_char_not_ws)
  have scan: "takeWhile num_char (c # (t' @ r)) = t" "dropWhile num_char (c # (t' @ r)) = r"
    using takeWhile_number [OF valid_number_num_chars [OF assms(1)] assms(2)] t by simp_all
  show ?thesis
    unfolding parse_value.simps(2) ws list.case
    by (simp only: scan, use num_char_neq [OF c] assms(1) in simp)
qed

lemma json_text_start:
  assumes "json_ok j"
  obtains c t where "json_text j = c # t" "\<not> is_ws c" "c \<noteq> CHR '']''" "c \<noteq> CHR ''}''"
proof (cases j)
  case (JNum u)
  with assms obtain c t where "u = c # t" "num_char c"
    using valid_number_not_Nil valid_number_num_chars by (cases u) fastforce+
  with JNum show ?thesis
    by (intro that [of c t]) (auto simp: num_char_not_ws dest: num_char_neq)
next
  case (JBool b)
  then show ?thesis by (cases b) (auto intro: that)
qed (auto simp: quoted_def json_text_JObj intro: that)

lemma json_text_length: "json_ok j \<Longrightarrow> 0 < length (json_text j)"
  by (metis json_text_start length_greater_0_conv list.distinct(1))

lemma join_with_Cons: "ws \<noteq> [] \<Longrightarrow> join_with sep (w # ws) = w @ sep @ join_with sep ws"
  by (cases ws) simp_all

lemma parse_elems_text:
  assumes "xs \<noteq> []"
    and "\<And>x n r. x \<in> set xs \<Longrightarrow> 2 * length (json_text x) \<le> n \<Longrightarrow> stops_number r \<Longrightarrow>
      parse_value n (json_text x @ r) = Some (x, r)"
    and "2 * length (join_with '','' (map json_text xs)) + 1 \<le> n"
  shows "parse_elems n (join_with '','' (map json_text xs) @ CHR '']'' # r) = Some (xs, r)"
  using assms
proof (induction xs arbitrary: n rule: list_nonempty_induct)
  case (single x)
  then show ?case by (cases n) simp_all
next
  case (cons x xs)
  let ?rest = "join_with '','' (map json_text xs)"
  from cons.hyps have body: "join_with '','' (map json_text (x # xs)) = json_text x @ CHR '','' # ?rest"
    by (simp add: join_with_Cons)
  from cons.prems(2) obtain m where n: "n = Suc m" by (cases n) auto
  have len: "2 * length (json_text x) \<le> m" "2 * length ?rest + 1 \<le> m"
    using cons.prems(2) n unfolding body by simp_all
  have "parse_elems m (?rest @ CHR '']'' # r) = Some (xs, r)"
    using cons.IH cons.prems(1) len(2) by simp
  moreover have "parse_value m (json_text x @ CHR '','' # ?rest @ CHR '']'' # r)
      = Some (x, CHR '','' # ?rest @ CHR '']'' # r)"
    using cons.prems(1) len(1) by simp
  ultimately show ?case unfolding body n by simp
qed

lemma parse_members_text:
  assumes "kvs \<noteq> []"
    and "\<And>p n r. p \<in> set kvs \<Longrightarrow> 2 * length (json_text (snd p)) \<le> n \<Longrightarrow> stops_number r \<Longrightarrow>
      parse_value n (json_text (snd p) @ r) = Some (snd p, r)"
    and "\<And>p. p \<in> set kvs \<Longrightarrow> utf8_valid (fst p)"
    and "2 * length (join_with '','' (map member_text kvs)) + 1 \<le> n"
  shows "parse_members n (join_with '','' (map member_text kvs) @ CHR ''}'' # r) = Some (kvs, r)"
  using assms
proof (induction kvs arbitrary: n rule: list_nonempty_induct)
  case (single p)
  then obtain m where n: "n = Suc m" by (cases n) auto
  have "parse_value m (json_text (snd p) @ CHR ''}'' # r) = Some (snd p, CHR ''}'' # r)"
    using single n by (simp add: member_text_def)
  with single.prems(2) n show ?case
    by (simp add: member_text_def quoted_Cons unquote_escape)
next
  case (cons p kvs)
  let ?rest = "join_with '','' (map member_text kvs)"
  from cons.hyps have body: "join_with '','' (map member_text (p # kvs))
      = quoted (fst p) @ CHR '':'' # json_text (snd p) @ CHR '','' # ?rest"
    by (simp add: join_with_Cons member_text_def)
  from cons.prems(3) obtain m where n: "n = Suc m" by (cases n) auto
  have len: "2 * length (json_text (snd p)) \<le> m" "2 * length ?rest + 1 \<le> m"
    using cons.prems(3) n unfolding body by simp_all
  have "parse_members m (?rest @ CHR ''}'' # r) = Some (kvs, r)"
    using cons.IH cons.prems(1,2) len(2) by simp
  moreover have "parse_value m (json_text (snd p) @ CHR '','' # ?rest @ CHR ''}'' # r)
      = Some (snd p, CHR '','' # ?rest @ CHR ''}'' # r)"
    using cons.prems(1) len(1) by simp
  ultimately show ?case unfolding body n using cons.prems(2)
    by (simp add: quoted_Cons unquote_escape)
qed

lemma take_1_json_text:
  "json_ok j \<Longrightarrow> c = CHR '']'' \<or> c = CHR ''}'' \<Longrightarrow> take 1 (skip_ws (json_text j @ r)) \<noteq> [c]"
  by (erule json_text_start) auto

lemma parse_value_text:
  "json_ok j \<Longrightarrow> 2 * length (json_text j) \<le> n \<Longrightarrow> stops_number r \<Longrightarrow>
   parse_value n (json_text j @ r) = Some (j, r)"
proof (induction j arbitrary: n r)
  case (JNum t)
  then obtain m where "n = Suc m" using json_text_length [of "JNum t"] by (cases n) auto
  with JNum show ?case by (simp del: parse_value.simps add: parse_number)
next
  case (JStr t)
  then obtain m where "n = Suc m" by (cases n) (auto simp: quoted_def)
  with JStr show ?case by (simp add: quoted_Cons unquote_escape)
next
  case (JArr xs)
  then obtain m where n: "n = Suc m" by (cases n) auto
  show ?case
  proof (cases "xs = []")
    case True
    with n show ?thesis by simp
  next
    case False
    let ?body = "join_with '','' (map json_text xs)"
    have ok: "\<And>x. x \<in> set xs \<Longrightarrow> json_ok x" using JArr.prems(1) by (simp add: list_all_iff)
    have "parse_elems m (?body @ CHR '']'' # r) = Some (xs, r)"
      using JArr ok n by (intro parse_elems_text [OF False]) simp_all
    moreover have "take 1 (skip_ws (?body @ CHR '']'' # r)) \<noteq> '']''"
      using False ok take_1_json_text [of "hd xs" "CHR '']''"]
      by (cases xs; cases "tl xs") (auto simp: join_with_Cons)
    ultimately show ?thesis using n by simp
  qed
next
  case (JObj kvs)
  then obtain m where n: "n = Suc m" by (cases n) (auto simp: json_text_JObj)
  show ?case
  proof (cases "kvs = []")
    case True
    with n show ?thesis by (simp add: json_text_JObj)
  next
    case False
    let ?body = "join_with '','' (map member_text kvs)"
    have ok: "\<And>p. p \<in> set kvs \<Longrightarrow> utf8_valid (fst p) \<and> json_ok (snd p)"
      using JObj.prems(1) by (auto simp: list_all_iff)
    have "parse_members m (?body @ CHR ''}'' # r) = Some (kvs, r)"
      using JObj ok n
      by (intro parse_members_text [OF False]) (auto simp: json_text_JObj snds.simps)
    moreover have "take 1 (skip_ws (?body @ CHR ''}'' # r)) \<noteq> ''}''"
      using False by (cases kvs; cases "tl kvs") (simp_all add: join_with_Cons member_text_def quoted_def)
    ultimately show ?thesis using n by (simp add: json_text_JObj)
  qed
next
  case (JBool b)
  then obtain m where "n = Suc m" by (cases n) (auto split: if_splits)
  then show ?case by (cases b) simp_all
next
  case JNull
  then obtain m where "n = Suc m" by (cases n) auto
  then show ?case by simp
qed

theorem decode_first_text: "json_ok j \<Longrightarrow> stops_number r \<Longrightarrow> decode_first (json_text j @ r) = Some j"
  using parse_value_text [of j "2 * length (json_text j @ r)" r] by (simp add: decode_first_def)

theorem unmarshal_text: "json_ok j \<Longrightarrow> unmarshal (json_text j) = Some j"
  using parse_value_text [of j "2 * length (json_text j)" "[]"]
  by (simp add: unmarshal_def skip_ws_def)

theorem json_text_inj: "json_ok j \<Longrightarrow> json_ok k \<Longrightarrow> json_text j = json_text k \<Longrightarrow> j = k"
  by (metis option.inject unmarshal_text)


section \<open>Parsed values, and enough fuel\<close>

lemma length_skip_ws: "length (skip_ws s) \<le> length s"
  by (simp add: skip_ws_def length_dropWhile_le)

lemma length_drop_skip_ws: "take 1 (skip_ws s) = [c] \<Longrightarrow> length (drop 1 (skip_ws s)) < length s"
  using length_skip_ws [of s] by (cases "skip_ws s") auto

lemma length_drop_number:
  "valid_number (takeWhile num_char s) \<Longrightarrow> length (dropWhile num_char s) < length s"
  by (metis add.commute append_self_conv2 length_append length_greater_0_conv less_add_same_cancel2
      takeWhile_dropWhile_id valid_number_not_Nil)

lemma parse_ok:
  shows "parse_value n s = Some (j, r) \<Longrightarrow> json_ok j \<and> length r < length s"
    and "parse_elems n s = Some (xs, r) \<Longrightarrow> list_all json_ok xs \<and> length r < length s"
    and "parse_members n s = Some (kvs, r) \<Longrightarrow>
      list_all (\<lambda>(k, v). utf8_valid k \<and> json_ok v) kvs \<and> length r < length s"
proof (induction n s and n s and n s arbitrary: j r and xs r and kvs r
    rule: parse_value_parse_elems_parse_members.induct)
  case (2 n s)
  then obtain c q where q: "skip_ws s = c # q" by (auto split: list.splits)
  then have len: "length q < length s" using length_skip_ws [of s] by simp
  note drop1 = length_drop_skip_ws [of q]
  have shorter: "length u < length q \<Longrightarrow> length u < length s" for u :: string
    using len by simp
  show ?case
  proof (cases "c = CHR 0x22 \<or> c = CHR ''['' \<or> c = CHR ''{''")
    case True
    with 2 q len drop1 show ?thesis
      by (auto split: if_splits dest!: unquote_valid intro!: shorter)
  next
    case False
    with "2.prems" q have "json_ok j \<and> length r < length (c # q)"
      using length_drop_number [of "c # q"]
      by (auto simp del: takeWhile.simps dropWhile.simps take_Suc_Cons split: if_splits)
    with len show ?thesis by auto
  qed
next
  case (4 n s)
  from "4.prems" obtain v q where q: "parse_value n s = Some (v, q)"
    by (auto split: option.splits)
  with "4.IH"(1) have v: "json_ok v" "length q < length s" by auto
  note drop1 = length_drop_skip_ws [of q, THEN less_trans, OF _ v(2)]
  show ?case
  proof (cases "take 1 (skip_ws q) = '',''")
    case True
    with "4.prems" q obtain vs where
      vs: "parse_elems n (drop 1 (skip_ws q)) = Some (vs, r)" "xs = v # vs" by auto
    with "4.IH"(2) [OF q _ True] v drop1 [OF True] show ?thesis by fastforce
  next
    case False
    with "4.prems" q v drop1 show ?thesis by (auto split: if_splits)
  qed
next
  case (6 n s)
  from "6.prems" obtain k q where k: "take 1 (skip_ws s) = [CHR 0x22]" "unquote (drop 1 (skip_ws s)) = Some (k, q)"
    by (auto split: option.splits if_splits)
  then have kq: "utf8_valid k" "length q < length s"
    using unquote_valid [OF k(2)] length_drop_skip_ws [OF k(1)] by auto
  from "6.prems" k obtain v p where v: "take 1 (skip_ws q) = '':''" "parse_value n (drop 1 (skip_ws q)) = Some (v, p)"
    by (auto split: option.splits if_splits)
  then have vp: "json_ok v" "length p < length s"
    using "6.IH"(1) [OF k(1,2)] length_drop_skip_ws [OF v(1)] kq by fastforce+
  note drop1 = length_drop_skip_ws [of p, THEN less_trans, OF _ vp(2)]
  show ?case
  proof (cases "take 1 (skip_ws p) = '',''")
    case True
    with "6.prems" k v obtain vs where
      vs: "parse_members n (drop 1 (skip_ws p)) = Some (vs, r)" "kvs = (k, v) # vs" by auto
    with "6.IH"(2) [OF k _ v(1) v(2) _ True] kq vp drop1 [OF True] show ?thesis by fastforce
  next
    case False
    with "6.prems" k v kq vp drop1 show ?thesis by (auto split: if_splits)
  qed
qed simp_all


text \<open>
  The fuel \<open>decode_first\<close> and \<open>unmarshal\<close> start with is enough for every text: more of it
  never changes the result.
\<close>

lemma parse_fuel:
  shows "2 * length s \<le> n \<Longrightarrow> 2 * length s \<le> m \<Longrightarrow> parse_value n s = parse_value m s"
    and "2 * length s + 1 \<le> n \<Longrightarrow> 2 * length s + 1 \<le> m \<Longrightarrow> parse_elems n s = parse_elems m s"
    and "2 * length s + 1 \<le> n \<Longrightarrow> 2 * length s + 1 \<le> m \<Longrightarrow> parse_members n s = parse_members m s"
proof (induction n s and n s and n s arbitrary: m and m and m
    rule: parse_value_parse_elems_parse_members.induct)
  case (1 s)
  then show ?case by (cases m) (simp_all add: skip_ws_def)
next
  case (2 n s)
  show ?case
  proof (cases "skip_ws s")
    case Nil
    then show ?thesis by (cases m) simp_all
  next
    case (Cons c q)
    then have "length q < length s" using length_skip_ws [of s] by simp
    with "2.prems" obtain m' where m: "m = Suc m'" "2 * length q + 1 \<le> n" "2 * length q + 1 \<le> m'"
      by (cases m) auto
    have "parse_elems n q = parse_elems m' q" if "c = CHR ''[''" "take 1 (skip_ws q) \<noteq> '']''"
      using "2.IH"(1) [OF Cons _ _ that(2) m(2,3)] that by simp
    moreover have "parse_members n q = parse_members m' q" if "c = CHR ''{''" "take 1 (skip_ws q) \<noteq> ''}''"
      using "2.IH"(2) [OF Cons _ _ _ that(2) m(2,3)] that by simp
    ultimately show ?thesis using m(1) Cons by simp
  qed
next
  case (4 n s)
  from "4.prems" obtain m' where m: "m = Suc m'" by (cases m) auto
  with "4.prems" have v: "parse_value n s = parse_value m' s" by (intro "4.IH"(1)) simp_all
  show ?case
  proof (cases "parse_value n s")
    case None
    with v m show ?thesis by simp
  next
    case (Some p)
    obtain w q where q: "p = (w, q)" by (cases p) auto
    with Some have len: "length q < length s" using parse_ok(1) by blast
    have "parse_elems n (drop 1 (skip_ws q)) = parse_elems m' (drop 1 (skip_ws q))"
      if t: "take 1 (skip_ws q) = '',''"
    proof -
      have "length (drop 1 (skip_ws q)) < length s" using length_drop_skip_ws [OF t] len by simp
      with "4.prems" m show ?thesis by (intro "4.IH"(2) [OF Some q [symmetric] t]) simp_all
    qed
    with Some q v m show ?thesis by simp
  qed
next
  case (6 n s)
  from "6.prems" obtain m' where m: "m = Suc m'" by (cases m) auto
  show ?case
  proof (cases "take 1 (skip_ws s) = [CHR 0x22] \<and> unquote (drop 1 (skip_ws s)) \<noteq> None")
    case True
    then obtain k q where k: "take 1 (skip_ws s) = [CHR 0x22]" "unquote (drop 1 (skip_ws s)) = Some (k, q)"
      by auto
    have qs: "length q < length s"
      using unquote_valid [OF k(2)] length_drop_skip_ws [OF k(1)] by simp
    have v: "parse_value n (drop 1 (skip_ws q)) = parse_value m' (drop 1 (skip_ws q))"
      if t: "take 1 (skip_ws q) = '':''"
      using "6.IH"(1) [OF k refl t] length_drop_skip_ws [OF t] "6.prems" m qs by simp
    have "parse_members n (drop 1 (skip_ws p)) = parse_members m' (drop 1 (skip_ws p))"
      if t: "take 1 (skip_ws q) = '':''" "parse_value n (drop 1 (skip_ws q)) = Some (w, p)"
        "take 1 (skip_ws p) = '',''" for w p
    proof -
      have "length p < length s" using parse_ok(1) [OF t(2)] length_drop_skip_ws [OF t(1)] qs by simp
      with length_drop_skip_ws [OF t(3)] "6.prems" m show ?thesis
        by (intro "6.IH"(2) [OF k refl t(1,2) refl t(3)]) simp_all
    qed
    with k v m show ?thesis by (auto split: option.splits)
  qed (use m in \<open>auto split: option.splits\<close>)
qed simp_all

theorem decode_first_total: "2 * length s \<le> n \<Longrightarrow> map_option fst (parse_value n s) = decode_first s"
  using parse_fuel(1) [of s n "2 * length s"] by (simp add: decode_first_def)


section \<open>Objects and structs\<close>

text \<open>
  Decoding into a struct walks over the members in their order. A member assigns the field
  whose name it matches up to case; an unknown member is ignored; \<open>null\<close> leaves the field as
  it is; a value of the wrong type is an error (the decoder goes on, but its caller sees the
  error and drops the struct). A field is its name and its assignment.
\<close>

type_synonym 'a field = "string \<times> (json \<Rightarrow> 'a \<Rightarrow> 'a option)"

definition set_string :: "(string \<Rightarrow> 'a \<Rightarrow> 'a) \<Rightarrow> json \<Rightarrow> 'a \<Rightarrow> 'a option" where
  "set_string upd j r = (case j of JStr s \<Rightarrow> Some (upd s r) | JNull \<Rightarrow> Some r | _ \<Rightarrow> None)"

definition set_int64 :: "(int \<Rightarrow> 'a \<Rightarrow> 'a) \<Rightarrow> json \<Rightarrow> 'a \<Rightarrow> 'a option" where
  "set_int64 upd j r =
     (case j of JNum t \<Rightarrow> map_option (\<lambda>i. upd i r) (parse_int64 t) | JNull \<Rightarrow> Some r | _ \<Rightarrow> None)"

definition set_bool :: "(bool \<Rightarrow> 'a \<Rightarrow> 'a) \<Rightarrow> json \<Rightarrow> 'a \<Rightarrow> 'a option" where
  "set_bool upd j r = (case j of JBool b \<Rightarrow> Some (upd b r) | JNull \<Rightarrow> Some r | _ \<Rightarrow> None)"

fun string_items :: "json list \<Rightarrow> string list option" where
  "string_items [] = Some []"
| "string_items (JStr s # xs) = map_option ((#) s) (string_items xs)"
| "string_items (JNull # xs) = map_option ((#) []) (string_items xs)"
| "string_items (_ # xs) = None"

definition set_strings :: "(string list \<Rightarrow> 'a \<Rightarrow> 'a) \<Rightarrow> json \<Rightarrow> 'a \<Rightarrow> 'a option" where
  "set_strings upd j r =
     (case j of JArr xs \<Rightarrow> map_option (\<lambda>ss. upd ss r) (string_items xs)
      | JNull \<Rightarrow> Some (upd [] r) | _ \<Rightarrow> None)"

fun find_field :: "'a field list \<Rightarrow> string \<Rightarrow> (json \<Rightarrow> 'a \<Rightarrow> 'a option) option" where
  "find_field [] k = None"
| "find_field ((n, f) # fs) k = (if equal_fold n k then Some f else find_field fs k)"

fun assign :: "'a field list \<Rightarrow> (string \<times> json) list \<Rightarrow> 'a \<Rightarrow> 'a option" where
  "assign fs [] r = Some r"
| "assign fs ((k, v) # kvs) r =
     (case find_field fs k of
        None \<Rightarrow> assign fs kvs r
      | Some f \<Rightarrow> (case f v r of None \<Rightarrow> None | Some r' \<Rightarrow> assign fs kvs r'))"

definition decode_struct :: "'a field list \<Rightarrow> 'a \<Rightarrow> json \<Rightarrow> 'a option" where
  "decode_struct fs z j =
     (case j of JObj kvs \<Rightarrow> assign fs kvs z | JNull \<Rightarrow> Some z | _ \<Rightarrow> None)"

text \<open>Members of an encoded struct: plain ones, and those with \<open>omitempty\<close>.\<close>

definition str_member :: "string \<Rightarrow> string \<Rightarrow> (string \<times> json) list" where
  "str_member k s = [(k, JStr s)]"

definition str_omitempty :: "string \<Rightarrow> string \<Rightarrow> (string \<times> json) list" where
  "str_omitempty k s = (if s = [] then [] else [(k, JStr s)])"

definition int_member :: "string \<Rightarrow> int \<Rightarrow> (string \<times> json) list" where
  "int_member k i = [(k, JNum (int_dec i))]"

lemma assign_append:
  "assign fs (xs @ ys) r = (case assign fs xs r of None \<Rightarrow> None | Some r' \<Rightarrow> assign fs ys r')"
  by (induction fs xs r rule: assign.induct) (auto split: option.splits)

lemma assign_str_member [simp]:
  "find_field fs k = Some (set_string u) \<Longrightarrow> assign fs (str_member k s) r = Some (u s r)"
  by (simp add: str_member_def set_string_def)

lemma assign_str_omitempty [simp]:
  "find_field fs k = Some (set_string u) \<Longrightarrow>
   assign fs (str_omitempty k s) r = Some (if s = [] then r else u s r)"
  by (simp add: str_omitempty_def set_string_def)

lemma assign_int_member [simp]:
  "find_field fs k = Some (set_int64 u) \<Longrightarrow> in_int64 i \<Longrightarrow> assign fs (int_member k i) r = Some (u i r)"
  by (simp add: int_member_def set_int64_def parse_int64_int_dec)

lemma string_items_JStr [simp]: "string_items (map JStr ss) = Some ss"
  by (induction ss) simp_all

text \<open>Every literal that is written is a number of the grammar.\<close>

lemma take_1_nat_dec: "take 1 (nat_dec n) = ''0'' \<longleftrightarrow> n = 0"
proof (induction n rule: nat_dec.induct)
  case (1 n)
  show ?case
  proof (cases "n < 10")
    case True
    then have "nat_dec n = [digit_char n]" by (subst nat_dec.simps) simp
    moreover have "byte_val (CHR ''0'') = 48" by code_simp
    ultimately show ?thesis using True byte_val_eq_iff [of "digit_char n" "CHR ''0''"] by auto
  next
    case False
    then show ?thesis
      using 1 by (subst nat_dec.simps) (cases "nat_dec (n div 10)", auto)
  qed
qed

lemma valid_number_nat_dec:
  "valid_number (nat_dec n)" "valid_number (CHR ''-'' # nat_dec n)"
proof -
  have d: "takeWhile is_digit (nat_dec n) = nat_dec n" "dropWhile is_digit (nat_dec n) = []"
    using nat_dec_digits [of n] by (simp_all add: list_all_iff takeWhile_eq_all_conv dropWhile_eq_Nil_conv)
  have c: "list_all num_char (nat_dec n)" "num_char (CHR ''-'')"
    using nat_dec_digits [of n] by (auto simp: list_all_iff num_char_def)
  have z: "take 1 (nat_dec n) = ''0'' \<longrightarrow> length (nat_dec n) = 1"
    using take_1_nat_dec [of n] by (subst (2) nat_dec.simps) auto
  have "valid_fraction []" by (simp add: valid_fraction_def valid_exponent_def)
  with c z show "valid_number (nat_dec n)" "valid_number (CHR ''-'' # nat_dec n)"
    by (simp_all add: valid_number_def Let_def d)
qed

lemma valid_number_int_dec [simp]: "valid_number (int_dec i)"
  by (simp add: int_dec_def valid_number_nat_dec)

section \<open>Invariants of decoded structs\<close>

definition keeps :: "('a \<Rightarrow> bool) \<Rightarrow> (json \<Rightarrow> 'a \<Rightarrow> 'a option) \<Rightarrow> bool" where
  "keeps P f \<longleftrightarrow> (\<forall>v r r'. json_ok v \<longrightarrow> P r \<longrightarrow> f v r = Some r' \<longrightarrow> P r')"

lemma keeps_set_string: "(\<And>s r. utf8_valid s \<Longrightarrow> P r \<Longrightarrow> P (u s r)) \<Longrightarrow> keeps P (set_string u)"
  by (auto simp: keeps_def set_string_def split: json.splits)

lemma keeps_set_int64: "(\<And>i r. in_int64 i \<Longrightarrow> P r \<Longrightarrow> P (u i r)) \<Longrightarrow> keeps P (set_int64 u)"
  by (auto simp: keeps_def set_int64_def parse_int64_range split: json.splits)

lemma keeps_set_bool: "(\<And>b r. P r \<Longrightarrow> P (u b r)) \<Longrightarrow> keeps P (set_bool u)"
  by (auto simp: keeps_def set_bool_def split: json.splits)

lemma string_items_ok:
  "list_all json_ok xs \<Longrightarrow> string_items xs = Some ss \<Longrightarrow> list_all utf8_valid ss"
  by (induction xs arbitrary: ss rule: string_items.induct) auto

lemma keeps_set_strings: "(\<And>ss r. list_all utf8_valid ss \<Longrightarrow> P r \<Longrightarrow> P (u ss r)) \<Longrightarrow> keeps P (set_strings u)"
  by (auto simp: keeps_def set_strings_def string_items_ok split: json.splits)

lemma find_field_keeps: "list_all (\<lambda>(n, f). keeps P f) fs \<Longrightarrow> find_field fs k = Some f \<Longrightarrow> keeps P f"
  by (induction fs k rule: find_field.induct) (auto split: if_splits)

lemma assign_keeps:
  "list_all (\<lambda>(n, f). keeps P f) fs \<Longrightarrow> list_all (\<lambda>(k, v). utf8_valid k \<and> json_ok v) kvs \<Longrightarrow> P r \<Longrightarrow>
   assign fs kvs r = Some r' \<Longrightarrow> P r'"
proof (induction fs kvs r rule: assign.induct)
  case (2 fs k v kvs r)
  show ?case
  proof (cases "find_field fs k")
    case None
    with 2 show ?thesis by simp
  next
    case (Some f)
    with 2 obtain r1 where r1: "f v r = Some r1" "assign fs kvs r1 = Some r'" by (auto split: option.splits)
    have "P r1" using find_field_keeps [OF 2(3) Some] r1(1) 2(4,5) by (auto simp: keeps_def)
    with 2 Some r1 show ?thesis by simp
  qed
qed simp

lemma decode_struct_keeps:
  "list_all (\<lambda>(n, f). keeps P f) fs \<Longrightarrow> json_ok j \<Longrightarrow> P z \<Longrightarrow> decode_struct fs z j = Some r \<Longrightarrow> P r"
  by (cases j) (auto simp: decode_struct_def intro: assign_keeps)

end
