(* ===== verification/Http.thy ===== *)
theory Http
  imports Json
begin

text \<open>
  The HTTP vocabulary of the services: headers, requests, responses, the helpers of
  \<open>internal/payments/http.go\<close>, the trace headers of \<open>telemetry.go\<close>, and the text of
  timestamps. Bodies are bytes.
\<close>

section \<open>Headers\<close>

text \<open>\<open>http.Header\<close>: values under canonical keys, each word capitalised.\<close>

type_synonym header = "string \<Rightarrow> string list option"

fun canonical_from :: "bool \<Rightarrow> string \<Rightarrow> string" where
  "canonical_from up [] = []"
| "canonical_from up (c # s) =
     (if up then upper_byte c else lower_byte c) # canonical_from (c = CHR ''-'') s"

definition canonical_key :: "string \<Rightarrow> string" where
  "canonical_key k = canonical_from True k"

definition header_get :: "header \<Rightarrow> string \<Rightarrow> string" where
  "header_get h k = (case h (canonical_key k) of Some (v # _) \<Rightarrow> v | _ \<Rightarrow> [])"

definition header_set :: "header \<Rightarrow> string \<Rightarrow> string \<Rightarrow> header" where
  "header_set h k v = h(canonical_key k \<mapsto> [v])"

definition header_add :: "header \<Rightarrow> string \<Rightarrow> string \<Rightarrow> header" where
  "header_add h k v =
     h(canonical_key k \<mapsto> (case h (canonical_key k) of None \<Rightarrow> [] | Some vs \<Rightarrow> vs) @ [v])"

lemma canonical_from_idem: "canonical_from up (canonical_from up s) = canonical_from up s"
proof -
  have dash: "upper_byte c = CHR ''-'' \<longleftrightarrow> c = CHR ''-''" "lower_byte c = CHR ''-'' \<longleftrightarrow> c = CHR ''-''" for c
    using byte_val_less [of c]
    by (auto simp: upper_byte_def lower_byte_def is_lower_def is_upper_def simp flip: byte_val_eq_iff)
      (auto simp: byte_val_def)
  have "upper_byte (upper_byte c) = upper_byte c" "lower_byte (lower_byte c) = lower_byte c" for c
    by simp_all
  then show ?thesis by (induction up s rule: canonical_from.induct) (simp_all add: dash)
qed

lemma canonical_key_idem [simp]: "canonical_key (canonical_key k) = canonical_key k"
  by (simp add: canonical_key_def canonical_from_idem)

lemma header_get_set: "header_get (header_set h k v) j = (if canonical_key j = canonical_key k then v else header_get h j)"
  by (simp add: header_get_def header_set_def)

lemma header_get_set_same [simp]: "header_get (header_set h k v) k = v"
  by (simp add: header_get_set)

lemma header_get_empty [simp]: "header_get Map.empty k = []"
  by (simp add: header_get_def)

text \<open>\<open>for k, v := range from \{ to[k] = v \}\<close>: the keys of \<open>from\<close> are canonical already.\<close>

definition header_assign_all :: "header \<Rightarrow> header \<Rightarrow> header" where
  "header_assign_all to_h from_h = to_h ++ from_h"

lemma header_get_assign_all:
  "header_get (header_assign_all h g) k =
   (if canonical_key k \<in> dom g then header_get g k else header_get h k)"
  by (auto simp: header_assign_all_def header_get_def map_add_def dom_def split: option.splits)

section \<open>Requests and responses\<close>

record http_request =
  req_method :: string
  req_path :: string
  req_header :: header
  req_body :: string

record http_response =
  http_status :: nat
  http_body :: string

text \<open>\<open>payments.JSON\<close> and the \<open>write\<close> of the gateway: a status and one encoded value.\<close>

definition JSON :: "nat \<Rightarrow> json \<Rightarrow> http_response" where
  "JSON status v = \<lparr>http_status = status, http_body = json_text v @ [CHR 0x0A]\<rparr>"

text \<open>\<open>payments.Decode\<close>, up to the assignment of the members to the fields of the struct.\<close>

definition Decode :: "(json \<Rightarrow> 'a option) \<Rightarrow> http_request \<Rightarrow> 'a option" where
  "Decode dec r = Option.bind (decode_first (req_body r)) dec"

text \<open>\<open>map[string]string\{"error": m\}\<close> and its kin.\<close>

definition error_body :: "string \<Rightarrow> json" where
  "error_body m = JObj [(''error'', JStr m)]"

lemma http_status_JSON [simp]: "http_status (JSON st v) = st"
  by (simp add: JSON_def)

lemma decode_first_ok: "decode_first s = Some j \<Longrightarrow> json_ok j"
  using parse_ok(1) by (auto simp: decode_first_def)

lemma Decode_ok: "Decode dec r = Some x \<Longrightarrow> \<exists>j. json_ok j \<and> dec j = Some x"
  by (auto simp: Decode_def bind_eq_Some_conv dest: decode_first_ok)

lemma stops_number_newline [simp]: "stops_number [CHR 0x0A]"
  by (simp add: stops_number_def num_char_def is_digit_def byte_val_def)

lemma decode_JSON [simp]: "json_ok v \<Longrightarrow> decode_first (http_body (JSON st v)) = Some v"
  by (simp add: JSON_def decode_first_text)

lemma unmarshal_JSON [simp]: "json_ok v \<Longrightarrow> unmarshal (http_body (JSON st v)) = Some v"
  using parse_value_text [of v "2 * length (json_text v @ [CHR 0x0A])" "[CHR 0x0A]"]
  by (simp add: unmarshal_def JSON_def skip_ws_def is_ws_def)

section \<open>Trace headers\<close>

definition TraceHeaders :: "http_request \<Rightarrow> header" where
  "TraceHeaders req =
     (let h0 = Map.empty;
          tp = header_get (req_header req) ''traceparent'';
          h1 = (if tp \<noteq> [] then header_set h0 ''traceparent'' tp else h0);
          ts = header_get (req_header req) ''tracestate'';
          h2 = (if ts \<noteq> [] then header_set h1 ''tracestate'' ts else h1);
          ri = header_get (req_header req) ''x-request-id'';
          h3 = (if ri \<noteq> [] then header_set h2 ''x-request-id'' ri else h2)
      in h3)"

text \<open>The headers that travel with a context: what it has under \<open>traceHeadersContextKey\<close>.\<close>

type_synonym trace_context = "header option"

definition ContextWithTraceHeaders :: "trace_context \<Rightarrow> header \<Rightarrow> trace_context" where
  "ContextWithTraceHeaders ctx headers = Some headers"

definition TraceHeadersFromContext :: "trace_context \<Rightarrow> header" where
  "TraceHeadersFromContext ctx = (case ctx of Some headers \<Rightarrow> headers | None \<Rightarrow> Map.empty)"

lemma TraceHeadersFromContext_With [simp]: "TraceHeadersFromContext (ContextWithTraceHeaders ctx h) = h"
  by (simp add: TraceHeadersFromContext_def ContextWithTraceHeaders_def)

lemma canonical_trace_keys:
  "canonical_key ''traceparent'' = ''Traceparent''" "canonical_key ''tracestate'' = ''Tracestate''"
  "canonical_key ''x-request-id'' = ''X-Request-Id''"
  "canonical_key ''Idempotency-Key'' = ''Idempotency-Key''"
  "canonical_key ''Content-Type'' = ''Content-Type''"
  "canonical_key ''X-Gateway-Auth'' = ''X-Gateway-Auth''"
  "canonical_key ''X-Gateway-Admin'' = ''X-Gateway-Admin''"
  "canonical_key ''Authorization'' = ''Authorization''"
  by code_simp+

lemma header_get_TraceHeaders:
  "header_get (TraceHeaders r) k =
   (if canonical_key k \<in> {''Traceparent'', ''Tracestate'', ''X-Request-Id''}
    then header_get (req_header r) k else [])"
  unfolding TraceHeaders_def Let_def
  by (auto simp: header_get_set canonical_trace_keys) (simp_all add: header_get_def canonical_trace_keys)

lemma dom_TraceHeaders: "dom (TraceHeaders r) \<subseteq> {''Traceparent'', ''Tracestate'', ''X-Request-Id''}"
  by (auto simp: TraceHeaders_def Let_def header_set_def canonical_trace_keys split: if_splits)

section \<open>Calls to other services\<close>

text \<open>
  An outgoing request is an \<open>http_request\<close> whose \<open>req_path\<close> holds the whole URL. What lies
  between two services (the transport, the proxies of the mesh, the peer) is a parameter:
  \<open>net_url_error\<close> is the error of \<open>http.NewRequestWithContext\<close> for a URL it cannot parse, and
  \<open>net_send\<close> is \<open>Client.Do\<close> with the reading of the body: it acts on the world and gives an
  error message (\<open>Inl\<close>) or the status and the bytes received.
\<close>

record 'w network =
  net_url_error :: "string \<Rightarrow> string option"
  net_send :: "http_request \<Rightarrow> 'w \<Rightarrow> 'w \<times> (string + http_response)"

text \<open>\<open>io.LimitReader\<close>: at most the first \<open>n\<close> bytes.\<close>

definition limit_read :: "nat \<Rightarrow> string \<Rightarrow> string" where
  "limit_read n s = (if length s \<le> n then s else take n s)"

lemma limit_read_short [simp]: "length s \<le> n \<Longrightarrow> limit_read n s = s"
  by (simp add: limit_read_def)

text \<open>\<open>for name, values := range trace \{ for _, v := range values \{ h.Add(name, v) \} \}\<close>.\<close>

definition header_add_all :: "header \<Rightarrow> header \<Rightarrow> header" where
  "header_add_all h trace =
     (\<lambda>k. case trace k of None \<Rightarrow> h k
          | Some vs \<Rightarrow> if vs = [] then h k else Some ((case h k of None \<Rightarrow> [] | Some us \<Rightarrow> us) @ vs))"

section \<open>Timestamps\<close>

text \<open>
  PostgreSQL keeps microseconds since the epoch; \<open>time.RFC3339Nano\<close> in UTC writes the civil
  date (years 0 to 9999), the time of day, and the fraction without its trailing zeros.
\<close>

definition civil_of_days :: "int \<Rightarrow> int \<times> int \<times> int" where
  "civil_of_days days =
     (let z = days + 719468; era = z div 146097; doe = z mod 146097;
          yoe = (doe - doe div 1460 + doe div 36524 - doe div 146096) div 365;
          doy = doe - (365 * yoe + yoe div 4 - yoe div 100);
          mp = (5 * doy + 2) div 153;
          d = doy - (153 * mp + 2) div 5 + 1;
          m = (if mp < 10 then mp + 3 else mp - 9)
      in (yoe + era * 400 + (if m \<le> 2 then 1 else 0), m, d))"

definition pad_dec :: "nat \<Rightarrow> nat \<Rightarrow> string" where
  "pad_dec w n = (let t = nat_dec n in replicate (w - length t) (CHR ''0'') @ t)"

definition fraction_text :: "nat \<Rightarrow> string" where
  "fraction_text micros =
     (if micros = 0 then [] else CHR ''.'' # trim_right_chars ''0'' (pad_dec 6 micros))"

definition rfc3339nano :: "int \<Rightarrow> string" where
  "rfc3339nano t =
     (let secs = t div 1000000; days = secs div 86400; sod = nat (secs mod 86400);
          (y, m, d) = civil_of_days days
      in pad_dec 4 (nat y) @ ''-'' @ pad_dec 2 (nat m) @ ''-'' @ pad_dec 2 (nat d) @ ''T''
         @ pad_dec 2 (sod div 3600) @ '':'' @ pad_dec 2 (sod div 60 mod 60) @ '':''
         @ pad_dec 2 (sod mod 60) @ fraction_text (nat (t mod 1000000)) @ ''Z'')"

lemma rfc3339nano_not_Nil [simp]: "rfc3339nano t \<noteq> []"
  by (simp add: rfc3339nano_def Let_def split: prod.splits)

lemma ascii_pad_dec [simp]: "ascii (pad_dec w n)"
proof -
  have "byte_val (CHR ''0'') < 128" by code_simp
  then have "ascii (replicate k (CHR ''0''))" for k by (simp add: ascii_def list_all_iff)
  then show ?thesis by (simp add: pad_dec_def Let_def)
qed

lemma ascii_trim_right_chars: "ascii s \<Longrightarrow> ascii (trim_right_chars cs s)"
  unfolding ascii_def trim_right_chars_def list_all_iff
  using set_dropWhileD by fastforce

lemma ascii_rfc3339nano [simp]: "ascii (rfc3339nano t)"
  by (auto simp: rfc3339nano_def fraction_text_def Let_def ascii_trim_right_chars byte_val_def
      split: prod.splits)

end
