(* ===== verification/Payment_Types.thy ===== *)
theory Payment_Types
  imports Http
begin

text \<open>
  \<open>internal/payments/types.go\<close> and \<open>StatusCode\<close> of \<open>telemetry.go\<close>: the public and the
  internal payment request, the payment response, the participant, their JSON contracts,
  their validation, and the hash that identifies a request. Field names carry the struct
  as a prefix. SHA-256 is the parameter \<open>sha\<close> of \<open>RequestHash\<close>.
\<close>

section \<open>Structs and their JSON contracts\<close>

record PublicPaymentRequest =
  pub_DebtorParticipantID :: string
  pub_CreditorParticipantID :: string
  pub_AmountMinor :: int
  pub_Currency :: string
  pub_Reference :: string

record RouterPaymentRequest =
  rtr_DebtorParticipantID :: string
  rtr_CreditorParticipantID :: string
  rtr_AmountMinor :: int
  rtr_Currency :: string
  rtr_Reference :: string
  rtr_Instrument :: string

record PaymentResponse =
  pay_ID :: string
  pay_IdempotencyKey :: string
  pay_Status :: string
  pay_Gateway :: string
  pay_ProviderRef :: string
  pay_Error :: string
  pay_CreatedAt :: string

record Participant =
  part_ID :: string
  part_Instrument :: string
  part_Gateway :: string
  part_Roles :: "string list"
  part_Active :: bool

definition zero_public :: PublicPaymentRequest where
  "zero_public = \<lparr>pub_DebtorParticipantID = [], pub_CreditorParticipantID = [],
     pub_AmountMinor = 0, pub_Currency = [], pub_Reference = []\<rparr>"

definition zero_router :: RouterPaymentRequest where
  "zero_router = \<lparr>rtr_DebtorParticipantID = [], rtr_CreditorParticipantID = [],
     rtr_AmountMinor = 0, rtr_Currency = [], rtr_Reference = [], rtr_Instrument = []\<rparr>"

definition zero_payment :: PaymentResponse where
  "zero_payment = \<lparr>pay_ID = [], pay_IdempotencyKey = [], pay_Status = [], pay_Gateway = [],
     pay_ProviderRef = [], pay_Error = [], pay_CreatedAt = []\<rparr>"

definition zero_participant :: Participant where
  "zero_participant = \<lparr>part_ID = [], part_Instrument = [], part_Gateway = [], part_Roles = [],
     part_Active = False\<rparr>"

definition encode_public :: "PublicPaymentRequest \<Rightarrow> json" where
  "encode_public r = JObj
     (str_member ''debtor_participant_id'' (pub_DebtorParticipantID r)
      @ str_member ''creditor_participant_id'' (pub_CreditorParticipantID r)
      @ int_member ''amount_minor'' (pub_AmountMinor r)
      @ str_member ''currency'' (pub_Currency r)
      @ str_member ''reference'' (pub_Reference r))"

definition router_members :: "RouterPaymentRequest \<Rightarrow> (string \<times> json) list" where
  "router_members r =
     str_member ''debtor_participant_id'' (rtr_DebtorParticipantID r)
     @ str_member ''creditor_participant_id'' (rtr_CreditorParticipantID r)
     @ int_member ''amount_minor'' (rtr_AmountMinor r)
     @ str_member ''currency'' (rtr_Currency r)
     @ str_member ''reference'' (rtr_Reference r)
     @ str_member ''instrument'' (rtr_Instrument r)"

definition encode_router :: "RouterPaymentRequest \<Rightarrow> json" where
  "encode_router r = JObj (router_members r)"

definition payment_members :: "PaymentResponse \<Rightarrow> (string \<times> json) list" where
  "payment_members p =
     str_member ''id'' (pay_ID p)
     @ str_member ''idempotency_key'' (pay_IdempotencyKey p)
     @ str_member ''status'' (pay_Status p)
     @ str_omitempty ''gateway'' (pay_Gateway p)
     @ str_omitempty ''provider_ref'' (pay_ProviderRef p)
     @ str_omitempty ''error'' (pay_Error p)
     @ str_member ''created_at'' (pay_CreatedAt p)"

definition encode_payment :: "PaymentResponse \<Rightarrow> json" where
  "encode_payment p = JObj (payment_members p)"

definition encode_participant :: "Participant \<Rightarrow> json" where
  "encode_participant p = JObj
     (str_member ''id'' (part_ID p)
      @ str_member ''instrument'' (part_Instrument p)
      @ str_member ''gateway'' (part_Gateway p)
      @ [(''roles'', JArr (map JStr (part_Roles p))), (''active'', JBool (part_Active p))])"

definition public_fields :: "PublicPaymentRequest field list" where
  "public_fields =
    [(''debtor_participant_id'', set_string (\<lambda>s r. r\<lparr>pub_DebtorParticipantID := s\<rparr>)),
     (''creditor_participant_id'', set_string (\<lambda>s r. r\<lparr>pub_CreditorParticipantID := s\<rparr>)),
     (''amount_minor'', set_int64 (\<lambda>i r. r\<lparr>pub_AmountMinor := i\<rparr>)),
     (''currency'', set_string (\<lambda>s r. r\<lparr>pub_Currency := s\<rparr>)),
     (''reference'', set_string (\<lambda>s r. r\<lparr>pub_Reference := s\<rparr>))]"

definition router_fields :: "RouterPaymentRequest field list" where
  "router_fields =
    [(''debtor_participant_id'', set_string (\<lambda>s r. r\<lparr>rtr_DebtorParticipantID := s\<rparr>)),
     (''creditor_participant_id'', set_string (\<lambda>s r. r\<lparr>rtr_CreditorParticipantID := s\<rparr>)),
     (''amount_minor'', set_int64 (\<lambda>i r. r\<lparr>rtr_AmountMinor := i\<rparr>)),
     (''currency'', set_string (\<lambda>s r. r\<lparr>rtr_Currency := s\<rparr>)),
     (''reference'', set_string (\<lambda>s r. r\<lparr>rtr_Reference := s\<rparr>)),
     (''instrument'', set_string (\<lambda>s r. r\<lparr>rtr_Instrument := s\<rparr>))]"

definition payment_fields :: "PaymentResponse field list" where
  "payment_fields =
    [(''id'', set_string (\<lambda>s r. r\<lparr>pay_ID := s\<rparr>)),
     (''idempotency_key'', set_string (\<lambda>s r. r\<lparr>pay_IdempotencyKey := s\<rparr>)),
     (''status'', set_string (\<lambda>s r. r\<lparr>pay_Status := s\<rparr>)),
     (''gateway'', set_string (\<lambda>s r. r\<lparr>pay_Gateway := s\<rparr>)),
     (''provider_ref'', set_string (\<lambda>s r. r\<lparr>pay_ProviderRef := s\<rparr>)),
     (''error'', set_string (\<lambda>s r. r\<lparr>pay_Error := s\<rparr>)),
     (''created_at'', set_string (\<lambda>s r. r\<lparr>pay_CreatedAt := s\<rparr>))]"

definition participant_fields :: "Participant field list" where
  "participant_fields =
    [(''id'', set_string (\<lambda>s r. r\<lparr>part_ID := s\<rparr>)),
     (''instrument'', set_string (\<lambda>s r. r\<lparr>part_Instrument := s\<rparr>)),
     (''gateway'', set_string (\<lambda>s r. r\<lparr>part_Gateway := s\<rparr>)),
     (''roles'', set_strings (\<lambda>ss r. r\<lparr>part_Roles := ss\<rparr>)),
     (''active'', set_bool (\<lambda>b r. r\<lparr>part_Active := b\<rparr>))]"

definition decode_public :: "json \<Rightarrow> PublicPaymentRequest option" where
  "decode_public = decode_struct public_fields zero_public"

definition decode_router :: "json \<Rightarrow> RouterPaymentRequest option" where
  "decode_router = decode_struct router_fields zero_router"

definition decode_payment :: "json \<Rightarrow> PaymentResponse option" where
  "decode_payment = decode_struct payment_fields zero_payment"

definition decode_participant :: "json \<Rightarrow> Participant option" where
  "decode_participant = decode_struct participant_fields zero_participant"

section \<open>Statuses\<close>

definition NormalizeStatus :: "string \<Rightarrow> string" where
  "NormalizeStatus status =
     (if status = ''SUCCEEDED'' \<or> status = ''FAILED'' \<or> status = ''PENDING'' then status
      else ''PENDING'')"

definition StatusCode :: "string \<Rightarrow> nat" where
  "StatusCode status =
     (if status = ''SUCCEEDED'' then 200 else if status = ''FAILED'' then 422 else 202)"

text \<open>A terminal status: the payment is decided.\<close>

definition terminal :: "string \<Rightarrow> bool" where
  "terminal status \<longleftrightarrow> status = ''SUCCEEDED'' \<or> status = ''FAILED''"

section \<open>Validation\<close>

text \<open>\<open>fmt.Errorf\<close> gives an error message; no message is \<open>nil\<close>.\<close>

type_synonym go_error = "string option"

definition is_letter :: "char \<Rightarrow> bool" where
  "is_letter c \<longleftrightarrow>
     \<not> ((byte_val c < byte_val (CHR ''A'') \<or> byte_val c > byte_val (CHR ''Z'')) \<and>
        (byte_val c < byte_val (CHR ''a'') \<or> byte_val c > byte_val (CHR ''z'')))"

definition validCurrency :: "string \<Rightarrow> bool" where
  "validCurrency currency =
     (let c = trim_space currency in length c = 3 \<and> list_all is_letter c)"

definition ValidInstrument :: "string \<Rightarrow> bool" where
  "ValidInstrument instrument =
     (if instrument \<noteq> trim_space instrument \<or> instrument \<noteq> to_lower instrument then False
      else instrument = ''card'' \<or> instrument = ''bank_transfer'' \<or> instrument = ''wallet'')"

definition ValidateRequest :: "PublicPaymentRequest \<Rightarrow> go_error" where
  "ValidateRequest req =
     (if pub_AmountMinor req \<le> 0 then Some ''amount_minor must be positive''
      else if \<not> validCurrency (pub_Currency req) then Some ''currency must be 3 letters''
      else if trim_space (pub_DebtorParticipantID req) = [] then Some ''debtor_participant_id is required''
      else if trim_space (pub_CreditorParticipantID req) = [] then Some ''creditor_participant_id is required''
      else if trim_space (pub_Reference req) = [] then Some ''reference is required''
      else None)"

definition ValidateRouterRequest :: "RouterPaymentRequest \<Rightarrow> go_error" where
  "ValidateRouterRequest req =
     (if rtr_AmountMinor req \<le> 0 then Some ''amount_minor must be positive''
      else if \<not> validCurrency (rtr_Currency req) then Some ''currency must be 3 letters''
      else if \<not> ValidInstrument (rtr_Instrument req) then Some ''instrument is unsupported''
      else if trim_space (rtr_DebtorParticipantID req) = [] \<or> trim_space (rtr_CreditorParticipantID req) = []
      then Some ''both participant IDs are required''
      else if trim_space (rtr_Reference req) = [] then Some ''reference is required''
      else None)"

definition RoleDebtor :: string where "RoleDebtor = ''debtor''"
definition RoleCreditor :: string where "RoleCreditor = ''creditor''"

definition validRoles :: "string set" where
  "validRoles = {RoleDebtor, RoleCreditor}"

text \<open>The loop of \<open>NormalizeRoles\<close>, with its set of seen roles and its output.\<close>

fun normalize_roles_loop :: "string list \<Rightarrow> string set \<Rightarrow> string list \<Rightarrow> string list" where
  "normalize_roles_loop [] seen out = out"
| "normalize_roles_loop (role # roles) seen out =
     (let role = to_lower (trim_space role)
      in if role = [] then normalize_roles_loop roles seen out
         else if role \<in> seen then normalize_roles_loop roles seen out
         else normalize_roles_loop roles (insert role seen) (out @ [role]))"

definition NormalizeRoles :: "string list \<Rightarrow> string list" where
  "NormalizeRoles roles = normalize_roles_loop roles {} []"

fun unsupported_role :: "string list \<Rightarrow> go_error" where
  "unsupported_role [] = None"
| "unsupported_role (role # roles) =
     (if role \<notin> validRoles then Some (''unsupported participant role: '' @ role)
      else unsupported_role roles)"

definition ValidateParticipant :: "Participant \<Rightarrow> go_error" where
  "ValidateParticipant p =
     (if trim_space (part_ID p) = [] then Some ''id is required''
      else if \<not> ValidInstrument (part_Instrument p) then Some ''instrument is unsupported''
      else if trim_space (part_Gateway p) = [] then Some ''gateway is required''
      else let roles = NormalizeRoles (part_Roles p)
           in if roles = [] then Some ''at least one role is required''
              else unsupported_role roles)"

section \<open>The request hash\<close>

text \<open>
  \<open>json.Marshal\<close> cannot fail on the two request structs, so neither can the hash. \<open>sha\<close> is
  SHA-256 followed by the hexadecimal text of the sum.
\<close>

definition RequestHash :: "(string \<Rightarrow> string) \<Rightarrow> json \<Rightarrow> string" where
  "RequestHash sha req = sha (json_text req)"

definition Now :: "int \<Rightarrow> string" where
  "Now clock = rfc3339nano clock"


section \<open>Facts on the contracts\<close>

text \<open>The names of all members of the structs are told apart by the field lookup.\<close>

definition member_names :: "string list" where
  "member_names =
    [''debtor_participant_id'', ''creditor_participant_id'', ''amount_minor'', ''currency'',
     ''reference'', ''instrument'', ''id'', ''idempotency_key'', ''status'', ''gateway'',
     ''provider_ref'', ''error'', ''created_at'', ''roles'', ''active'']"

lemma equal_fold_member_names:
  "n \<in> set member_names \<Longrightarrow> m \<in> set member_names \<Longrightarrow> equal_fold n m \<longleftrightarrow> n = m"
proof -
  have "list_all (\<lambda>n. fold_case n = n) member_names" by code_simp
  then show "n \<in> set member_names \<Longrightarrow> m \<in> set member_names \<Longrightarrow> equal_fold n m \<longleftrightarrow> n = m"
    by (simp add: list_all_iff equal_fold_def)
qed

lemma in_member_names [simp]:
  "''debtor_participant_id'' \<in> set member_names"
  "''creditor_participant_id'' \<in> set member_names"
  "''amount_minor'' \<in> set member_names"
  "''currency'' \<in> set member_names"
  "''reference'' \<in> set member_names"
  "''instrument'' \<in> set member_names"
  "''id'' \<in> set member_names"
  "''idempotency_key'' \<in> set member_names"
  "''status'' \<in> set member_names"
  "''gateway'' \<in> set member_names"
  "''provider_ref'' \<in> set member_names"
  "''error'' \<in> set member_names"
  "''created_at'' \<in> set member_names"
  "''roles'' \<in> set member_names"
  "''active'' \<in> set member_names"
  by (simp_all add: member_names_def)

lemma public_lookup [simp]:
  "find_field public_fields ''debtor_participant_id'' = Some (set_string (\<lambda>s r. r\<lparr>pub_DebtorParticipantID := s\<rparr>))"
  "find_field public_fields ''creditor_participant_id'' = Some (set_string (\<lambda>s r. r\<lparr>pub_CreditorParticipantID := s\<rparr>))"
  "find_field public_fields ''amount_minor'' = Some (set_int64 (\<lambda>i r. r\<lparr>pub_AmountMinor := i\<rparr>))"
  "find_field public_fields ''currency'' = Some (set_string (\<lambda>s r. r\<lparr>pub_Currency := s\<rparr>))"
  "find_field public_fields ''reference'' = Some (set_string (\<lambda>s r. r\<lparr>pub_Reference := s\<rparr>))"
  by (simp_all add: public_fields_def equal_fold_member_names)

lemma router_lookup [simp]:
  "find_field router_fields ''debtor_participant_id'' = Some (set_string (\<lambda>s r. r\<lparr>rtr_DebtorParticipantID := s\<rparr>))"
  "find_field router_fields ''creditor_participant_id'' = Some (set_string (\<lambda>s r. r\<lparr>rtr_CreditorParticipantID := s\<rparr>))"
  "find_field router_fields ''amount_minor'' = Some (set_int64 (\<lambda>i r. r\<lparr>rtr_AmountMinor := i\<rparr>))"
  "find_field router_fields ''currency'' = Some (set_string (\<lambda>s r. r\<lparr>rtr_Currency := s\<rparr>))"
  "find_field router_fields ''reference'' = Some (set_string (\<lambda>s r. r\<lparr>rtr_Reference := s\<rparr>))"
  "find_field router_fields ''instrument'' = Some (set_string (\<lambda>s r. r\<lparr>rtr_Instrument := s\<rparr>))"
  by (simp_all add: router_fields_def equal_fold_member_names)

lemma payment_lookup [simp]:
  "find_field payment_fields ''id'' = Some (set_string (\<lambda>s r. r\<lparr>pay_ID := s\<rparr>))"
  "find_field payment_fields ''idempotency_key'' = Some (set_string (\<lambda>s r. r\<lparr>pay_IdempotencyKey := s\<rparr>))"
  "find_field payment_fields ''status'' = Some (set_string (\<lambda>s r. r\<lparr>pay_Status := s\<rparr>))"
  "find_field payment_fields ''gateway'' = Some (set_string (\<lambda>s r. r\<lparr>pay_Gateway := s\<rparr>))"
  "find_field payment_fields ''provider_ref'' = Some (set_string (\<lambda>s r. r\<lparr>pay_ProviderRef := s\<rparr>))"
  "find_field payment_fields ''error'' = Some (set_string (\<lambda>s r. r\<lparr>pay_Error := s\<rparr>))"
  "find_field payment_fields ''created_at'' = Some (set_string (\<lambda>s r. r\<lparr>pay_CreatedAt := s\<rparr>))"
  by (simp_all add: payment_fields_def equal_fold_member_names)

lemma participant_lookup [simp]:
  "find_field participant_fields ''id'' = Some (set_string (\<lambda>s r. r\<lparr>part_ID := s\<rparr>))"
  "find_field participant_fields ''instrument'' = Some (set_string (\<lambda>s r. r\<lparr>part_Instrument := s\<rparr>))"
  "find_field participant_fields ''gateway'' = Some (set_string (\<lambda>s r. r\<lparr>part_Gateway := s\<rparr>))"
  "find_field participant_fields ''roles'' = Some (set_strings (\<lambda>ss r. r\<lparr>part_Roles := ss\<rparr>))"
  "find_field participant_fields ''active'' = Some (set_bool (\<lambda>b r. r\<lparr>part_Active := b\<rparr>))"
  by (simp_all add: participant_fields_def equal_fold_member_names)

lemma decode_encode_public:
  "in_int64 (pub_AmountMinor r) \<Longrightarrow> decode_public (encode_public r) = Some r"
  by (simp add: decode_public_def decode_struct_def encode_public_def assign_append
      zero_public_def)

lemma decode_encode_router:
  "in_int64 (rtr_AmountMinor r) \<Longrightarrow> decode_router (encode_router r) = Some r"
  by (simp add: decode_router_def decode_struct_def encode_router_def router_members_def
      assign_append zero_router_def)

lemma decode_encode_payment: "decode_payment (encode_payment p) = Some p"
  by (simp add: decode_payment_def decode_struct_def encode_payment_def payment_members_def
      assign_append zero_payment_def)

lemma decode_encode_participant: "decode_participant (encode_participant p) = Some p"
  by (simp add: decode_participant_def decode_struct_def encode_participant_def assign_append
      zero_participant_def set_strings_def set_bool_def)


text \<open>
  Structs whose strings are well-formed text, as the decoder and the databases guarantee;
  an amount is an \<open>int64\<close>.
\<close>

definition public_text :: "PublicPaymentRequest \<Rightarrow> bool" where
  "public_text r \<longleftrightarrow> utf8_valid (pub_DebtorParticipantID r) \<and> utf8_valid (pub_CreditorParticipantID r)
     \<and> in_int64 (pub_AmountMinor r) \<and> utf8_valid (pub_Currency r) \<and> utf8_valid (pub_Reference r)"

definition router_text :: "RouterPaymentRequest \<Rightarrow> bool" where
  "router_text r \<longleftrightarrow> utf8_valid (rtr_DebtorParticipantID r) \<and> utf8_valid (rtr_CreditorParticipantID r)
     \<and> in_int64 (rtr_AmountMinor r) \<and> utf8_valid (rtr_Currency r) \<and> utf8_valid (rtr_Reference r)
     \<and> utf8_valid (rtr_Instrument r)"

definition payment_text :: "PaymentResponse \<Rightarrow> bool" where
  "payment_text p \<longleftrightarrow> utf8_valid (pay_ID p) \<and> utf8_valid (pay_IdempotencyKey p) \<and> utf8_valid (pay_Status p)
     \<and> utf8_valid (pay_Gateway p) \<and> utf8_valid (pay_ProviderRef p) \<and> utf8_valid (pay_Error p)
     \<and> utf8_valid (pay_CreatedAt p)"

definition participant_text :: "Participant \<Rightarrow> bool" where
  "participant_text p \<longleftrightarrow> utf8_valid (part_ID p) \<and> utf8_valid (part_Instrument p)
     \<and> utf8_valid (part_Gateway p) \<and> list_all utf8_valid (part_Roles p)"

lemma utf8_valid_member_names [simp]: "n \<in> set member_names \<Longrightarrow> utf8_valid n"
proof -
  have "list_all ascii member_names" by code_simp
  then show "n \<in> set member_names \<Longrightarrow> utf8_valid n" by (simp add: list_all_iff utf8_valid_ascii)
qed

lemma json_ok_encode_public: "public_text r \<Longrightarrow> json_ok (encode_public r)"
  by (simp add: public_text_def encode_public_def str_member_def int_member_def)

lemma json_ok_encode_router: "router_text r \<Longrightarrow> json_ok (encode_router r)"
  by (simp add: router_text_def encode_router_def router_members_def str_member_def int_member_def)

lemma json_ok_encode_payment: "payment_text p \<Longrightarrow> json_ok (encode_payment p)"
  by (simp add: payment_text_def encode_payment_def payment_members_def str_member_def str_omitempty_def)

lemma json_ok_encode_participant: "participant_text p \<Longrightarrow> json_ok (encode_participant p)"
  by (auto simp: participant_text_def encode_participant_def str_member_def list_all_iff)

lemma json_ok_error_body [simp]: "utf8_valid m \<Longrightarrow> json_ok (error_body m)"
  by (simp add: error_body_def)

text \<open>A request written by one service is read back by the next.\<close>

lemma Decode_router: "router_text req \<Longrightarrow> req_body r = json_text (encode_router req) \<Longrightarrow> Decode decode_router r = Some req"
  using decode_first_text [OF json_ok_encode_router, of req "[]"] decode_encode_router [of req]
  by (simp add: Decode_def router_text_def)

text \<open>Decoding yields such structs.\<close>

lemma zero_text [simp]:
  "public_text zero_public" "router_text zero_router" "payment_text zero_payment" "participant_text zero_participant"
  by (simp_all add: public_text_def zero_public_def router_text_def zero_router_def payment_text_def
      zero_payment_def participant_text_def zero_participant_def in_int64_def int64_min_def int64_max_def)

lemma decode_public_text: "json_ok j \<Longrightarrow> decode_public j = Some r \<Longrightarrow> public_text r"
  unfolding decode_public_def
  by (rule decode_struct_keeps [of public_text public_fields])
    (auto simp: public_fields_def public_text_def zero_text [unfolded public_text_def]
      intro!: keeps_set_string keeps_set_int64)

lemma decode_router_text: "json_ok j \<Longrightarrow> decode_router j = Some r \<Longrightarrow> router_text r"
  unfolding decode_router_def
  by (rule decode_struct_keeps [of router_text router_fields])
    (auto simp: router_fields_def router_text_def zero_text [unfolded router_text_def]
      intro!: keeps_set_string keeps_set_int64)

lemma decode_payment_text: "json_ok j \<Longrightarrow> decode_payment j = Some r \<Longrightarrow> payment_text r"
  unfolding decode_payment_def
  by (rule decode_struct_keeps [of payment_text payment_fields])
    (auto simp: payment_fields_def payment_text_def zero_text [unfolded payment_text_def]
      intro!: keeps_set_string)

lemma decode_participant_text: "json_ok j \<Longrightarrow> decode_participant j = Some r \<Longrightarrow> participant_text r"
  unfolding decode_participant_def
  by (rule decode_struct_keeps [of participant_text participant_fields])
    (auto simp: participant_fields_def participant_text_def zero_text [unfolded participant_text_def]
      intro!: keeps_set_string keeps_set_strings keeps_set_bool)

text \<open>Different requests have different texts, hence different hashes unless SHA-256 collides.\<close>

lemma public_text_inj:
  "public_text a \<Longrightarrow> public_text b \<Longrightarrow>
   json_text (encode_public a) = json_text (encode_public b) \<longleftrightarrow> a = b"
  by (metis json_text_inj json_ok_encode_public decode_encode_public option.inject public_text_def)

lemma router_text_inj:
  "router_text a \<Longrightarrow> router_text b \<Longrightarrow>
   json_text (encode_router a) = json_text (encode_router b) \<longleftrightarrow> a = b"
  by (metis json_text_inj json_ok_encode_router decode_encode_router option.inject router_text_def)

section \<open>Facts on validation\<close>

lemma ValidInstrument_iff:
  "ValidInstrument s \<longleftrightarrow> s = ''card'' \<or> s = ''bank_transfer'' \<or> s = ''wallet''"
proof -
  have "trim_space ''card'' = ''card''" "to_lower ''card'' = ''card''"
    "trim_space ''bank_transfer'' = ''bank_transfer''" "to_lower ''bank_transfer'' = ''bank_transfer''"
    "trim_space ''wallet'' = ''wallet''" "to_lower ''wallet'' = ''wallet''"
    by code_simp+
  then show ?thesis by (auto simp: ValidInstrument_def)
qed

lemma is_letter_iff: "is_letter c \<longleftrightarrow> is_upper c \<or> is_lower c"
proof -
  have "byte_val (CHR ''A'') = 65" "byte_val (CHR ''Z'') = 90"
    "byte_val (CHR ''a'') = 97" "byte_val (CHR ''z'') = 122" by code_simp+
  then show ?thesis by (auto simp: is_letter_def is_upper_def is_lower_def)
qed

text \<open>What the router stores as currency: exactly three upper-case letters.\<close>

lemma validCurrency_canonical:
  assumes "validCurrency (to_upper (trim_space c))"
  shows "length (to_upper (trim_space c)) = 3" "list_all is_upper (to_upper (trim_space c))"
    "trim_space (to_upper (trim_space c)) = to_upper (trim_space c)"
    "to_upper (to_upper (trim_space c)) = to_upper (trim_space c)"
proof -
  have t: "trim_space (to_upper (trim_space c)) = to_upper (trim_space c)"
    by (simp add: trimmed_to_upper)
  then show "trim_space (to_upper (trim_space c)) = to_upper (trim_space c)" .
  from assms t show "length (to_upper (trim_space c)) = 3"
    by (simp add: validCurrency_def Let_def)
  from assms t show up: "list_all is_upper (to_upper (trim_space c))"
    by (auto simp: validCurrency_def Let_def list_all_iff is_letter_iff dest: to_upper_no_lower)
  then show "to_upper (to_upper (trim_space c)) = to_upper (trim_space c)"
    by (intro to_upper_fixed) (simp add: list_all_iff)
qed

lemma is_upper_ascii: "list_all is_upper s \<Longrightarrow> ascii s"
  by (induction s) (auto simp: is_upper_def)

lemma to_upper_to_lower:
  assumes "list_all is_upper s"
  shows "to_upper (to_lower s) = s"
proof -
  have "ascii s" using assms by (rule is_upper_ascii)
  then have "to_lower s = map lower_byte s" "ascii (map lower_byte s)"
    by (auto simp: to_lower_ascii ascii_def list_all_iff byte_val_lower_byte_less)
  moreover have "map upper_byte (map lower_byte s) = s"
    using assms by (auto simp: list_all_iff intro: map_idI)
  ultimately show ?thesis by (simp only: to_upper_ascii)
qed

section \<open>Facts on roles\<close>

definition normal_role :: "string \<Rightarrow> string" where
  "normal_role r = to_lower (trim_space r)"

lemma normalize_roles_loop_set:
  "set (normalize_roles_loop rs seen out) = set out \<union> (normal_role ` set rs - {[]} - seen)"
  by (induction rs seen out rule: normalize_roles_loop.induct) (auto simp: Let_def normal_role_def)

lemma normalize_roles_loop_distinct:
  "distinct out \<Longrightarrow> set out \<subseteq> seen \<Longrightarrow> distinct (normalize_roles_loop rs seen out)"
  by (induction rs seen out rule: normalize_roles_loop.induct) (auto simp: Let_def)

lemma set_NormalizeRoles: "set (NormalizeRoles rs) = normal_role ` set rs - {[]}"
  by (simp add: NormalizeRoles_def normalize_roles_loop_set)

lemma distinct_NormalizeRoles: "distinct (NormalizeRoles rs)"
  by (simp add: NormalizeRoles_def normalize_roles_loop_distinct)

text \<open>The loop keeps the first occurrence of every role that is not empty.\<close>

fun first_occurrences :: "'a list \<Rightarrow> 'a list" where
  "first_occurrences [] = []"
| "first_occurrences (x # xs) = x # filter (\<lambda>y. y \<noteq> x) (first_occurrences xs)"

lemma normalize_roles_loop_eq:
  "normalize_roles_loop rs seen out =
   out @ filter (\<lambda>r. r \<noteq> [] \<and> r \<notin> seen) (first_occurrences (map normal_role rs))"
proof (induction rs seen out rule: normalize_roles_loop.induct)
  case (2 role roles seen out)
  from 2 show ?case by (auto simp: Let_def normal_role_def [symmetric] intro!: filter_cong)
qed simp

lemma NormalizeRoles_eq: "NormalizeRoles rs = filter (\<lambda>r. r \<noteq> []) (first_occurrences (map normal_role rs))"
  by (simp add: NormalizeRoles_def normalize_roles_loop_eq)

lemma unsupported_role_None: "unsupported_role rs = None \<longleftrightarrow> set rs \<subseteq> validRoles"
  by (induction rs) auto

lemma normalize_roles_loop_fixed:
  "distinct (out @ rs) \<Longrightarrow> set rs \<inter> seen = {} \<Longrightarrow> (\<And>r. r \<in> set rs \<Longrightarrow> normal_role r = r \<and> r \<noteq> []) \<Longrightarrow>
   normalize_roles_loop rs seen out = out @ rs"
proof (induction rs seen out rule: normalize_roles_loop.induct)
  case (2 role rs seen out)
  then have "to_lower (trim_space role) = role" "role \<noteq> []" by (auto simp: normal_role_def)
  with 2 show ?case by (auto simp: Let_def)
qed simp

lemma normal_role_valid: "r \<in> validRoles \<Longrightarrow> normal_role r = r \<and> r \<noteq> []"
proof -
  have "normal_role RoleDebtor = RoleDebtor" "normal_role RoleCreditor = RoleCreditor"
    "RoleDebtor \<noteq> []" "RoleCreditor \<noteq> []"
    by code_simp+
  then show "r \<in> validRoles \<Longrightarrow> normal_role r = r \<and> r \<noteq> []" by (auto simp: validRoles_def)
qed

lemma NormalizeRoles_fixed: "distinct rs \<Longrightarrow> set rs \<subseteq> validRoles \<Longrightarrow> NormalizeRoles rs = rs"
  unfolding NormalizeRoles_def
  by (subst normalize_roles_loop_fixed) (auto dest: normal_role_valid)

lemma NormalizeRoles_idem:
  "set (NormalizeRoles rs) \<subseteq> validRoles \<Longrightarrow> NormalizeRoles (NormalizeRoles rs) = NormalizeRoles rs"
  by (simp add: NormalizeRoles_fixed distinct_NormalizeRoles)

lemma normal_role_idem [simp]: "normal_role (normal_role r) = normal_role r"
  by (simp add: normal_role_def trimmed_to_lower)

lemma set_NormalizeRoles_twice: "set (NormalizeRoles (NormalizeRoles rs)) = set (NormalizeRoles rs)"
proof -
  let ?A = "normal_role ` set rs - {[]}"
  have "normal_role ` ?A = (\<lambda>r. r) ` ?A" by (intro image_cong) auto
  then show ?thesis unfolding set_NormalizeRoles by auto
qed

section \<open>Facts on statuses\<close>

lemma NormalizeStatus_cases: "NormalizeStatus s \<in> {''SUCCEEDED'', ''FAILED'', ''PENDING''}"
  by (simp add: NormalizeStatus_def)

lemma NormalizeStatus_idem [simp]: "NormalizeStatus (NormalizeStatus s) = NormalizeStatus s"
  by (simp add: NormalizeStatus_def)

lemma NormalizeStatus_id [simp]:
  "NormalizeStatus ''PENDING'' = ''PENDING''" "NormalizeStatus ''SUCCEEDED'' = ''SUCCEEDED''"
  "NormalizeStatus ''FAILED'' = ''FAILED''"
  by (simp_all add: NormalizeStatus_def)

lemma terminal_NormalizeStatus [simp]: "terminal (NormalizeStatus s) = terminal s"
  by (auto simp: terminal_def NormalizeStatus_def)

lemma NormalizeStatus_terminal [simp]: "terminal s \<Longrightarrow> NormalizeStatus s = s"
  by (auto simp: terminal_def)

lemma not_terminal_PENDING [simp]: "\<not> terminal ''PENDING''"
  by (simp add: terminal_def)

lemma NormalizeStatus_not_terminal: "NormalizeStatus s = ''PENDING'' \<longleftrightarrow> \<not> terminal s"
  by (auto simp: terminal_def NormalizeStatus_def)

lemma terminal_StatusCode: "terminal s \<longleftrightarrow> StatusCode s \<noteq> 202"
  by (simp add: terminal_def StatusCode_def)

end
