(* ===== verification/Telemetry.thy ===== *)
theory Telemetry
  imports Go_Strings
begin

text \<open>
  The metrics of \<open>internal/payments/telemetry.go\<close>. The counters are 64-bit words and wrap
  around. \<open>Count\<close> makes four separate updates (three atomic additions, then the buckets
  under the mutex); \<open>Handler\<close> makes four separate reads. Both are also given step by step,
  for interleavings.
\<close>

unbundle bit_operations_syntax

section \<open>Counting\<close>

type_synonym u64 = "64 word"

record Metrics =
  requests :: u64
  failed :: u64
  latencyMs :: u64
  buckets :: "u64 list"

definition bounds :: "int list" where
  "bounds = [50, 100, 250, 500, 1000, 5000]"

definition zero_metrics :: Metrics where
  "zero_metrics = \<lparr>requests = 0, failed = 0, latencyMs = 0, buckets = replicate 6 0\<rparr>"

text \<open>\<open>for j := i; j < len(m.buckets); j++ \{ m.buckets[j]++ \}\<close>\<close>

fun bump_from :: "nat \<Rightarrow> u64 list \<Rightarrow> u64 list" where
  "bump_from i [] = []"
| "bump_from 0 (b # bs) = (b + 1) # bump_from 0 bs"
| "bump_from (Suc i) (b # bs) = b # bump_from i bs"

text \<open>The loop over the bounds: the first that holds the latency bumps, then breaks.\<close>

fun bucket_loop :: "nat \<Rightarrow> int list \<Rightarrow> int \<Rightarrow> u64 list \<Rightarrow> u64 list" where
  "bucket_loop i [] latency bs = bs"
| "bucket_loop i (bound # rest) latency bs =
     (if latency \<le> bound then bump_from i bs else bucket_loop (Suc i) rest latency bs)"

definition add_request :: "Metrics \<Rightarrow> Metrics" where
  "add_request m = m\<lparr>requests := requests m + 1\<rparr>"

definition add_failure :: "bool \<Rightarrow> Metrics \<Rightarrow> Metrics" where
  "add_failure ok m = (if \<not> ok then m\<lparr>failed := failed m + 1\<rparr> else m)"

definition add_latency :: "int \<Rightarrow> Metrics \<Rightarrow> Metrics" where
  "add_latency latency m = m\<lparr>latencyMs := latencyMs m + word_of_int latency\<rparr>"

definition add_buckets :: "int \<Rightarrow> Metrics \<Rightarrow> Metrics" where
  "add_buckets latency m = m\<lparr>buckets := bucket_loop 0 bounds latency (buckets m)\<rparr>"

definition Count :: "bool \<Rightarrow> int \<Rightarrow> Metrics \<Rightarrow> Metrics" where
  "Count ok latency m = add_buckets latency (add_latency latency (add_failure ok (add_request m)))"

section \<open>The exposition text\<close>

definition u64_dec :: "u64 \<Rightarrow> string" where
  "u64_dec w = nat_dec (unat w)"

definition bucket_line :: "int \<Rightarrow> u64 \<Rightarrow> string" where
  "bucket_line bound n =
     ''payments_latency_ms_bucket{le='' @ [CHR 0x22] @ int_dec bound @ [CHR 0x22] @ ''} ''
     @ u64_dec n @ [CHR 0x0A]"

text \<open>What a scrape shows: the three loaded counters and the copied buckets.\<close>

record scrape =
  s_requests :: u64
  s_failures :: u64
  s_latency :: u64
  s_buckets :: "u64 list"

definition scrape_text :: "scrape \<Rightarrow> string" where
  "scrape_text s =
     ''payments_requests_total '' @ u64_dec (s_requests s) @ [CHR 0x0A]
     @ ''payments_failures_total '' @ u64_dec (s_failures s) @ [CHR 0x0A]
     @ ''payments_latency_ms_sum '' @ u64_dec (s_latency s) @ [CHR 0x0A]
     @ concat (map2 bucket_line bounds (s_buckets s))
     @ ''payments_latency_ms_bucket{le='' @ [CHR 0x22] @ ''+Inf'' @ [CHR 0x22] @ ''} ''
     @ u64_dec (s_requests s) @ [CHR 0x0A]
     @ ''payments_latency_ms_count '' @ u64_dec (s_requests s) @ [CHR 0x0A]"

definition Handler :: "Metrics \<Rightarrow> string" where
  "Handler m = scrape_text \<lparr>s_requests = requests m, s_failures = failed m,
     s_latency = latencyMs m, s_buckets = buckets m\<rparr>"

section \<open>What the counters count\<close>

text \<open>The observations made so far: whether the request succeeded, and its latency.\<close>

type_synonym observation = "bool \<times> int"

definition count_all :: "observation list \<Rightarrow> Metrics" where
  "count_all obs = foldl (\<lambda>m (ok, latency). Count ok latency m) zero_metrics obs"

definition at_most :: "observation list \<Rightarrow> int \<Rightarrow> nat" where
  "at_most obs bound = length (filter (\<lambda>(ok, latency). latency \<le> bound) obs)"

lemma bucket_loop_eq:
  "bucket_loop 0 bounds latency [a, b, c, d, e, f] =
   [a + of_bool (latency \<le> 50), b + of_bool (latency \<le> 100), c + of_bool (latency \<le> 250),
    d + of_bool (latency \<le> 500), e + of_bool (latency \<le> 1000), f + of_bool (latency \<le> 5000)]"
  by (auto simp: bounds_def)

lemma count_all_snoc: "count_all (obs @ [(ok, latency)]) = Count ok latency (count_all obs)"
  by (simp add: count_all_def)

lemma at_most_snoc: "at_most (obs @ [(ok, latency)]) b = at_most obs b + of_bool (latency \<le> b)"
  by (simp add: at_most_def)

lemmas count_defs = Count_def add_buckets_def add_latency_def add_failure_def add_request_def

lemma count_all_counters:
  "requests (count_all obs) = of_nat (length obs)"
  "failed (count_all obs) = of_nat (length (filter (\<lambda>(ok, latency). \<not> ok) obs))"
  "latencyMs (count_all obs) = of_int (sum_list (map snd obs))"
  by (induction obs rule: rev_induct)
    (auto simp: count_all_snoc count_defs, simp_all add: count_all_def zero_metrics_def)

lemma count_all_buckets: "buckets (count_all obs) = map (\<lambda>b. of_nat (at_most obs b)) bounds"
proof (induction obs rule: rev_induct)
  case Nil
  then show ?case
    by (simp add: count_all_def zero_metrics_def at_most_def bounds_def numeral_eq_Suc)
next
  case (snoc p obs)
  obtain ok latency where p: "p = (ok, latency)" by (cases p)
  have "buckets (count_all (obs @ [p])) = bucket_loop 0 bounds latency (buckets (count_all obs))"
    by (simp add: p count_all_snoc count_defs)
  also have "\<dots> = map (\<lambda>b. of_nat (at_most (obs @ [p]) b)) bounds"
    unfolding snoc p at_most_snoc by (simp add: bounds_def bucket_loop_eq [unfolded bounds_def])
  finally show ?case .
qed

lemma at_most_mono: "a \<le> b \<Longrightarrow> at_most obs a \<le> at_most obs b"
  unfolding at_most_def by (induction obs) auto

lemma at_most_le_length: "at_most obs b \<le> length obs"
  by (simp add: at_most_def)

end
