(* ===== verification/Database.thy ===== *)
theory Database
  imports Payment_Types Telemetry
begin

text \<open>
  \<open>internal/payments/db.go\<close> and the PostgreSQL statements of the services: opening with
  retries, what PostgreSQL accepts as text, and tables as lists of rows whose key columns
  are unique. A statement reads or rewrites the list; whether it reaches the database is an
  argument of the operation that runs it.
\<close>

section \<open>Opening\<close>

text \<open>
  \<open>Open\<close>: the variable must be set; then the driver connects or not. \<open>openWithRetry\<close> tries
  30 times, a second apart; \<open>tries\<close> is what each of them finds.
\<close>

datatype 'a open_result = Opened 'a | OpenFailed string

definition Open_db :: "(string \<Rightarrow> string) \<Rightarrow> string \<Rightarrow> (string \<Rightarrow> 'db open_result) \<Rightarrow> 'db open_result" where
  "Open_db env envName connect =
     (if env envName = [] then OpenFailed (envName @ '' is required'') else connect (env envName))"

fun open_loop :: "nat \<Rightarrow> (nat \<Rightarrow> 'db open_result) \<Rightarrow> nat \<Rightarrow> string option \<Rightarrow> 'db open_result" where
  "open_loop 0 tries i last_error = OpenFailed (case last_error of Some e \<Rightarrow> e | None \<Rightarrow> [])"
| "open_loop (Suc n) tries i last_error =
     (case tries i of Opened db \<Rightarrow> Opened db | OpenFailed e \<Rightarrow> open_loop n tries (Suc i) (Some e))"

definition openWithRetry :: "(nat \<Rightarrow> 'db open_result) \<Rightarrow> 'db open_result" where
  "openWithRetry tries = open_loop 30 tries 0 None"

lemma open_loop_Opened:
  "open_loop n tries i e = Opened db \<longleftrightarrow>
   (\<exists>j < n. tries (i + j) = Opened db \<and> (\<forall>k < j. \<exists>m. tries (i + k) = OpenFailed m))"
proof (induction n arbitrary: i e)
  case (Suc n)
  have less_Suc: "(\<exists>j < Suc n. P j) \<longleftrightarrow> P 0 \<or> (\<exists>j < n. P (Suc j))" for P :: "nat \<Rightarrow> bool"
    by (metis Suc_less_eq not0_implies_Suc zero_less_Suc)
  show ?case
  proof (cases "tries i")
    case (Opened d)
    then have "\<not> (\<exists>m. tries (i + 0) = OpenFailed m)" by simp
    then have "j = 0" if "\<forall>k < j. \<exists>m. tries (i + k) = OpenFailed m" for j
      using that by (cases j) auto
    with Opened show ?thesis by (simp add: less_Suc) force
  next
    case (OpenFailed m)
    have "(\<forall>k < Suc j. \<exists>m. tries (i + k) = OpenFailed m) \<longleftrightarrow>
        (\<forall>k < j. \<exists>m. tries (Suc i + k) = OpenFailed m)" for j
      using OpenFailed by (simp add: All_less_Suc2)
    with OpenFailed show ?thesis by (simp add: less_Suc Suc.IH)
  qed
qed simp

section \<open>Text columns\<close>

text \<open>PostgreSQL refuses text that is not UTF-8 or holds a NUL.\<close>

definition pg_text :: "string \<Rightarrow> bool" where
  "pg_text s \<longleftrightarrow> utf8_valid s \<and> CHR 0x00 \<notin> set s"

lemma pg_text_utf8: "pg_text s \<Longrightarrow> utf8_valid s"
  by (simp add: pg_text_def)

text \<open>
  The text PostgreSQL gives for a UUID. What it accepts as one is the parameter \<open>uuid_in\<close> of
  the operations: the text of the UUID it reads, or \<open>None\<close> for an error.
\<close>

definition is_hex :: "char \<Rightarrow> bool" where
  "is_hex c \<longleftrightarrow> is_digit c \<or> c \<in> set ''abcdef''"

definition uuid_shape :: "string \<Rightarrow> bool" where
  "uuid_shape s \<longleftrightarrow> map length (split_on (CHR ''-'') s) = [8, 4, 4, 4, 12] \<and>
     list_all (list_all is_hex) (split_on (CHR ''-'') s)"

section \<open>Tables\<close>

text \<open>\<open>COALESCE(x, '')\<close>.\<close>

definition coalesce :: "string option \<Rightarrow> string" where
  "coalesce x = (case x of Some s \<Rightarrow> s | None \<Rightarrow> [])"


text \<open>\<open>INSERT ... ON CONFLICT(id) DO UPDATE\<close>: rewrite the row in the way, or add one.\<close>

definition upsert :: "('r \<Rightarrow> string) \<Rightarrow> ('r \<Rightarrow> 'r) \<Rightarrow> 'r \<Rightarrow> 'r list \<Rightarrow> 'r list" where
  "upsert k conflict row rows =
     (if list_ex (\<lambda>r. k r = k row) rows then update_where (\<lambda>r. k r = k row) conflict rows
      else rows @ [row])"

lemma upsert_distinct:
  assumes "distinct (map k rows)" "\<And>r. k (conflict r) = k r"
  shows "distinct (map k (upsert k conflict row rows))"
  using assms by (auto simp: upsert_def map_update_where list_ex_iff)

lemma find_upsert:
  assumes "\<And>r. k (conflict r) = k r"
  shows "find (\<lambda>r. k r = j) (upsert k conflict row rows) =
    (if j = k row
     then Some (case find (\<lambda>r. k r = j) rows of None \<Rightarrow> row | Some r \<Rightarrow> conflict r)
     else find (\<lambda>r. k r = j) rows)"
proof (cases "list_ex (\<lambda>r. k r = k row) rows")
  case True
  then have "find (\<lambda>r. k r = k row) rows \<noteq> None" by (auto simp: list_ex_iff find_None_iff)
  moreover have "find (\<lambda>r. k r = j) (upsert k conflict row rows) =
      map_option (\<lambda>r. if k r = k row then conflict r else r) (find (\<lambda>r. k r = j) rows)"
    using True by (simp add: upsert_def find_update_where assms)
  ultimately show ?thesis
    by (cases "find (\<lambda>r. k r = j) rows") (auto dest: find_SomeD)
next
  case False
  then have "find (\<lambda>r. k r = k row) rows = None" by (auto simp: list_ex_iff find_None_iff)
  with False show ?thesis by (auto simp: upsert_def find_append split: option.splits)
qed

lemma set_upsert:
  "set (upsert k conflict row rows) \<subseteq> insert row (set rows \<union> conflict ` set rows)"
  by (auto simp: upsert_def set_update_where)

end
