(* ===== verification/Provider_Contract.thy ===== *)
theory Provider_Contract
  imports Mesh_Prelude
begin

text \<open>
  What the payment mesh relies on in an external provider: it remembers, per idempotency
  key, the result it gave, and charges only when it records a new successful result. The
  locale states this contract for one atomic submission; its lemmas carry it to any
  sequence of submissions, for any keys in any order, which is how concurrent requests and
  retries reach a provider.
\<close>

section \<open>Replies\<close>

text \<open>A provider answers with a result for the key, or says that it could not process.\<close>

datatype 'r reply = Answer 'r | Unavailable string

section \<open>The contract\<close>

locale provider =
  fixes submit :: "'e \<Rightarrow> 'k \<Rightarrow> 's \<Rightarrow> 's \<times> 'r reply"
    and recorded :: "'s \<Rightarrow> 'k \<Rightarrow> 'r option"
    and charges :: "'s \<Rightarrow> int"
    and is_charge :: "'r \<Rightarrow> bool"
  assumes replay: "recorded s k = Some r \<Longrightarrow> submit e k s = (s', a) \<Longrightarrow>
      recorded s' = recorded s \<and> charges s' = charges s \<and> (a = Answer r \<or> (\<exists>m. a = Unavailable m))"
    and first_time: "recorded s k = None \<Longrightarrow> submit e k s = (s', a) \<Longrightarrow>
      (recorded s' = recorded s \<and> charges s' = charges s \<and> (\<exists>m. a = Unavailable m)) \<or>
      (\<exists>r. recorded s' = (recorded s)(k \<mapsto> r) \<and> a = Answer r \<and>
           charges s' = charges s + (if is_charge r then 1 else 0))"
begin

lemma submit_keeps:
  assumes "recorded s j = Some r"
  shows "recorded (fst (submit e k s)) j = Some r"
proof -
  obtain s' a where s': "submit e k s = (s', a)" by (cases "submit e k s")
  show ?thesis
  proof (cases "recorded s k")
    case None
    with first_time [OF None s'] assms s' show ?thesis by auto
  next
    case (Some q)
    with replay [OF Some s'] assms s' show ?thesis by simp
  qed
qed

text \<open>An answer is always the recorded result of its key.\<close>

lemma answer_recorded:
  assumes s': "submit e k s = (s', Answer r)"
  shows "recorded s' k = Some r"
proof (cases "recorded s k")
  case None
  with first_time [OF None s'] show ?thesis by auto
next
  case (Some q)
  with replay [OF Some s'] show ?thesis by simp
qed

text \<open>Submissions in sequence: the final state, and the replies with their keys.\<close>

fun submissions :: "('e \<times> 'k) list \<Rightarrow> 's \<Rightarrow> 's \<times> ('k \<times> 'r reply) list" where
  "submissions [] s = (s, [])"
| "submissions ((e, k) # es) s =
     (let (s', a) = submit e k s; (s'', as) = submissions es s' in (s'', (k, a) # as))"

lemma submissions_keep: "recorded s j = Some r \<Longrightarrow> recorded (fst (submissions es s)) j = Some r"
proof (induction es arbitrary: s)
  case (Cons p es)
  obtain e k where p: "p = (e, k)" by (cases p)
  obtain s' a where s': "submit e k s = (s', a)" by (cases "submit e k s")
  with Cons.prems submit_keeps [of s j r e k] have "recorded s' j = Some r" by simp
  with Cons.IH have "recorded (fst (submissions es s')) j = Some r" .
  with p s' show ?case by (simp add: case_prod_beta)
qed simp

lemma submissions_answers:
  "(k, Answer r) \<in> set (snd (submissions es s)) \<Longrightarrow> recorded (fst (submissions es s)) k = Some r"
proof (induction es arbitrary: s)
  case (Cons p es)
  obtain e j where p: "p = (e, j)" by (cases p)
  obtain s' a where s': "submit e j s = (s', a)" by (cases "submit e j s")
  have eq: "fst (submissions (p # es) s) = fst (submissions es s')"
    "set (snd (submissions (p # es) s)) = insert (j, a) (set (snd (submissions es s')))"
    by (simp_all add: p s' case_prod_beta)
  show ?case
  proof (cases "(k, Answer r) = (j, a)")
    case True
    with s' answer_recorded have "recorded s' k = Some r" by blast
    then show ?thesis unfolding eq by (rule submissions_keep)
  next
    case False
    with Cons.prems eq have "(k, Answer r) \<in> set (snd (submissions es s'))" by auto
    then show ?thesis unfolding eq by (rule Cons.IH)
  qed
qed simp

text \<open>Two answers for one key are the same answer.\<close>

lemma submissions_agree:
  "(k, Answer r) \<in> set (snd (submissions es s)) \<Longrightarrow> (k, Answer q) \<in> set (snd (submissions es s)) \<Longrightarrow> r = q"
  by (metis option.inject submissions_answers)

text \<open>The charges made by a sequence are the keys whose charge was recorded in it.\<close>

definition newly_charged :: "'s \<Rightarrow> 's \<Rightarrow> 'k set" where
  "newly_charged s s' = {k. recorded s k = None \<and> (\<exists>r. recorded s' k = Some r \<and> is_charge r)}"

lemma submissions_charges:
  "finite (newly_charged s (fst (submissions es s))) \<and>
   charges (fst (submissions es s)) = charges s + int (card (newly_charged s (fst (submissions es s))))"
proof (induction es arbitrary: s)
  case Nil
  have "newly_charged s s = {}" by (auto simp: newly_charged_def)
  then show ?case by simp
next
  case (Cons p es)
  obtain e k where p: "p = (e, k)" by (cases p)
  obtain s' a where s': "submit e k s = (s', a)" by (cases "submit e k s")
  let ?t = "fst (submissions es s')"
  have eq: "fst (submissions (p # es) s) = ?t" by (simp add: p s' case_prod_beta)
  consider (same) "recorded s' = recorded s" "charges s' = charges s"
    | (new) r where "recorded s k = None" "recorded s' = (recorded s)(k \<mapsto> r)"
        "charges s' = charges s + (if is_charge r then 1 else 0)"
    using first_time [OF _ s'] replay [OF _ s'] by (cases "recorded s k") blast+
  then show ?case
  proof cases
    case same
    then have "newly_charged s ?t = newly_charged s' ?t" by (simp add: newly_charged_def)
    with same Cons.IH [of s'] show ?thesis unfolding eq by simp
  next
    case new
    have "recorded ?t k = Some r" using new(2) by (intro submissions_keep) simp
    then have "newly_charged s ?t = (if is_charge r then insert k (newly_charged s' ?t) else newly_charged s' ?t)"
      "k \<notin> newly_charged s' ?t"
      using new by (auto simp: newly_charged_def)
    with new(3) Cons.IH [of s'] show ?thesis unfolding eq by simp
  qed
qed

text \<open>However often a key is submitted, it is charged at most once.\<close>

lemma submissions_one_key:
  assumes "snd ` set es \<subseteq> {k}"
  shows "charges (fst (submissions es s)) \<le> charges s + 1"
proof -
  have only: "recorded (fst (submissions es s)) j = recorded s j" if "j \<noteq> k" for j
    using assms
  proof (induction es arbitrary: s)
    case (Cons p es)
    obtain e where p: "p = (e, k)" using Cons.prems by (cases p) auto
    obtain s' a where s': "submit e k s = (s', a)" by (cases "submit e k s")
    have "recorded s' j = recorded s j"
      using first_time [OF _ s'] replay [OF _ s'] that by (cases "recorded s k") auto
    with Cons p s' show ?case by (simp add: case_prod_beta)
  qed simp
  have "newly_charged s (fst (submissions es s)) \<subseteq> {k}"
    using only by (force simp: newly_charged_def)
  then have "card (newly_charged s (fst (submissions es s))) \<le> card {k}"
    by (intro card_mono) simp_all
  then show ?thesis using submissions_charges [of s es] by simp
qed

text \<open>A key that was charged before is never charged again.\<close>

lemma submissions_settled_key:
  assumes "snd ` set es \<subseteq> {k}" "recorded s k \<noteq> None"
  shows "charges (fst (submissions es s)) = charges s"
  using assms
proof (induction es arbitrary: s)
  case (Cons p es)
  obtain e where p: "p = (e, k)" using Cons.prems by (cases p) auto
  obtain s' a where s': "submit e k s = (s', a)" by (cases "submit e k s")
  from Cons.prems obtain r where "recorded s k = Some r" by auto
  then have "recorded s' = recorded s" "charges s' = charges s"
    using replay [OF _ s'] by blast+
  with Cons p s' show ?case by (simp add: case_prod_beta)
qed simp

end

end
