(* ===== verification/Gateway_Mock.thy ===== *)
theory Gateway_Mock
  imports Provider_Contract Http
begin

text \<open>
  \<open>cmd/gateway-mock/main.go\<close>: the external card and bank provider. A handler has two
  critical sections under the mutex: the first counts the attempt and looks the key up, the
  second (after the simulated delay) looks it up again, records the result, counts the
  charge and persists. Each section is one step on the state; requests interleave between
  them. What the environment decides (whether the caller goes away during the delay, the
  clock, whether the disk works) is an argument.
\<close>

section \<open>State\<close>

record cardRequest =
  cr_AmountMinor :: int
  cr_Currency :: string
  cr_Reference :: string
  cr_RequestID :: string

record bankRequest =
  br_AmountMinor :: int
  br_Currency :: string
  br_Reference :: string
  br_TransferID :: string

record cardResult =
  card_State :: string
  card_AuthorizationID :: string
  card_Message :: string

record bankResult =
  bank_Decision :: string
  bank_TransferID :: string
  bank_Message :: string

record stats =
  Attempts :: int
  EffectiveCharges :: int

text \<open>The state file: absent, not readable, not JSON, or the saved maps (\<open>None\<close> for null).\<close>

datatype state_file =
    NoFile
  | Unreadable
  | Corrupt
  | Saved "(string \<Rightarrow> cardResult option) option" "(string \<Rightarrow> bankResult option) option" stats

record gateway =
  g_card :: "string \<Rightarrow> cardResult option"
  g_bank :: "string \<Rightarrow> bankResult option"
  g_stats :: stats
  g_disk :: state_file
  g_env :: "string \<Rightarrow> string"

definition zero_stats :: stats where
  "zero_stats = \<lparr>Attempts = 0, EffectiveCharges = 0\<rparr>"

definition new_gateway :: "(string \<Rightarrow> string) \<Rightarrow> state_file \<Rightarrow> gateway" where
  "new_gateway env disk = \<lparr>g_card = Map.empty, g_bank = Map.empty, g_stats = zero_stats,
     g_disk = disk, g_env = env\<rparr>"

record gateway_event =
  ge_behavior :: string \<comment> \<open>\<open>GATEWAY_BEHAVIOR\<close> as read between the two sections\<close>
  ge_cancelled :: bool  \<comment> \<open>the caller goes away before the delay is over\<close>
  ge_nanos :: int       \<comment> \<open>\<open>time.Now().UnixNano()\<close>\<close>
  ge_disk :: bool       \<comment> \<open>writing and renaming the state file succeeds\<close>

section \<open>Environment variables and persistence\<close>

definition getenv :: "(string \<Rightarrow> string) \<Rightarrow> string \<Rightarrow> string \<Rightarrow> string" where
  "getenv env k f = (let v = env k in if v \<noteq> [] then v else f)"

text \<open>\<open>os.Setenv\<close>: a value with a NUL byte is refused, and the handler ignores the error.\<close>

definition set_env :: "string \<Rightarrow> string \<Rightarrow> (string \<Rightarrow> string) \<Rightarrow> (string \<Rightarrow> string)" where
  "set_env k v env = (if CHR 0x00 \<in> set v then env else env(k := v))"

definition statePath :: "(string \<Rightarrow> string) \<Rightarrow> string" where
  "statePath env = trim_space (env ''GATEWAY_STATE_FILE'')"

definition persistStateLocked :: "bool \<Rightarrow> gateway \<Rightarrow> bool \<times> gateway" where
  "persistStateLocked disk_ok g =
     (if statePath (g_env g) = [] then (True, g)
      else if disk_ok then (True, g\<lparr>g_disk := Saved (Some (g_card g)) (Some (g_bank g)) (g_stats g)\<rparr>)
      else (False, g))"

definition loadState :: "gateway \<Rightarrow> gateway option" where
  "loadState g =
     (if statePath (g_env g) = [] then Some g
      else case g_disk g of
        NoFile \<Rightarrow> Some g
      | Unreadable \<Rightarrow> None
      | Corrupt \<Rightarrow> None
      | Saved cards banks st \<Rightarrow>
          let g1 = (case cards of Some m \<Rightarrow> g\<lparr>g_card := m\<rparr> | None \<Rightarrow> g);
              g2 = (case banks of Some m \<Rightarrow> g1\<lparr>g_bank := m\<rparr> | None \<Rightarrow> g1)
          in Some (g2\<lparr>g_stats := st\<rparr>))"

text \<open>A restart: the memory is gone, \<open>run\<close> loads the file or gives up.\<close>

definition restart :: "gateway \<Rightarrow> gateway option" where
  "restart g = loadState (new_gateway (g_env g) (g_disk g))"

section \<open>Delay\<close>

definition waitProvider :: "bool \<Rightarrow> gateway \<Rightarrow> bool" where
  "waitProvider cancelled g =
     (let delay = atoi (getenv (g_env g) ''GATEWAY_DELAY_MS'' ''0'');
          delay = (if getenv (g_env g) ''GATEWAY_BEHAVIOR'' ''success'' = ''timeout'' then 10000 else delay)
      in if delay \<le> 0 then False else cancelled)"

section \<open>Card authorizations\<close>

definition encode_card :: "cardResult \<Rightarrow> json" where
  "encode_card r = JObj (str_member ''state'' (card_State r)
     @ str_omitempty ''authorization_id'' (card_AuthorizationID r)
     @ str_omitempty ''message'' (card_Message r))"

definition message_body :: "string \<Rightarrow> json" where
  "message_body m = JObj [(''message'', JStr m)]"

definition card_request_fields :: "cardRequest field list" where
  "card_request_fields =
    [(''amount_minor'', set_int64 (\<lambda>i r. r\<lparr>cr_AmountMinor := i\<rparr>)),
     (''currency'', set_string (\<lambda>s r. r\<lparr>cr_Currency := s\<rparr>)),
     (''reference'', set_string (\<lambda>s r. r\<lparr>cr_Reference := s\<rparr>)),
     (''request_id'', set_string (\<lambda>s r. r\<lparr>cr_RequestID := s\<rparr>))]"

definition decode_card_request :: "json \<Rightarrow> cardRequest option" where
  "decode_card_request = decode_struct card_request_fields
     \<lparr>cr_AmountMinor = 0, cr_Currency = [], cr_Reference = [], cr_RequestID = []\<rparr>"

definition count_attempt :: "gateway \<Rightarrow> gateway" where
  "count_attempt g = g\<lparr>g_stats := (g_stats g)\<lparr>Attempts := Attempts (g_stats g) + 1\<rparr>\<rparr>"

definition add_charges :: "int \<Rightarrow> gateway \<Rightarrow> gateway" where
  "add_charges n g = g\<lparr>g_stats := (g_stats g)\<lparr>EffectiveCharges := EffectiveCharges (g_stats g) + n\<rparr>\<rparr>"

text \<open>The first critical section.\<close>

definition card_lookup :: "string \<Rightarrow> gateway \<Rightarrow> gateway \<times> cardResult option" where
  "card_lookup key g = (count_attempt g, g_card g key)"

text \<open>
  The behaviour is read after the delay, before the second section; other requests may come
  in between.
\<close>

definition read_behavior :: "gateway \<Rightarrow> gateway_event \<Rightarrow> gateway_event" where
  "read_behavior g ev = ev\<lparr>ge_behavior := getenv (g_env g) ''GATEWAY_BEHAVIOR'' ''success''\<rparr>"

lemma ge_nanos_read_behavior [simp]: "ge_nanos (read_behavior g ev) = ge_nanos ev"
  by (simp add: read_behavior_def)

text \<open>The second critical section, one branch per behaviour.\<close>

definition card_commit :: "gateway_event \<Rightarrow> string \<Rightarrow> gateway \<Rightarrow> gateway \<times> cardResult reply" where
  "card_commit ev key g =
     (let behavior = ge_behavior ev in
      if behavior = ''error'' then (g, Unavailable ''provider unavailable'')
      else if behavior = ''decline'' then
        (let res = \<lparr>card_State = ''DECLINED'', card_AuthorizationID = [],
               card_Message = ''card authorization declined''\<rparr> in
         case g_card g key of Some old \<Rightarrow> (g, Answer old)
         | None \<Rightarrow>
             (let g1 = g\<lparr>g_card := (g_card g)(key \<mapsto> res)\<rparr>;
                  (ok, g2) = persistStateLocked (ge_disk ev) g1
              in if \<not> ok then (g2\<lparr>g_card := (g_card g2)(key := None)\<rparr>, Unavailable ''gateway state unavailable'')
                 else (g2, Answer res)))
      else
        (let res = \<lparr>card_State = ''AUTHORIZED'', card_AuthorizationID = ''card-auth-'' @ int_dec (ge_nanos ev),
               card_Message = []\<rparr> in
         case g_card g key of Some old \<Rightarrow> (g, Answer old)
         | None \<Rightarrow>
             (let g1 = add_charges 1 (g\<lparr>g_card := (g_card g)(key \<mapsto> res)\<rparr>);
                  (ok, g2) = persistStateLocked (ge_disk ev) g1
              in if \<not> ok then (add_charges (- 1) (g2\<lparr>g_card := (g_card g2)(key := None)\<rparr>), Unavailable ''gateway state unavailable'')
                 else (g2, Answer res))))"

definition reply_response :: "('r \<Rightarrow> json) \<Rightarrow> 'r reply \<Rightarrow> http_response" where
  "reply_response enc a = (case a of Answer r \<Rightarrow> JSON 200 (enc r) | Unavailable m \<Rightarrow> JSON 503 (message_body m))"

text \<open>The whole handler, run without interference. No response: the caller is gone.\<close>

definition cardAuthorization ::
  "gateway_event \<Rightarrow> http_request \<Rightarrow> gateway \<Rightarrow> gateway \<times> http_response option" where
  "cardAuthorization ev r g =
     (if req_method r \<noteq> ''POST'' then (g, Some (JSON 405 (error_body ''method not allowed'')))
      else case Decode decode_card_request r of
        None \<Rightarrow> (g, Some (JSON 400 (error_body ''request_id is required'')))
      | Some req \<Rightarrow>
          if cr_RequestID req = [] then (g, Some (JSON 400 (error_body ''request_id is required'')))
          else
            (let (g1, hit) = card_lookup (cr_RequestID req) g in
             case hit of Some old \<Rightarrow> (g1, Some (JSON 200 (encode_card old)))
             | None \<Rightarrow>
                 if waitProvider (ge_cancelled ev) g1 then (g1, None)
                 else (let (g2, a) = card_commit (read_behavior g1 ev) (cr_RequestID req) g1
                       in (g2, Some (reply_response encode_card a)))))"

section \<open>Bank transfers\<close>

definition encode_bank :: "bankResult \<Rightarrow> json" where
  "encode_bank r = JObj (str_member ''decision'' (bank_Decision r)
     @ str_omitempty ''transfer_id'' (bank_TransferID r)
     @ str_omitempty ''message'' (bank_Message r))"

definition bank_request_fields :: "bankRequest field list" where
  "bank_request_fields =
    [(''amount_minor'', set_int64 (\<lambda>i r. r\<lparr>br_AmountMinor := i\<rparr>)),
     (''currency'', set_string (\<lambda>s r. r\<lparr>br_Currency := s\<rparr>)),
     (''reference'', set_string (\<lambda>s r. r\<lparr>br_Reference := s\<rparr>)),
     (''transfer_id'', set_string (\<lambda>s r. r\<lparr>br_TransferID := s\<rparr>))]"

definition decode_bank_request :: "json \<Rightarrow> bankRequest option" where
  "decode_bank_request = decode_struct bank_request_fields
     \<lparr>br_AmountMinor = 0, br_Currency = [], br_Reference = [], br_TransferID = []\<rparr>"

definition bank_lookup :: "string \<Rightarrow> gateway \<Rightarrow> gateway \<times> bankResult option" where
  "bank_lookup key g = (count_attempt g, g_bank g key)"

definition bank_commit :: "gateway_event \<Rightarrow> string \<Rightarrow> gateway \<Rightarrow> gateway \<times> bankResult reply" where
  "bank_commit ev key g =
     (let behavior = ge_behavior ev in
      if behavior = ''error'' then (g, Unavailable ''bank provider unavailable'')
      else if behavior = ''decline'' then
        (let res = \<lparr>bank_Decision = ''REJECTED'', bank_TransferID = [],
               bank_Message = ''bank transfer rejected''\<rparr> in
         case g_bank g key of Some old \<Rightarrow> (g, Answer old)
         | None \<Rightarrow>
             (let g1 = g\<lparr>g_bank := (g_bank g)(key \<mapsto> res)\<rparr>;
                  (ok, g2) = persistStateLocked (ge_disk ev) g1
              in if \<not> ok then (g2\<lparr>g_bank := (g_bank g2)(key := None)\<rparr>, Unavailable ''gateway state unavailable'')
                 else (g2, Answer res)))
      else
        (let res = \<lparr>bank_Decision = ''ACCEPTED'', bank_TransferID = ''bank-transfer-'' @ int_dec (ge_nanos ev),
               bank_Message = []\<rparr> in
         case g_bank g key of Some old \<Rightarrow> (g, Answer old)
         | None \<Rightarrow>
             (let g1 = add_charges 1 (g\<lparr>g_bank := (g_bank g)(key \<mapsto> res)\<rparr>);
                  (ok, g2) = persistStateLocked (ge_disk ev) g1
              in if \<not> ok then (add_charges (- 1) (g2\<lparr>g_bank := (g_bank g2)(key := None)\<rparr>), Unavailable ''gateway state unavailable'')
                 else (g2, Answer res))))"

definition bankTransfer ::
  "gateway_event \<Rightarrow> http_request \<Rightarrow> gateway \<Rightarrow> gateway \<times> http_response option" where
  "bankTransfer ev r g =
     (if req_method r \<noteq> ''POST'' then (g, Some (JSON 405 (error_body ''method not allowed'')))
      else case Decode decode_bank_request r of
        None \<Rightarrow> (g, Some (JSON 400 (error_body ''transfer_id is required'')))
      | Some req \<Rightarrow>
          if br_TransferID req = [] then (g, Some (JSON 400 (error_body ''transfer_id is required'')))
          else
            (let (g1, hit) = bank_lookup (br_TransferID req) g in
             case hit of Some old \<Rightarrow> (g1, Some (JSON 200 (encode_bank old)))
             | None \<Rightarrow>
                 if waitProvider (ge_cancelled ev) g1 then (g1, None)
                 else (let (g2, a) = bank_commit (read_behavior g1 ev) (br_TransferID req) g1
                       in (g2, Some (reply_response encode_bank a)))))"


section \<open>Authentication, control endpoints, routing\<close>

text \<open>\<open>paymentAuth\<close> and \<open>controlAuth\<close>: the refusal, or \<open>None\<close> when the next handler runs.\<close>

definition bearer :: "http_request \<Rightarrow> string" where
  "bearer r = trim_space (trim_prefix ''Bearer '' (header_get (req_header r) ''Authorization''))"

definition paymentAuth :: "(string \<Rightarrow> string) \<Rightarrow> http_request \<Rightarrow> http_response option" where
  "paymentAuth env r =
     (let expected = trim_space (env ''GATEWAY_PAYMENT_TOKEN'');
          expected = (if expected = [] then trim_space (env ''GATEWAY_AUTH_TOKEN'') else expected);
          provided = trim_space (header_get (req_header r) ''X-Gateway-Auth'');
          provided = (if provided = [] then bearer r else provided)
      in if expected = [] then Some (JSON 503 (error_body ''gateway authentication is not configured''))
         else if provided = [] \<or> provided \<noteq> expected then Some (JSON 401 (error_body ''unauthorized''))
         else None)"

definition controlAuth :: "(string \<Rightarrow> string) \<Rightarrow> http_request \<Rightarrow> http_response option" where
  "controlAuth env r =
     (let expected = trim_space (env ''GATEWAY_ADMIN_TOKEN'');
          provided = trim_space (header_get (req_header r) ''X-Gateway-Admin'');
          provided = (if provided = [] then bearer r else provided)
      in if expected = [] then Some (JSON 503 (error_body ''gateway control authentication is not configured''))
         else if provided = [] \<or> provided \<noteq> expected then Some (JSON 401 (error_body ''unauthorized''))
         else None)"

definition guarded ::
  "http_response option \<Rightarrow> gateway \<times> http_response option \<Rightarrow> gateway \<Rightarrow> gateway \<times> http_response option" where
  "guarded refusal next_handler g = (case refusal of Some resp \<Rightarrow> (g, Some resp) | None \<Rightarrow> next_handler)"

record behavior_request =
  bh_Behavior :: string
  bh_DelayMs :: int

definition behavior_fields :: "behavior_request field list" where
  "behavior_fields =
    [(''behavior'', set_string (\<lambda>s r. r\<lparr>bh_Behavior := s\<rparr>)),
     (''delay_ms'', set_int64 (\<lambda>i r. r\<lparr>bh_DelayMs := i\<rparr>))]"

definition decode_behavior :: "json \<Rightarrow> behavior_request option" where
  "decode_behavior = decode_struct behavior_fields \<lparr>bh_Behavior = [], bh_DelayMs = 0\<rparr>"

definition encode_behavior :: "behavior_request \<Rightarrow> json" where
  "encode_behavior b = JObj (str_member ''behavior'' (bh_Behavior b) @ int_member ''delay_ms'' (bh_DelayMs b))"

definition behavior_handler :: "http_request \<Rightarrow> gateway \<Rightarrow> gateway \<times> http_response option" where
  "behavior_handler r g =
     (if req_method r \<noteq> ''POST'' then (g, Some (JSON 405 (error_body ''method not allowed'')))
      else case Decode decode_behavior r of
        None \<Rightarrow> (g, Some (JSON 400 (error_body ''behavior is required'')))
      | Some b \<Rightarrow>
          if bh_Behavior b = [] then (g, Some (JSON 400 (error_body ''behavior is required'')))
          else
            (let env1 = set_env ''GATEWAY_BEHAVIOR'' (bh_Behavior b) (g_env g);
                 env2 = set_env ''GATEWAY_DELAY_MS'' (int_dec (bh_DelayMs b)) env1
             in (g\<lparr>g_env := env2\<rparr>, Some (JSON 200 (encode_behavior b)))))"

definition encode_stats :: "stats \<Rightarrow> json" where
  "encode_stats st = JObj (int_member ''attempts'' (Attempts st) @ int_member ''effective_charges'' (EffectiveCharges st))"

definition statsHandler :: "gateway \<Rightarrow> gateway \<times> http_response option" where
  "statsHandler g = (g, Some (JSON 200 (encode_stats (g_stats g))))"

definition health :: "gateway \<Rightarrow> gateway \<times> http_response option" where
  "health g = (g, Some (JSON 200 (JObj [(''status'', JStr ''ok'')])))"

text \<open>The mux of \<open>run\<close>: which handler serves which path, behind which credential.\<close>

definition gateway_serve ::
  "gateway_event \<Rightarrow> http_request \<Rightarrow> gateway \<Rightarrow> gateway \<times> http_response option" where
  "gateway_serve ev r g =
     (if req_path r = ''/healthz'' then health g
      else if req_path r = ''/admin/behavior'' then
        guarded (controlAuth (g_env g) r) (behavior_handler r g) g
      else if req_path r = ''/stats'' then guarded (controlAuth (g_env g) r) (statsHandler g) g
      else if req_path r = ''/v1/card/authorizations'' then
        guarded (paymentAuth (g_env g) r) (cardAuthorization ev r g) g
      else if req_path r = ''/v2/transfers'' then
        guarded (paymentAuth (g_env g) r) (bankTransfer ev r g) g
      else (g, Some \<lparr>http_status = 404, http_body = ''404 page not found'' @ [CHR 0x0A]\<rparr>))"

section \<open>The gateway keeps the provider contract\<close>

lemma persist_frame:
  "persistStateLocked d g = (ok, g') \<Longrightarrow>
   g_card g' = g_card g \<and> g_bank g' = g_bank g \<and> g_stats g' = g_stats g \<and> g_env g' = g_env g"
  by (auto simp: persistStateLocked_def split: if_splits)

lemma gateway_updates [simp]:
  "g_card (add_charges n g) = g_card g" "g_bank (add_charges n g) = g_bank g"
  "g_env (add_charges n g) = g_env g" "g_disk (add_charges n g) = g_disk g"
  "EffectiveCharges (g_stats (add_charges n g)) = EffectiveCharges (g_stats g) + n"
  "Attempts (g_stats (add_charges n g)) = Attempts (g_stats g)"
  "g_card (count_attempt g) = g_card g" "g_bank (count_attempt g) = g_bank g"
  "g_env (count_attempt g) = g_env g" "g_disk (count_attempt g) = g_disk g"
  "EffectiveCharges (g_stats (count_attempt g)) = EffectiveCharges (g_stats g)"
  "Attempts (g_stats (count_attempt g)) = Attempts (g_stats g) + 1"
  by (simp_all add: add_charges_def count_attempt_def)

definition effective :: "gateway \<Rightarrow> int" where
  "effective g = EffectiveCharges (g_stats g)"

definition card_authorized :: "cardResult \<Rightarrow> bool" where
  "card_authorized r \<longleftrightarrow> card_State r = ''AUTHORIZED''"

definition bank_accepted :: "bankResult \<Rightarrow> bool" where
  "bank_accepted r \<longleftrightarrow> bank_Decision r = ''ACCEPTED''"

lemma card_commit_known:
  assumes "g_card g k = Some r" "card_commit ev k g = (g', a)"
  shows "g' = g \<and> (a = Answer r \<or> (\<exists>m. a = Unavailable m))"
  using assms by (auto simp: card_commit_def Let_def split: if_splits)

lemma card_commit_new:
  assumes "g_card g k = None" "card_commit ev k g = (g', a)"
  shows "(g_card g' = g_card g \<and> effective g' = effective g \<and> (\<exists>m. a = Unavailable m)) \<or>
    (\<exists>r. g_card g' = (g_card g)(k \<mapsto> r) \<and> a = Answer r \<and>
      effective g' = effective g + (if card_authorized r then 1 else 0))"
  using assms
  by (auto simp: card_commit_def persistStateLocked_def Let_def effective_def card_authorized_def fun_upd_idem
      split: if_splits)

lemma bank_commit_known:
  assumes "g_bank g k = Some r" "bank_commit ev k g = (g', a)"
  shows "g' = g \<and> (a = Answer r \<or> (\<exists>m. a = Unavailable m))"
  using assms by (auto simp: bank_commit_def Let_def split: if_splits)

lemma bank_commit_new:
  assumes "g_bank g k = None" "bank_commit ev k g = (g', a)"
  shows "(g_bank g' = g_bank g \<and> effective g' = effective g \<and> (\<exists>m. a = Unavailable m)) \<or>
    (\<exists>r. g_bank g' = (g_bank g)(k \<mapsto> r) \<and> a = Answer r \<and>
      effective g' = effective g + (if bank_accepted r then 1 else 0))"
  using assms
  by (auto simp: bank_commit_def persistStateLocked_def Let_def effective_def bank_accepted_def fun_upd_idem
      split: if_splits)

interpretation card: provider card_commit g_card effective card_authorized
  by unfold_locales (use card_commit_known card_commit_new in \<open>blast+\<close>)

interpretation bank: provider bank_commit g_bank effective bank_accepted
  by unfold_locales (use bank_commit_known bank_commit_new in \<open>blast+\<close>)

end
