(* ===== verification/Adapters.thy ===== *)
theory Adapters
  imports Payment_Types Gateway_Mock
begin

text \<open>
  \<open>internal/payments/adapters.go\<close>: the two adapters that turn a payment into a call of an
  external provider and the provider's answer into a status. The network is a parameter.
\<close>

section \<open>Results and provider answers\<close>

record ProviderResult =
  prov_Status :: string
  prov_ProviderRef :: string
  prov_Error :: string

definition provider_result :: "string \<Rightarrow> string \<Rightarrow> string \<Rightarrow> ProviderResult" where
  "provider_result status ref err = \<lparr>prov_Status = status, prov_ProviderRef = ref, prov_Error = err\<rparr>"

lemma provider_result_simps [simp]:
  "prov_Status (provider_result s r e) = s" "prov_ProviderRef (provider_result s r e) = r"
  "prov_Error (provider_result s r e) = e"
  "provider_result s r e = provider_result s' r' e' \<longleftrightarrow> s = s' \<and> r = r' \<and> e = e'"
  by (simp_all add: provider_result_def)

record cardResponse =
  cresp_State :: string
  cresp_AuthorizationID :: string
  cresp_Message :: string

record bankResponse =
  bresp_Decision :: string
  bresp_TransferID :: string
  bresp_Message :: string

definition encode_card_request :: "cardRequest \<Rightarrow> json" where
  "encode_card_request r = JObj (int_member ''amount_minor'' (cr_AmountMinor r)
     @ str_member ''currency'' (cr_Currency r) @ str_member ''reference'' (cr_Reference r)
     @ str_member ''request_id'' (cr_RequestID r))"

definition encode_bank_request :: "bankRequest \<Rightarrow> json" where
  "encode_bank_request r = JObj (int_member ''amount_minor'' (br_AmountMinor r)
     @ str_member ''currency'' (br_Currency r) @ str_member ''reference'' (br_Reference r)
     @ str_member ''transfer_id'' (br_TransferID r))"

definition card_response_fields :: "cardResponse field list" where
  "card_response_fields =
    [(''state'', set_string (\<lambda>s r. r\<lparr>cresp_State := s\<rparr>)),
     (''authorization_id'', set_string (\<lambda>s r. r\<lparr>cresp_AuthorizationID := s\<rparr>)),
     (''message'', set_string (\<lambda>s r. r\<lparr>cresp_Message := s\<rparr>))]"

definition bank_response_fields :: "bankResponse field list" where
  "bank_response_fields =
    [(''decision'', set_string (\<lambda>s r. r\<lparr>bresp_Decision := s\<rparr>)),
     (''transfer_id'', set_string (\<lambda>s r. r\<lparr>bresp_TransferID := s\<rparr>)),
     (''message'', set_string (\<lambda>s r. r\<lparr>bresp_Message := s\<rparr>))]"

definition decode_card_response :: "json \<Rightarrow> cardResponse option" where
  "decode_card_response = decode_struct card_response_fields
     \<lparr>cresp_State = [], cresp_AuthorizationID = [], cresp_Message = []\<rparr>"

definition decode_bank_response :: "json \<Rightarrow> bankResponse option" where
  "decode_bank_response = decode_struct bank_response_fields
     \<lparr>bresp_Decision = [], bresp_TransferID = [], bresp_Message = []\<rparr>"

section \<open>The call\<close>

text \<open>
  \<open>trace\<close> is what \<open>TraceHeadersFromContext\<close> finds. The headers of the request are set in the
  order of the code: content type, credential, trace headers.
\<close>

definition callProvider ::
  "'w network \<Rightarrow> string \<Rightarrow> string \<Rightarrow> header \<Rightarrow> string \<Rightarrow> (string \<Rightarrow> ProviderResult) \<Rightarrow> 'w \<Rightarrow> 'w \<times> ProviderResult" where
  "callProvider net authToken url trace body norm_body w =
     (if net_url_error net url \<noteq> None then (w, provider_result ''PENDING'' [] ''provider request failed'')
      else
        (let h1 = header_set Map.empty ''Content-Type'' ''application/json'';
             h2 = (if trim_space authToken \<noteq> [] then header_set h1 ''X-Gateway-Auth'' authToken else h1);
             h3 = header_assign_all h2 trace;
             (w', answer) = net_send net
               \<lparr>req_method = ''POST'', req_path = url, req_header = h3, req_body = body\<rparr> w
         in case answer of
              Inl err \<Rightarrow> (w', provider_result ''PENDING'' [] ''provider unavailable'')
            | Inr resp \<Rightarrow>
                (let data = limit_read (2 ^ 20) (http_body resp) in
                 if http_status resp \<ge> 500 \<or> http_status resp = 408 \<or> http_status resp = 504
                 then (w', provider_result ''PENDING'' [] ''provider unavailable'')
                 else if http_status resp \<ge> 400 then (w', provider_result ''FAILED'' [] ''provider rejected request'')
                 else (w', norm_body data))))"

definition card_normalize :: "string \<Rightarrow> ProviderResult" where
  "card_normalize body =
     (case Option.bind (unmarshal body) decode_card_response of
        None \<Rightarrow> provider_result ''PENDING'' [] ''provider response invalid''
      | Some out \<Rightarrow>
          (let s = to_upper (cresp_State out) in
           if s = ''AUTHORIZED'' then provider_result ''SUCCEEDED'' (cresp_AuthorizationID out) []
           else if s = ''DECLINED''
           then provider_result ''FAILED'' (cresp_AuthorizationID out) ''card authorization declined''
           else provider_result ''PENDING'' [] ''provider response pending''))"

definition bank_normalize :: "string \<Rightarrow> ProviderResult" where
  "bank_normalize body =
     (case Option.bind (unmarshal body) decode_bank_response of
        None \<Rightarrow> provider_result ''PENDING'' [] ''provider response invalid''
      | Some out \<Rightarrow>
          (let s = to_upper (bresp_Decision out) in
           if s = ''ACCEPTED'' then provider_result ''SUCCEEDED'' (bresp_TransferID out) []
           else if s = ''REJECTED''
           then provider_result ''FAILED'' (bresp_TransferID out) ''bank transfer rejected''
           else provider_result ''PENDING'' [] ''provider response pending''))"

section \<open>The adapters\<close>

text \<open>The client of an adapter is part of the network.\<close>

record CardAdapter =
  card_BaseURL :: string
  card_AuthToken :: string

record BankAdapter =
  bank_BaseURL :: string
  bank_AuthToken :: string

definition card_payload :: "RouterPaymentRequest \<Rightarrow> string \<Rightarrow> string" where
  "card_payload req key = json_text (encode_card_request
     \<lparr>cr_AmountMinor = rtr_AmountMinor req, cr_Currency = rtr_Currency req,
      cr_Reference = rtr_Reference req, cr_RequestID = key\<rparr>)"

definition bank_payload :: "RouterPaymentRequest \<Rightarrow> string \<Rightarrow> string" where
  "bank_payload req key = json_text (encode_bank_request
     \<lparr>br_AmountMinor = rtr_AmountMinor req, br_Currency = rtr_Currency req,
      br_Reference = rtr_Reference req, br_TransferID = key\<rparr>)"

definition card_Charge ::
  "'w network \<Rightarrow> CardAdapter \<Rightarrow> header \<Rightarrow> RouterPaymentRequest \<Rightarrow> string \<Rightarrow> 'w \<Rightarrow> 'w \<times> ProviderResult" where
  "card_Charge net a trace req key w =
     callProvider net (card_AuthToken a)
       (trim_right_chars ''/'' (card_BaseURL a) @ ''/v1/card/authorizations'') trace
       (card_payload req key) card_normalize w"

definition bank_Charge ::
  "'w network \<Rightarrow> BankAdapter \<Rightarrow> header \<Rightarrow> RouterPaymentRequest \<Rightarrow> string \<Rightarrow> 'w \<Rightarrow> 'w \<times> ProviderResult" where
  "bank_Charge net a trace req key w =
     callProvider net (bank_AuthToken a)
       (trim_right_chars ''/'' (bank_BaseURL a) @ ''/v2/transfers'') trace
       (bank_payload req key) bank_normalize w"

section \<open>Lookup of the members\<close>

text \<open>Distinct lower-case names are told apart by the case-insensitive lookup.\<close>

definition provider_names :: "string list" where
  "provider_names = [''amount_minor'', ''currency'', ''reference'', ''request_id'', ''transfer_id'',
     ''state'', ''authorization_id'', ''message'', ''decision'']"

lemma equal_fold_provider_names:
  "n \<in> set provider_names \<Longrightarrow> m \<in> set provider_names \<Longrightarrow> equal_fold n m \<longleftrightarrow> n = m"
proof -
  have "list_all (\<lambda>n. fold_case n = n) provider_names" by code_simp
  then show "n \<in> set provider_names \<Longrightarrow> m \<in> set provider_names \<Longrightarrow> equal_fold n m \<longleftrightarrow> n = m"
    by (simp add: list_all_iff equal_fold_def)
qed

lemma utf8_valid_provider_names: "n \<in> set provider_names \<Longrightarrow> utf8_valid n"
proof -
  have "list_all ascii provider_names" by code_simp
  then show "n \<in> set provider_names \<Longrightarrow> utf8_valid n" by (simp add: list_all_iff utf8_valid_ascii)
qed

lemma in_provider_names [simp]:
  "''amount_minor'' \<in> set provider_names" "''currency'' \<in> set provider_names"
  "''reference'' \<in> set provider_names" "''request_id'' \<in> set provider_names"
  "''transfer_id'' \<in> set provider_names" "''state'' \<in> set provider_names"
  "''authorization_id'' \<in> set provider_names" "''message'' \<in> set provider_names"
  "''decision'' \<in> set provider_names"
  by (simp_all add: provider_names_def)

lemma card_request_lookup [simp]:
  "find_field card_request_fields ''amount_minor'' = Some (set_int64 (\<lambda>i r. r\<lparr>cr_AmountMinor := i\<rparr>))"
  "find_field card_request_fields ''currency'' = Some (set_string (\<lambda>s r. r\<lparr>cr_Currency := s\<rparr>))"
  "find_field card_request_fields ''reference'' = Some (set_string (\<lambda>s r. r\<lparr>cr_Reference := s\<rparr>))"
  "find_field card_request_fields ''request_id'' = Some (set_string (\<lambda>s r. r\<lparr>cr_RequestID := s\<rparr>))"
  by (simp_all add: card_request_fields_def equal_fold_provider_names)

lemma bank_request_lookup [simp]:
  "find_field bank_request_fields ''amount_minor'' = Some (set_int64 (\<lambda>i r. r\<lparr>br_AmountMinor := i\<rparr>))"
  "find_field bank_request_fields ''currency'' = Some (set_string (\<lambda>s r. r\<lparr>br_Currency := s\<rparr>))"
  "find_field bank_request_fields ''reference'' = Some (set_string (\<lambda>s r. r\<lparr>br_Reference := s\<rparr>))"
  "find_field bank_request_fields ''transfer_id'' = Some (set_string (\<lambda>s r. r\<lparr>br_TransferID := s\<rparr>))"
  by (simp_all add: bank_request_fields_def equal_fold_provider_names)

lemma card_response_lookup [simp]:
  "find_field card_response_fields ''state'' = Some (set_string (\<lambda>s r. r\<lparr>cresp_State := s\<rparr>))"
  "find_field card_response_fields ''authorization_id'' = Some (set_string (\<lambda>s r. r\<lparr>cresp_AuthorizationID := s\<rparr>))"
  "find_field card_response_fields ''message'' = Some (set_string (\<lambda>s r. r\<lparr>cresp_Message := s\<rparr>))"
  by (simp_all add: card_response_fields_def equal_fold_provider_names)

lemma bank_response_lookup [simp]:
  "find_field bank_response_fields ''decision'' = Some (set_string (\<lambda>s r. r\<lparr>bresp_Decision := s\<rparr>))"
  "find_field bank_response_fields ''transfer_id'' = Some (set_string (\<lambda>s r. r\<lparr>bresp_TransferID := s\<rparr>))"
  "find_field bank_response_fields ''message'' = Some (set_string (\<lambda>s r. r\<lparr>bresp_Message := s\<rparr>))"
  by (simp_all add: bank_response_fields_def equal_fold_provider_names)

section \<open>Round trips with the provider\<close>

lemma decode_encode_card_request:
  "in_int64 (cr_AmountMinor r) \<Longrightarrow> decode_card_request (encode_card_request r) = Some r"
  by (simp add: decode_card_request_def decode_struct_def encode_card_request_def assign_append)

lemma decode_encode_bank_request:
  "in_int64 (br_AmountMinor r) \<Longrightarrow> decode_bank_request (encode_bank_request r) = Some r"
  by (simp add: decode_bank_request_def decode_struct_def encode_bank_request_def assign_append)

definition card_response_of :: "cardResult \<Rightarrow> cardResponse" where
  "card_response_of r = \<lparr>cresp_State = card_State r, cresp_AuthorizationID = card_AuthorizationID r,
     cresp_Message = card_Message r\<rparr>"

definition bank_response_of :: "bankResult \<Rightarrow> bankResponse" where
  "bank_response_of r = \<lparr>bresp_Decision = bank_Decision r, bresp_TransferID = bank_TransferID r,
     bresp_Message = bank_Message r\<rparr>"

lemma decode_encode_card: "decode_card_response (encode_card r) = Some (card_response_of r)"
  by (simp add: decode_card_response_def decode_struct_def encode_card_def assign_append card_response_of_def)

lemma decode_encode_bank: "decode_bank_response (encode_bank r) = Some (bank_response_of r)"
  by (simp add: decode_bank_response_def decode_struct_def encode_bank_def assign_append bank_response_of_def)

lemma json_ok_card_request:
  "utf8_valid (cr_Currency r) \<Longrightarrow> utf8_valid (cr_Reference r) \<Longrightarrow> utf8_valid (cr_RequestID r) \<Longrightarrow>
   json_ok (encode_card_request r)"
  by (simp add: encode_card_request_def str_member_def int_member_def utf8_valid_provider_names)

lemma json_ok_bank_request:
  "utf8_valid (br_Currency r) \<Longrightarrow> utf8_valid (br_Reference r) \<Longrightarrow> utf8_valid (br_TransferID r) \<Longrightarrow>
   json_ok (encode_bank_request r)"
  by (simp add: encode_bank_request_def str_member_def int_member_def utf8_valid_provider_names)

lemma json_ok_card:
  "utf8_valid (card_State r) \<Longrightarrow> utf8_valid (card_AuthorizationID r) \<Longrightarrow> utf8_valid (card_Message r) \<Longrightarrow>
   json_ok (encode_card r)"
  by (simp add: encode_card_def str_member_def str_omitempty_def utf8_valid_provider_names)

lemma json_ok_bank:
  "utf8_valid (bank_Decision r) \<Longrightarrow> utf8_valid (bank_TransferID r) \<Longrightarrow> utf8_valid (bank_Message r) \<Longrightarrow>
   json_ok (encode_bank r)"
  by (simp add: encode_bank_def str_member_def str_omitempty_def utf8_valid_provider_names)

text \<open>What the provider decodes from the payload of an adapter.\<close>

lemma Decode_card_payload:
  assumes "router_text req" "utf8_valid key" "req_body r = card_payload req key"
  shows "\<exists>c. Decode decode_card_request r = Some c \<and> cr_RequestID c = key \<and>
    cr_AmountMinor c = rtr_AmountMinor req"
  using assms decode_first_text [OF json_ok_card_request, of _ "[]"]
  by (simp add: Decode_def card_payload_def decode_encode_card_request router_text_def)

lemma Decode_bank_payload:
  assumes "router_text req" "utf8_valid key" "req_body r = bank_payload req key"
  shows "\<exists>c. Decode decode_bank_request r = Some c \<and> br_TransferID c = key \<and>
    br_AmountMinor c = rtr_AmountMinor req"
  using assms decode_first_text [OF json_ok_bank_request, of _ "[]"]
  by (simp add: Decode_def bank_payload_def decode_encode_bank_request router_text_def)

text \<open>What an adapter makes of an answer of the provider.\<close>

lemma card_normalize_answer:
  "json_ok (encode_card r) \<Longrightarrow> card_normalize (http_body (JSON st (encode_card r))) =
   (if to_upper (card_State r) = ''AUTHORIZED'' then provider_result ''SUCCEEDED'' (card_AuthorizationID r) []
    else if to_upper (card_State r) = ''DECLINED''
    then provider_result ''FAILED'' (card_AuthorizationID r) ''card authorization declined''
    else provider_result ''PENDING'' [] ''provider response pending'')"
  by (simp add: card_normalize_def decode_encode_card card_response_of_def)

lemma bank_normalize_answer:
  "json_ok (encode_bank r) \<Longrightarrow> bank_normalize (http_body (JSON st (encode_bank r))) =
   (if to_upper (bank_Decision r) = ''ACCEPTED'' then provider_result ''SUCCEEDED'' (bank_TransferID r) []
    else if to_upper (bank_Decision r) = ''REJECTED''
    then provider_result ''FAILED'' (bank_TransferID r) ''bank transfer rejected''
    else provider_result ''PENDING'' [] ''provider response pending'')"
  by (simp add: bank_normalize_def decode_encode_bank bank_response_of_def)

section \<open>What an adapter reports\<close>

text \<open>
  An adapter gives one of the three statuses; when the provider's answer leaves the outcome
  open (no answer, a server error, a timeout status) the status is PENDING.
\<close>

definition uncertain :: "string + http_response \<Rightarrow> bool" where
  "uncertain answer = (case answer of Inl _ \<Rightarrow> True
     | Inr resp \<Rightarrow> http_status resp \<ge> 500 \<or> http_status resp = 408)"

definition provider_request :: "string \<Rightarrow> string \<Rightarrow> header \<Rightarrow> string \<Rightarrow> http_request" where
  "provider_request authToken url trace body =
     \<lparr>req_method = ''POST'', req_path = url,
      req_header = header_assign_all
        (if trim_space authToken \<noteq> []
         then header_set (header_set Map.empty ''Content-Type'' ''application/json'') ''X-Gateway-Auth'' authToken
         else header_set Map.empty ''Content-Type'' ''application/json'') trace,
      req_body = body\<rparr>"

lemma callProvider_cases:
  "callProvider net tok url trace body f w =
    (if net_url_error net url \<noteq> None then (w, provider_result ''PENDING'' [] ''provider request failed'')
     else let (w', answer) = net_send net (provider_request tok url trace body) w in
       (w', if uncertain answer then provider_result ''PENDING'' [] ''provider unavailable''
            else case answer of Inl err \<Rightarrow> provider_result ''PENDING'' [] ''provider unavailable''
              | Inr resp \<Rightarrow> if http_status resp \<ge> 400 then provider_result ''FAILED'' [] ''provider rejected request''
                  else f (limit_read (2 ^ 20) (http_body resp))))"
  by (auto simp: callProvider_def provider_request_def uncertain_def Let_def split: prod.splits sum.splits)

lemma card_normalize_status: "prov_Status (card_normalize body) \<in> {''SUCCEEDED'', ''FAILED'', ''PENDING''}"
  by (simp add: card_normalize_def Let_def split: option.splits)

lemma bank_normalize_status: "prov_Status (bank_normalize body) \<in> {''SUCCEEDED'', ''FAILED'', ''PENDING''}"
  by (simp add: bank_normalize_def Let_def split: option.splits)

lemma callProvider_status:
  "(\<And>b. prov_Status (f b) \<in> {''SUCCEEDED'', ''FAILED'', ''PENDING''}) \<Longrightarrow>
   prov_Status (snd (callProvider net tok url trace body f w)) \<in> {''SUCCEEDED'', ''FAILED'', ''PENDING''}"
  by (simp add: callProvider_cases Let_def split: prod.splits sum.splits)

end
