(* ===== verification/Circuit.thy ===== *)
theory Circuit
  imports Mesh_Prelude
begin

text \<open>
  \<open>internal/payments/circuit.go\<close>: the circuit breaker of the router. Times are nanoseconds
  of a monotonic clock; the zero \<open>time.Time\<close> of a closed circuit is \<open>None\<close>. Each method
  runs under the mutex, so it is one step on the state.
\<close>

section \<open>The breaker\<close>

record Circuit =
  failures :: int
  openedAt :: "int option"
  threshold :: int
  cooldown :: int

definition NewCircuit :: "int \<Rightarrow> int \<Rightarrow> Circuit" where
  "NewCircuit thr cd = \<lparr>failures = 0, openedAt = None, threshold = thr, cooldown = cd\<rparr>"

definition Allow :: "int \<Rightarrow> Circuit \<Rightarrow> bool \<times> Circuit" where
  "Allow now c =
     (case openedAt c of
        None \<Rightarrow> (True, c)
      | Some t \<Rightarrow>
          if now - t \<ge> cooldown c then (True, c\<lparr>openedAt := None, failures := 0\<rparr>)
          else (False, c))"

definition Success :: "Circuit \<Rightarrow> Circuit" where
  "Success c = c\<lparr>failures := 0, openedAt := None\<rparr>"

definition Failure :: "int \<Rightarrow> Circuit \<Rightarrow> Circuit" where
  "Failure now c =
     (let c' = c\<lparr>failures := failures c + 1\<rparr>
      in if failures c' \<ge> threshold c' then c'\<lparr>openedAt := Some now\<rparr> else c')"

text \<open>The calls a breaker receives, in the order its mutex admits them.\<close>

datatype call = CAllow int | CSuccess | CFailure int

fun circuit_step :: "Circuit \<Rightarrow> call \<Rightarrow> Circuit" where
  "circuit_step c (CAllow now) = snd (Allow now c)"
| "circuit_step c CSuccess = Success c"
| "circuit_step c (CFailure now) = Failure now c"

definition circuit_run :: "Circuit \<Rightarrow> call list \<Rightarrow> Circuit" where
  "circuit_run c calls = foldl circuit_step c calls"

section \<open>Its specification: closed with a count, or open since a time\<close>

datatype breaker_view = Closed nat | Open int

fun view_step :: "int \<Rightarrow> int \<Rightarrow> breaker_view \<Rightarrow> call \<Rightarrow> breaker_view" where
  "view_step thr cd (Closed n) (CAllow now) = Closed n"
| "view_step thr cd (Open t) (CAllow now) = (if now < t + cd then Open t else Closed 0)"
| "view_step thr cd v CSuccess = Closed 0"
| "view_step thr cd (Closed n) (CFailure now) = (if int n + 1 < thr then Closed (n + 1) else Open now)"
| "view_step thr cd (Open t) (CFailure now) = Open now"

fun admits :: "int \<Rightarrow> breaker_view \<Rightarrow> int \<Rightarrow> bool" where
  "admits cd (Closed n) now = True"
| "admits cd (Open t) now = (t + cd \<le> now)"

definition view :: "Circuit \<Rightarrow> breaker_view" where
  "view c = (case openedAt c of None \<Rightarrow> Closed (nat (failures c)) | Some t \<Rightarrow> Open t)"

definition circuit_inv :: "Circuit \<Rightarrow> bool" where
  "circuit_inv c \<longleftrightarrow>
     0 < threshold c \<and> 0 \<le> failures c \<and> (openedAt c = None \<longleftrightarrow> failures c < threshold c)"

lemma circuit_inv_New [simp]: "0 < thr \<Longrightarrow> circuit_inv (NewCircuit thr cd)"
  by (simp add: circuit_inv_def NewCircuit_def)

lemma circuit_parameters [simp]:
  "threshold (circuit_step c e) = threshold c" "cooldown (circuit_step c e) = cooldown c"
  by (cases e; simp add: Allow_def Success_def Failure_def Let_def split: option.split)+

lemma circuit_step_inv: "circuit_inv c \<Longrightarrow> circuit_inv (circuit_step c e)"
  by (cases e) (auto simp: circuit_inv_def Allow_def Success_def Failure_def Let_def split: option.split)

lemma circuit_step_view:
  "circuit_inv c \<Longrightarrow> view (circuit_step c e) = view_step (threshold c) (cooldown c) (view c) e"
  by (cases e) (auto simp: circuit_inv_def view_def Allow_def Success_def Failure_def Let_def
      nat_add_distrib split: option.split)

lemma Allow_admits: "fst (Allow now c) = admits (cooldown c) (view c) now"
  by (auto simp: Allow_def view_def split: option.split)

lemma circuit_run_parameters [simp]:
  "threshold (circuit_run c es) = threshold c" "cooldown (circuit_run c es) = cooldown c"
  by (induction es arbitrary: c) (simp_all add: circuit_run_def)

lemma circuit_run_inv: "circuit_inv c \<Longrightarrow> circuit_inv (circuit_run c es)"
  by (induction es arbitrary: c) (simp_all add: circuit_run_def circuit_step_inv)

lemma circuit_run_view:
  "circuit_inv c \<Longrightarrow>
   view (circuit_run c es) = foldl (view_step (threshold c) (cooldown c)) (view c) es"
  by (induction es arbitrary: c) (simp_all add: circuit_run_def circuit_step_inv circuit_step_view)

section \<open>The interface the router relies on\<close>

text \<open>
  A breaker tells its caller whether to call the provider and is told how the call went.
  \<open>blocked_until\<close> is the time before which it refuses calls.
\<close>

locale breaker =
  fixes allow :: "int \<Rightarrow> 'b \<Rightarrow> bool \<times> 'b"
    and success :: "'b \<Rightarrow> 'b"
    and failure :: "int \<Rightarrow> 'b \<Rightarrow> 'b"
    and blocked_until :: "'b \<Rightarrow> int option"
    and good :: "'b \<Rightarrow> bool"
  assumes allow_iff: "good b \<Longrightarrow> fst (allow now b) \<longleftrightarrow> (case blocked_until b of None \<Rightarrow> True | Some t \<Rightarrow> t \<le> now)"
    and refuse_keeps: "good b \<Longrightarrow> \<not> fst (allow now b) \<Longrightarrow> snd (allow now b) = b"
    and allow_opens: "good b \<Longrightarrow> fst (allow now b) \<Longrightarrow> blocked_until (snd (allow now b)) = None"
    and success_closes: "good b \<Longrightarrow> blocked_until (success b) = None"
    and good_allow: "good b \<Longrightarrow> good (snd (allow now b))"
    and good_success: "good b \<Longrightarrow> good (success b)"
    and good_failure: "good b \<Longrightarrow> good (failure now b)"
begin

text \<open>Until the time is up, any number of attempts are refused and change nothing.\<close>

fun attempts :: "int list \<Rightarrow> 'b \<Rightarrow> bool list \<times> 'b" where
  "attempts [] b = ([], b)"
| "attempts (t # ts) b =
     (let (ok, b') = allow t b; (oks, b'') = attempts ts b' in (ok # oks, b''))"

lemma attempts_refused:
  assumes "good b" "blocked_until b = Some u" "\<forall>t \<in> set ts. t < u"
  shows "attempts ts b = (replicate (length ts) False, b)"
  using assms(3)
proof (induction ts)
  case (Cons t ts)
  then have "\<not> fst (allow t b)" using assms(1,2) by (simp add: allow_iff)
  then have "allow t b = (False, b)"
    using refuse_keeps [OF assms(1)] by (metis (full_types) prod.collapse)
  with Cons show ?case by simp
qed simp

lemma allowed_after: "good b \<Longrightarrow> blocked_until b = Some u \<Longrightarrow> u \<le> t \<Longrightarrow> fst (allow t b)"
  by (simp add: allow_iff)

lemma success_allows: "good b \<Longrightarrow> fst (allow t (success b))"
  by (simp add: allow_iff good_success success_closes)

end

definition blocked_until :: "Circuit \<Rightarrow> int option" where
  "blocked_until c = map_option (\<lambda>t. t + cooldown c) (openedAt c)"

interpretation cb: breaker Allow Success Failure blocked_until circuit_inv
proof unfold_locales
  fix c :: Circuit and now
  assume inv: "circuit_inv c"
  show "circuit_inv (snd (Allow now c))" using circuit_step_inv [OF inv, of "CAllow now"] by simp
  show "circuit_inv (Success c)" using circuit_step_inv [OF inv, of CSuccess] by simp
  show "circuit_inv (Failure now c)" using circuit_step_inv [OF inv, of "CFailure now"] by simp
qed (auto simp: Allow_def Success_def blocked_until_def split: option.splits if_splits)

section \<open>Opening\<close>

text \<open>\<open>n\<close> failures in a row of a closed breaker whose count is zero.\<close>

lemma view_failures:
  assumes "int (length ts) < thr"
  shows "foldl (view_step thr cd) (Closed n) (map CFailure ts) = Closed (n + length ts)
         \<or> thr \<le> int n + int (length ts)"
  using assms
proof (induction ts arbitrary: n)
  case (Cons t ts)
  show ?case
  proof (cases "int n + 1 < thr")
    case True
    with Cons.prems Cons.IH [of "n + 1"] show ?thesis by auto
  qed auto
qed simp

lemma view_open_failures:
  "foldl (view_step thr cd) (Open t) (map CFailure ts) = Open (last (t # ts))"
  by (induction ts arbitrary: t) auto

lemma view_opens_at_threshold:
  assumes "0 < thr" "int (length ts) = thr"
  shows "foldl (view_step thr cd) (Closed 0) (map CFailure ts) = Open (last ts)"
proof -
  from assms obtain us t where ts: "ts = us @ [t]" by (cases ts rule: rev_cases) auto
  with assms view_failures [of us thr cd 0]
  have "foldl (view_step thr cd) (Closed 0) (map CFailure us) = Closed (length us)" by auto
  with ts assms show ?thesis by simp
qed

end
