(* ===== verification/Router.thy ===== *)
theory Router
  imports Database Adapters Circuit
begin

text \<open>
  \<open>cmd/payment-router/main.go\<close>: one row per idempotency key, reserved as PENDING before the
  provider is called and settled afterwards. The handler \<open>create\<close> is composed of the parts
  the code has between its effects: the checks before the database, the reservation
  transaction, the charge, the recording of the result. What the environment decides about
  a request is a \<open>router_event\<close>.
\<close>

unbundle bit_operations_syntax

section \<open>Durations and identifiers\<close>

text \<open>\<open>time.ParseDuration\<close>, in nanoseconds; a fraction is cut to whole nanoseconds.\<close>

definition duration_unit :: "string \<Rightarrow> nat option" where
  "duration_unit u =
     (if u = ''ns'' then Some 1
      else if u = ''us'' \<or> u = [CHR 0xC2, CHR 0xB5, CHR ''s''] \<or> u = [CHR 0xCE, CHR 0xBC, CHR ''s''] then Some 1000
      else if u = ''ms'' then Some 1000000
      else if u = ''s'' then Some 1000000000
      else if u = ''m'' then Some 60000000000
      else if u = ''h'' then Some 3600000000000
      else None)"

definition unit_char :: "char \<Rightarrow> bool" where
  "unit_char c \<longleftrightarrow> c \<noteq> CHR ''.'' \<and> \<not> is_digit c"

definition after_number :: "string \<Rightarrow> string" where
  "after_number s =
     (let t = dropWhile is_digit s
      in if take 1 t = ''.'' then dropWhile is_digit (drop 1 t) else t)"

definition fraction_digits :: "string \<Rightarrow> string" where
  "fraction_digits s =
     (let t = dropWhile is_digit s in if take 1 t = ''.'' then takeWhile is_digit (drop 1 t) else [])"

function duration_loop :: "nat \<Rightarrow> string \<Rightarrow> nat option" where
  "duration_loop d [] = Some d"
| "duration_loop d (c # s) =
     (let ints = takeWhile is_digit (c # s); frac = fraction_digits (c # s);
          t = after_number (c # s); v = digits_val ints
      in if \<not> (c = CHR ''.'' \<or> is_digit c) then None
         else if v > 2 ^ 63 then None
         else if ints = [] \<and> frac = [] then None
         else case duration_unit (takeWhile unit_char t) of
           None \<Rightarrow> None
         | Some u \<Rightarrow>
             (if v > 2 ^ 63 div u then None
              else (let v' = v * u + digits_val frac * u div 10 ^ length frac
                    in if v' > 2 ^ 63 \<or> d + v' > 2 ^ 63 then None
                       else duration_loop (d + v') (dropWhile unit_char t))))"
  by pat_completeness auto
termination
proof (relation "measure (\<lambda>(d, s). length s)", goal_cases)
  case (2 d c s ints frac t v u v')
  have "length (dropWhile p xs) \<le> length xs" for p and xs :: string
    by (rule length_dropWhile_le)
  then have le: "length (dropWhile unit_char t) \<le> length t" .
  have "length t < length (c # s)"
  proof (cases "is_digit c")
    case True
    then show ?thesis
      using length_dropWhile_le [of is_digit s] length_dropWhile_le [of is_digit "drop 1 (dropWhile is_digit s)"]
      unfolding 2(3) after_number_def Let_def by auto
  next
    case False
    with 2(5) have "c = CHR ''.''" by blast
    with False show ?thesis
      using length_dropWhile_le [of is_digit s]
      unfolding 2(3) after_number_def Let_def by auto
  qed
  with le show ?case by simp
qed simp

definition parse_duration :: "string \<Rightarrow> int option" where
  "parse_duration s =
     (let neg = (take 1 s = ''-''); t = (if neg \<or> take 1 s = ''+'' then drop 1 s else s)
      in if t = ''0'' then Some 0
         else if t = [] then None
         else case duration_loop 0 t of
           None \<Rightarrow> None
         | Some d \<Rightarrow> if neg then Some (- int d) else if d > 2 ^ 63 - 1 then None else Some (int d))"

definition defaultPendingRecoveryAfter :: int where
  "defaultPendingRecoveryAfter = 30 * 1000000000"

definition pendingRecoveryAfter :: "(string \<Rightarrow> string) \<Rightarrow> int" where
  "pendingRecoveryAfter env =
     (let val = trim_space (env ''PENDING_RECOVERY_AFTER'') in
      if val = [] then defaultPendingRecoveryAfter
      else case parse_duration val of
        None \<Rightarrow> defaultPendingRecoveryAfter
      | Some d \<Rightarrow> if d < 0 then defaultPendingRecoveryAfter else d)"

definition gatewayFor :: "string \<Rightarrow> string" where
  "gatewayFor instrument =
     (let i = to_lower instrument in
      if i = ''bank_transfer'' \<or> i = ''bank'' \<or> i = ''pse'' then ''gateway-bank'' else ''gateway-card'')"

text \<open>\<open>newUUID\<close>, of 16 random bytes.\<close>

definition hex_byte :: "8 word \<Rightarrow> string" where
  "hex_byte b = [hex_char (unat b div 16), hex_char (unat b mod 16)]"

definition newUUID :: "8 word list \<Rightarrow> string" where
  "newUUID bytes =
     (let b1 = bytes[6 := (bytes ! 6 AND 0x0f) OR 0x40];
          b2 = b1[8 := (b1 ! 8 AND 0x3f) OR 0x80];
          h = concat (map hex_byte b2)
      in take 8 h @ ''-'' @ take 4 (drop 8 h) @ ''-'' @ take 4 (drop 12 h) @ ''-''
         @ take 4 (drop 16 h) @ ''-'' @ drop 20 h)"

section \<open>The table of payments\<close>

record payment_row =
  row_id :: string
  row_key :: string
  row_hash :: string
  row_amount_minor :: int
  row_currency :: string
  row_instrument :: string
  row_participant_id :: string
  row_debtor :: string
  row_creditor :: string
  row_reference :: string
  row_status :: string
  row_gateway :: string
  row_provider_ref :: "string option"
  row_error :: "string option"
  row_created_at :: int
  row_updated_at :: int

definition select_by_key :: "string \<Rightarrow> payment_row list \<Rightarrow> payment_row option" where
  "select_by_key key rows = find (\<lambda>r. row_key r = key) rows"

definition select_by_id :: "string \<Rightarrow> payment_row list \<Rightarrow> payment_row option" where
  "select_by_id pid rows = find (\<lambda>r. row_id r = pid) rows"

text \<open>The columns the reservation reads.\<close>

definition existing_of :: "payment_row \<Rightarrow> PaymentResponse" where
  "existing_of row = \<lparr>pay_ID = row_id row, pay_IdempotencyKey = row_key row, pay_Status = row_status row,
     pay_Gateway = row_gateway row, pay_ProviderRef = coalesce (row_provider_ref row),
     pay_Error = coalesce (row_error row), pay_CreatedAt = []\<rparr>"

text \<open>\<open>UPDATE ... SET error, updated_at WHERE id AND status='PENDING' RETURNING updated_at\<close>.\<close>

definition claim_pending :: "int \<Rightarrow> string \<Rightarrow> payment_row list \<Rightarrow> int option \<times> payment_row list" where
  "claim_pending now pid rows =
     (let hit = (\<lambda>r. row_id r = pid \<and> row_status r = ''PENDING'') in
      (if count_where hit rows = 0 then None else Some now,
       update_where hit (\<lambda>r. r\<lparr>row_error := Some ''recovering payment'', row_updated_at := now\<rparr>) rows))"

text \<open>The INSERT of a reservation; \<open>None\<close> when a key is taken or a text is refused.\<close>

definition insert_payment ::
  "int \<Rightarrow> string \<Rightarrow> string \<Rightarrow> string \<Rightarrow> RouterPaymentRequest \<Rightarrow> string \<Rightarrow> payment_row list \<Rightarrow> payment_row list option" where
  "insert_payment now pid key hash req gateway rows =
     (let row = \<lparr>row_id = pid, row_key = key, row_hash = hash, row_amount_minor = rtr_AmountMinor req,
            row_currency = to_upper (rtr_Currency req), row_instrument = rtr_Instrument req,
            row_participant_id = rtr_DebtorParticipantID req, row_debtor = rtr_DebtorParticipantID req,
            row_creditor = rtr_CreditorParticipantID req, row_reference = rtr_Reference req,
            row_status = ''PENDING'', row_gateway = gateway, row_provider_ref = None, row_error = None,
            row_created_at = now, row_updated_at = now\<rparr>
      in if list_ex (\<lambda>r. row_id r = pid \<or> row_key r = key) rows then None
         else if \<not> list_all pg_text [key, row_currency row, rtr_Instrument req, rtr_DebtorParticipantID req,
              rtr_CreditorParticipantID req, rtr_Reference req] then None
         else Some (rows @ [row]))"

text \<open>
  \<open>UPDATE ... WHERE id AND status='PENDING' AND updated_at=lease\<close>: whether a row is rewritten,
  and how.
\<close>

definition lease_held :: "string \<Rightarrow> int \<Rightarrow> payment_row \<Rightarrow> bool" where
  "lease_held pid lease r \<longleftrightarrow> row_id r = pid \<and> row_status r = ''PENDING'' \<and> row_updated_at r = lease"

definition settle :: "int \<Rightarrow> PaymentResponse \<Rightarrow> payment_row \<Rightarrow> payment_row" where
  "settle now result r = r\<lparr>row_status := pay_Status result, row_provider_ref := Some (pay_ProviderRef result),
     row_error := Some (pay_Error result), row_updated_at := now\<rparr>"

definition update_result :: "int \<Rightarrow> string \<Rightarrow> int \<Rightarrow> PaymentResponse \<Rightarrow> payment_row list \<Rightarrow> payment_row list" where
  "update_result now pid lease result rows = update_where (lease_held pid lease) (settle now result) rows"

section \<open>State, configuration, events\<close>

type_synonym 'w charger = "header \<Rightarrow> RouterPaymentRequest \<Rightarrow> string \<Rightarrow> 'w \<Rightarrow> 'w \<times> ProviderResult"

record 'w router_config =
  rc_sha :: "string \<Rightarrow> string"              \<comment> \<open>SHA-256 in hexadecimal\<close>
  rc_uuid_in :: "string \<Rightarrow> string option"   \<comment> \<open>what PostgreSQL reads as a UUID\<close>
  rc_env :: "string \<Rightarrow> string"
  rc_adapters :: "string \<Rightarrow> 'w charger option"
  rc_breakerEnabled :: bool

record router =
  r_rows :: "payment_row list"
  r_circuits :: "string \<Rightarrow> Circuit option"
  r_metrics :: Metrics

record router_event =
  re_conn :: bool
  re_lock :: bool
  re_begin :: bool
  re_select :: bool
  re_claim :: bool
  re_insert :: bool
  re_commit :: outcome
  re_persist :: outcome
  re_now :: int            \<comment> \<open>\<open>now()\<close> of the transaction, microseconds\<close>
  re_clock :: int          \<comment> \<open>the clock of the router at \<open>time.Since\<close>, nanoseconds\<close>
  re_persist_now :: int    \<comment> \<open>\<open>now()\<close> of the last UPDATE\<close>
  re_random :: "8 word list"
  re_allow_at :: int       \<comment> \<open>the clock in \<open>Allow\<close>\<close>
  re_failure_at :: int     \<comment> \<open>the clock in \<open>Failure\<close>\<close>
  re_latency :: int

section \<open>The reservation\<close>

datatype reservation =
    Refuse nat string
  | Replay PaymentResponse
  | Reserved (res_id: string) (res_gateway: string) (res_created: int) (res_lease: int)

definition with_created :: "int \<Rightarrow> PaymentResponse \<Rightarrow> PaymentResponse" where
  "with_created created p = p\<lparr>pay_CreatedAt := rfc3339nano created\<rparr>"

definition normalized :: "PaymentResponse \<Rightarrow> PaymentResponse" where
  "normalized p = p\<lparr>pay_Status := NormalizeStatus (pay_Status p)\<rparr>"

definition committed :: "outcome \<Rightarrow> reservation \<Rightarrow> payment_row list \<Rightarrow> payment_row list \<Rightarrow> reservation \<times> payment_row list" where
  "committed out res rows rows' =
     (if reported_ok out then res else Refuse 500 ''database commit failed'',
      if takes_effect out then rows' else rows)"

text \<open>The transaction, from the SELECT to the COMMIT; \<open>recovery\<close> is \<open>pendingRecoveryAfter()\<close>.\<close>

definition reserve ::
  "int \<Rightarrow> router_event \<Rightarrow> string \<Rightarrow> string \<times> string \<times> string \<Rightarrow> RouterPaymentRequest \<Rightarrow> payment_row list \<Rightarrow>
   reservation \<times> payment_row list" where
  "reserve recovery ev key hashes req rows =
     (let (hash, legacyHash, legacyCanonicalHash) = hashes in
      if \<not> re_select ev then (Refuse 500 ''database read failed'', rows)
      else case select_by_key key rows of
        Some row \<Rightarrow>
          if row_hash row \<noteq> hash \<and> row_hash row \<noteq> legacyHash \<and> row_hash row \<noteq> legacyCanonicalHash
          then (Refuse 409 ''idempotency key already used with another payload'', rows)
          else
            (let existing = with_created (row_created_at row) (normalized (existing_of row)) in
             if pay_Status existing = ''PENDING'' \<and> re_clock ev - row_updated_at row * 1000 \<ge> recovery then
               (case (if re_claim ev then claim_pending (re_now ev) (row_id row) rows else (None, rows)) of
                  (None, _) \<Rightarrow> (Refuse 500 ''could not claim pending payment'', rows)
                | (Some lease, rows') \<Rightarrow>
                    committed (re_commit ev)
                      (Reserved (row_id row) (row_gateway row) (row_created_at row) lease) rows rows')
             else committed (re_commit ev) (Replay existing) rows rows)
      | None \<Rightarrow>
          (let pid = newUUID (re_random ev); gateway = gatewayFor (rtr_Instrument req) in
           case (if re_insert ev then insert_payment (re_now ev) pid key hash req gateway rows else None) of
             None \<Rightarrow> (Refuse 500 ''database insert failed'', rows)
           | Some rows' \<Rightarrow>
               committed (re_commit ev) (Reserved pid gateway (re_now ev) (re_now ev)) rows rows'))"

section \<open>The charge\<close>

definition pending_result :: "string \<Rightarrow> string \<Rightarrow> PaymentResponse" where
  "pending_result ref err = zero_payment\<lparr>pay_Status := ''PENDING'', pay_ProviderRef := ref, pay_Error := err\<rparr>"

text \<open>The breaker is asked before the call, under its mutex.\<close>

definition charge_admit ::
  "bool \<Rightarrow> int \<Rightarrow> string \<Rightarrow> (string \<Rightarrow> Circuit option) \<Rightarrow> bool \<times> (string \<Rightarrow> Circuit option)" where
  "charge_admit enabled now gateway circuits =
     (if \<not> enabled then (True, circuits)
      else case circuits gateway of
        None \<Rightarrow> (False, circuits)
      | Some c \<Rightarrow> (let (ok, c') = Allow now c in (ok, circuits(gateway \<mapsto> c'))))"

text \<open>After the call it is told the outcome.\<close>

definition charge_report ::
  "bool \<Rightarrow> int \<Rightarrow> string \<Rightarrow> ProviderResult \<Rightarrow> (string \<Rightarrow> Circuit option) \<Rightarrow>
   PaymentResponse \<times> (string \<Rightarrow> Circuit option)" where
  "charge_report enabled now gateway result circuits =
     (let status = NormalizeStatus (prov_Status result) in
      if status = ''PENDING'' then
        (pending_result (prov_ProviderRef result)
           (if prov_Error result = [] then ''provider response uncertain'' else prov_Error result),
         if enabled then circuits(gateway := map_option (Failure now) (circuits gateway)) else circuits)
      else
        (zero_payment\<lparr>pay_Status := status, pay_ProviderRef := prov_ProviderRef result, pay_Error := prov_Error result\<rparr>,
         if enabled then circuits(gateway := map_option Success (circuits gateway)) else circuits))"

text \<open>No result: the call of an adapter that is not there panics.\<close>

definition charge ::
  "'w router_config \<Rightarrow> router_event \<Rightarrow> http_request \<Rightarrow> RouterPaymentRequest \<Rightarrow> string \<Rightarrow> string \<Rightarrow>
   router \<Rightarrow> 'w \<Rightarrow> (router \<times> 'w) \<times> PaymentResponse option" where
  "charge cfg ev r req key gateway s w =
     (let (admitted, circuits) = charge_admit (rc_breakerEnabled cfg) (re_allow_at ev) gateway (r_circuits s);
          s1 = s\<lparr>r_circuits := circuits\<rparr>
      in if \<not> admitted then ((s1, w), Some (pending_result [] ''gateway circuit open''))
         else case rc_adapters cfg gateway of
           None \<Rightarrow> ((s1, w), None)
         | Some call_provider \<Rightarrow>
             (let providerContext = ContextWithTraceHeaders None (TraceHeaders r);
                  (w', result) = call_provider (TraceHeadersFromContext providerContext) req key w;
                  (res, circuits') = charge_report (rc_breakerEnabled cfg) (re_failure_at ev) gateway result (r_circuits s1)
              in ((s1\<lparr>r_circuits := circuits'\<rparr>, w'), Some res)))"

section \<open>Recording the result\<close>

text \<open>Whether it was recorded, for sure, and the table afterwards.\<close>

definition persistResultConn ::
  "router_event \<Rightarrow> string \<Rightarrow> PaymentResponse \<Rightarrow> int \<Rightarrow> payment_row list \<Rightarrow> bool \<times> payment_row list" where
  "persistResultConn ev pid result0 lease rows =
     (let result = normalized result0 in
      if \<not> (pg_text (pay_ProviderRef result) \<and> pg_text (pay_Error result)) then (False, rows)
      else (reported_ok (re_persist ev) \<and> count_where (lease_held pid lease) rows = 1,
            if takes_effect (re_persist ev) then update_result (re_persist_now ev) pid lease result rows else rows))"

definition unrecorded :: "PaymentResponse \<Rightarrow> PaymentResponse" where
  "unrecorded result = result\<lparr>pay_Status := ''PENDING'', pay_Error := ''payment result persistence unavailable''\<rparr>"

definition finish :: "string \<Rightarrow> string \<Rightarrow> string \<Rightarrow> int \<Rightarrow> PaymentResponse \<Rightarrow> PaymentResponse" where
  "finish pid key gateway created result = with_created created
     (result\<lparr>pay_ID := pid, pay_IdempotencyKey := key, pay_Gateway := gateway\<rparr>)"

section \<open>The handlers\<close>

datatype prologue =
    Reject nat string
  | Accept (acc_key: string) (acc_hashes: "string \<times> string \<times> string") (acc_req: RouterPaymentRequest)

definition canonical_request :: "RouterPaymentRequest \<Rightarrow> RouterPaymentRequest" where
  "canonical_request req =
     (let req = req\<lparr>rtr_Currency := to_upper (trim_space (rtr_Currency req))\<rparr>
      in req\<lparr>rtr_Instrument := to_lower (trim_space (rtr_Instrument req))\<rparr>)"

definition request_hashes :: "(string \<Rightarrow> string) \<Rightarrow> RouterPaymentRequest \<Rightarrow> string \<times> string \<times> string" where
  "request_hashes sha originalReq =
     (let req = canonical_request originalReq;
          legacyCanonicalReq = req\<lparr>rtr_Currency := to_lower (rtr_Currency req)\<rparr>
      in (RequestHash sha (encode_router req), RequestHash sha (encode_router originalReq),
          RequestHash sha (encode_router legacyCanonicalReq)))"

text \<open>The checks of \<open>create\<close> before it touches the database.\<close>

definition create_prologue :: "(string \<Rightarrow> string) \<Rightarrow> http_request \<Rightarrow> prologue" where
  "create_prologue sha r =
     (if req_method r \<noteq> ''POST'' then Reject 405 ''method not allowed''
      else (let key = trim_space (header_get (req_header r) ''Idempotency-Key'') in
        if key = [] \<or> length key > 255 then Reject 400 ''Idempotency-Key is required''
        else case Decode decode_router r of
          None \<Rightarrow> Reject 400 ''invalid JSON''
        | Some originalReq \<Rightarrow>
            (let req = canonical_request originalReq in
             case ValidateRouterRequest req of
               Some e \<Rightarrow> Reject 400 e
             | None \<Rightarrow> Accept key (request_hashes sha originalReq) req)))"

text \<open>The connection, the session lock on the key, the start of the transaction.\<close>

definition create_acquire :: "router_event \<Rightarrow> string \<Rightarrow> (nat \<times> string) option" where
  "create_acquire ev key =
     (if \<not> re_conn ev then Some (500, ''database unavailable'')
      else if \<not> (re_lock ev \<and> pg_text key) then Some (500, ''database lock unavailable'')
      else if \<not> re_begin ev then Some (500, ''database unavailable'')
      else None)"

text \<open>Charging a reservation, recording the result, counting, answering.\<close>

definition create_charge ::
  "'w router_config \<Rightarrow> router_event \<Rightarrow> http_request \<Rightarrow> RouterPaymentRequest \<Rightarrow> string \<Rightarrow>
   string \<Rightarrow> string \<Rightarrow> int \<Rightarrow> int \<Rightarrow> router \<Rightarrow> 'w \<Rightarrow> (router \<times> 'w) \<times> http_response option" where
  "create_charge cfg ev r req key pid gateway created lease s w =
     (let ((s1, w1), charged) = charge cfg ev r req key gateway s w in
      case charged of
        None \<Rightarrow> ((s1, w1), None)
      | Some result0 \<Rightarrow>
          (let result1 = normalized result0;
               (ok, rows) = persistResultConn ev pid result1 lease (r_rows s1);
               result2 = (if ok then result1 else unrecorded result1);
               result = finish pid key gateway created result2;
               s2 = s1\<lparr>r_rows := rows,
                 r_metrics := Count (pay_Status result = ''SUCCEEDED'') (re_latency ev) (r_metrics s1)\<rparr>
           in ((s2, w1), Some (JSON (StatusCode (pay_Status result)) (encode_payment result)))))"

definition create ::
  "'w router_config \<Rightarrow> router_event \<Rightarrow> http_request \<Rightarrow> router \<Rightarrow> 'w \<Rightarrow> (router \<times> 'w) \<times> http_response option" where
  "create cfg ev r s w =
     (case create_prologue (rc_sha cfg) r of
        Reject st m \<Rightarrow> ((s, w), Some (JSON st (error_body m)))
      | Accept key hashes req \<Rightarrow>
          (case create_acquire ev key of
             Some (st, m) \<Rightarrow> ((s, w), Some (JSON st (error_body m)))
           | None \<Rightarrow>
               (let (res, rows) = reserve (pendingRecoveryAfter (rc_env cfg)) ev key hashes req (r_rows s);
                    s1 = s\<lparr>r_rows := rows\<rparr>
                in case res of
                     Refuse st m \<Rightarrow> ((s1, w), Some (JSON st (error_body m)))
                   | Replay p \<Rightarrow> ((s1, w), Some (JSON (StatusCode (pay_Status p)) (encode_payment p)))
                   | Reserved pid gateway created lease \<Rightarrow>
                       create_charge cfg ev r req key pid gateway created lease s1 w)))"

record paymentLookup =
  lookup_payment :: PaymentResponse
  lookup_request :: RouterPaymentRequest

definition encode_lookup :: "paymentLookup \<Rightarrow> json" where
  "encode_lookup l = JObj (payment_members (lookup_payment l) @ router_members (lookup_request l))"

definition lookup_of :: "payment_row \<Rightarrow> paymentLookup" where
  "lookup_of row = \<lparr>lookup_payment = with_created (row_created_at row) (normalized (existing_of row)),
     lookup_request = \<lparr>rtr_DebtorParticipantID = row_debtor row, rtr_CreditorParticipantID = row_creditor row,
       rtr_AmountMinor = row_amount_minor row, rtr_Currency = row_currency row,
       rtr_Reference = row_reference row, rtr_Instrument = row_instrument row\<rparr>\<rparr>"

text \<open>\<open>get\<close>; \<open>db\<close> says whether the database answers.\<close>

definition get :: "'w router_config \<Rightarrow> bool \<Rightarrow> http_request \<Rightarrow> router \<Rightarrow> http_response" where
  "get cfg db r s =
     (if req_method r \<noteq> ''GET'' then JSON 405 (error_body ''method not allowed'')
      else (let pid = trim_prefix ''/v1/payments/'' (req_path r) in
        if pid = [] \<or> contains_sub ''/'' pid then JSON 404 (error_body ''payment not found'')
        else case (if db then rc_uuid_in cfg pid else None) of
          None \<Rightarrow> JSON 500 (error_body ''database read failed'')
        | Some uuid \<Rightarrow>
            (case select_by_id uuid (r_rows s) of
               None \<Rightarrow> JSON 404 (error_body ''payment not found'')
             | Some row \<Rightarrow>
                 (let out = lookup_of row
                  in JSON (StatusCode (pay_Status (lookup_payment out))) (encode_lookup out)))))"

definition router_ready :: "bool \<Rightarrow> http_response" where
  "router_ready db = (if db then JSON 200 (JObj [(''status'', JStr ''ready'')])
     else JSON 503 (JObj [(''status'', JStr ''not_ready'')]))"

definition router_health :: http_response where
  "router_health = JSON 200 (JObj [(''status'', JStr ''ok'')])"

text \<open>The mux of \<open>main\<close>.\<close>

definition router_serve ::
  "'w router_config \<Rightarrow> router_event \<Rightarrow> bool \<Rightarrow> http_request \<Rightarrow> router \<Rightarrow> 'w \<Rightarrow> (router \<times> 'w) \<times> http_response option" where
  "router_serve cfg ev db r s w =
     (if req_path r = ''/healthz'' then ((s, w), Some router_health)
      else if req_path r = ''/readyz'' then ((s, w), Some (router_ready db))
      else if req_path r = ''/metrics'' then ((s, w), Some \<lparr>http_status = 200, http_body = Handler (r_metrics s)\<rparr>)
      else if req_path r = ''/internal/v1/payments'' then create cfg ev r s w
      else if prefix ''/v1/payments/'' (req_path r) then ((s, w), Some (get cfg db r s))
      else ((s, w), Some \<lparr>http_status = 404, http_body = ''404 page not found'' @ [CHR 0x0A]\<rparr>))"

text \<open>\<open>main\<close>: two adapters on one client, a breaker per gateway, all from the environment.\<close>

definition main_config ::
  "(string \<Rightarrow> string) \<Rightarrow> (string \<Rightarrow> string option) \<Rightarrow> 'w network \<Rightarrow> (string \<Rightarrow> string) \<Rightarrow> 'w router_config" where
  "main_config sha uuid_in net env =
     (let authToken = trim_space (getenv env ''GATEWAY_PAYMENT_TOKEN'' (getenv env ''GATEWAY_AUTH_TOKEN'' []));
          card = \<lparr>card_BaseURL = getenv env ''GATEWAY_CARD_URL'' ''https://gateway-card:8443'',
                  card_AuthToken = authToken\<rparr>;
          bank = \<lparr>bank_BaseURL = getenv env ''GATEWAY_BANK_URL'' ''https://gateway-bank:8443'',
                  bank_AuthToken = authToken\<rparr>
      in \<lparr>rc_sha = sha, rc_uuid_in = uuid_in, rc_env = env,
          rc_adapters = [''gateway-card'' \<mapsto> card_Charge net card, ''gateway-bank'' \<mapsto> bank_Charge net bank],
          rc_breakerEnabled = (getenv env ''APP_CIRCUIT_BREAKER_ENABLED'' ''true'' \<noteq> ''false'')\<rparr>)"

definition main_circuits :: "string \<Rightarrow> Circuit option" where
  "main_circuits = [''gateway-card'' \<mapsto> NewCircuit 5 (30 * 1000000000),
     ''gateway-bank'' \<mapsto> NewCircuit 5 (30 * 1000000000)]"

end
