(* ===== verification/Router_Facts.thy ===== *)
theory Router_Facts
  imports Router
begin

text \<open>
  Facts on the router, one request at a time: the table stays well formed, a decided row
  never changes, a decided answer is on record before it is given, replays repeat it.
\<close>

section \<open>The table\<close>

definition payment_row_ok :: "payment_row \<Rightarrow> bool" where
  "payment_row_ok r \<longleftrightarrow> row_status r \<in> {''PENDING'', ''SUCCEEDED'', ''FAILED''} \<and>
     ValidInstrument (row_instrument r) \<and> row_gateway r = gatewayFor (row_instrument r) \<and>
     length (row_currency r) = 3 \<and> list_all is_upper (row_currency r) \<and> 0 < row_amount_minor r \<and> in_int64 (row_amount_minor r) \<and>
     pg_text (row_debtor r) \<and> pg_text (row_creditor r) \<and> pg_text (row_reference r)"

definition payments_inv :: "payment_row list \<Rightarrow> bool" where
  "payments_inv rows \<longleftrightarrow> distinct (map row_id rows) \<and> distinct (map row_key rows) \<and>
     (\<forall>r \<in> set rows. payment_row_ok r)"

text \<open>How a row may change: its request never, a decided row not at all.\<close>

definition frozen :: "payment_row \<Rightarrow> payment_row" where
  "frozen r = r\<lparr>row_status := [], row_provider_ref := None, row_error := None, row_updated_at := 0\<rparr>"

definition row_evolves :: "payment_row \<Rightarrow> payment_row \<Rightarrow> bool" where
  "row_evolves r r' \<longleftrightarrow> frozen r' = frozen r \<and> (terminal (row_status r) \<longrightarrow> r' = r)"

definition table_evolves :: "payment_row list \<Rightarrow> payment_row list \<Rightarrow> bool" where
  "table_evolves rows rows' \<longleftrightarrow> (\<forall>key r. select_by_key key rows = Some r \<longrightarrow>
     (\<exists>r'. select_by_key key rows' = Some r' \<and> row_evolves r r'))"

lemma row_evolves_refl [simp]: "row_evolves r r"
  by (simp add: row_evolves_def)

lemma row_evolves_trans: "row_evolves a b \<Longrightarrow> row_evolves b c \<Longrightarrow> row_evolves a c"
  by (auto simp: row_evolves_def)

lemma table_evolves_refl [simp]: "table_evolves rows rows"
  by (simp add: table_evolves_def)

lemma table_evolves_trans: "table_evolves a b \<Longrightarrow> table_evolves b c \<Longrightarrow> table_evolves a c"
  unfolding table_evolves_def by (meson row_evolves_trans)

lemma frozen_simps [simp]:
  "row_key (r\<lparr>row_error := e, row_updated_at := t\<rparr>) = row_key r"
  "row_key (settle now result r) = row_key r" "row_id (settle now result r) = row_id r"
  "frozen (settle now result r) = frozen r" "row_status (settle now result r) = pay_Status result"
  "frozen (r\<lparr>row_error := e, row_updated_at := t\<rparr>) = frozen r"
  by (simp_all add: frozen_def settle_def)

lemma frozen_eqD:
  "frozen r' = frozen r \<Longrightarrow> row_id r' = row_id r \<and> row_key r' = row_key r \<and> row_hash r' = row_hash r \<and>
   row_amount_minor r' = row_amount_minor r \<and> row_currency r' = row_currency r \<and>
   row_instrument r' = row_instrument r \<and> row_debtor r' = row_debtor r \<and> row_creditor r' = row_creditor r \<and>
   row_reference r' = row_reference r \<and> row_gateway r' = row_gateway r \<and> row_created_at r' = row_created_at r"
  by (cases r; cases r') (simp add: frozen_def)

text \<open>An UPDATE of rows that are PENDING.\<close>

lemma select_update:
  "(\<And>r. row_key (f r) = row_key r) \<Longrightarrow> select_by_key key (update_where p f rows) =
     map_option (\<lambda>r. if p r then f r else r) (select_by_key key rows)"
  by (simp add: select_by_key_def find_update_where)

lemma update_evolves:
  assumes "\<And>r. frozen (f r) = frozen r" "\<And>r. p r \<Longrightarrow> \<not> terminal (row_status r)"
  shows "table_evolves rows (update_where p f rows)"
  using assms frozen_eqD [OF assms(1)]
  by (auto simp: table_evolves_def select_update row_evolves_def)

lemma update_inv:
  assumes "payments_inv rows" "\<And>r. frozen (f r) = frozen r"
    "\<And>r. p r \<Longrightarrow> row_status r \<in> {''PENDING'', ''SUCCEEDED'', ''FAILED''} \<Longrightarrow>
       row_status (f r) \<in> {''PENDING'', ''SUCCEEDED'', ''FAILED''}"
  shows "payments_inv (update_where p f rows)"
proof -
  have "payment_row_ok (f r)" if "p r" "payment_row_ok r" for r
    using that assms(3) frozen_eqD [OF assms(2), of r] by (simp add: payment_row_ok_def)
  with assms(1) frozen_eqD [OF assms(2)] show ?thesis
    by (auto simp: payments_inv_def set_update_where map_update_where)
qed

lemma lease_held_PENDING: "lease_held pid lease r \<Longrightarrow> row_status r = ''PENDING''"
  by (simp add: lease_held_def)

lemma update_result_evolves: "table_evolves rows (update_result now pid lease result rows)"
  unfolding update_result_def by (rule update_evolves) (auto dest: lease_held_PENDING)

lemma update_result_inv:
  "payments_inv rows \<Longrightarrow> payments_inv (update_result now pid lease (normalized result) rows)"
  unfolding update_result_def
proof (rule update_inv)
  show "row_status (settle now (normalized result) r) \<in> {''PENDING'', ''SUCCEEDED'', ''FAILED''}" for r
    by (simp add: settle_def normalized_def NormalizeStatus_def)
qed simp_all

lemma claim_cases:
  assumes "claim_pending now pid rows = (res, rows')"
  shows "table_evolves rows rows'" "payments_inv rows \<Longrightarrow> payments_inv rows'"
    "res = Some lease \<Longrightarrow> lease = now"
proof -
  let ?p = "\<lambda>r. row_id r = pid \<and> row_status r = ''PENDING''"
  let ?f = "\<lambda>r. r\<lparr>row_error := Some ''recovering payment'', row_updated_at := now\<rparr>"
  have eq: "rows' = update_where ?p ?f rows" using assms by (simp add: claim_pending_def Let_def)
  show "table_evolves rows rows'" unfolding eq by (rule update_evolves) auto
  show "payments_inv rows \<Longrightarrow> payments_inv rows'" unfolding eq by (rule update_inv) auto
  show "res = Some lease \<Longrightarrow> lease = now" using assms by (simp add: claim_pending_def Let_def split: if_splits)
qed

lemma insert_payment_Some:
  assumes "insert_payment now pid key hash req gw rows = Some rows'"
  shows "\<exists>row. rows' = rows @ [row] \<and> row_id row = pid \<and> row_key row = key \<and> row_hash row = hash \<and>
    row_status row = ''PENDING'' \<and> row_gateway row = gw \<and> row_created_at row = now \<and> row_updated_at row = now \<and>
    row_instrument row = rtr_Instrument req \<and> row_currency row = to_upper (rtr_Currency req) \<and>
    row_amount_minor row = rtr_AmountMinor req \<and> row_debtor row = rtr_DebtorParticipantID req \<and>
    row_creditor row = rtr_CreditorParticipantID req \<and> row_reference row = rtr_Reference req \<and>
    row_provider_ref row = None \<and> row_error row = None \<and>
    pg_text (row_debtor row) \<and> pg_text (row_creditor row) \<and> pg_text (row_reference row) \<and>
    (\<forall>r \<in> set rows. row_id r \<noteq> pid \<and> row_key r \<noteq> key)"
  using assms by (auto simp: insert_payment_def Let_def list_ex_iff split: if_splits)

lemma insert_evolves: "insert_payment now pid key hash req gw rows = Some rows' \<Longrightarrow> table_evolves rows rows'"
  by (auto dest!: insert_payment_Some simp: table_evolves_def select_by_key_def find_append)

section \<open>Requests in canonical form\<close>

lemma canonical_request_simps [simp]:
  "rtr_Currency (canonical_request req) = to_upper (trim_space (rtr_Currency req))"
  "rtr_Instrument (canonical_request req) = to_lower (trim_space (rtr_Instrument req))"
  "rtr_AmountMinor (canonical_request req) = rtr_AmountMinor req"
  "rtr_DebtorParticipantID (canonical_request req) = rtr_DebtorParticipantID req"
  "rtr_CreditorParticipantID (canonical_request req) = rtr_CreditorParticipantID req"
  "rtr_Reference (canonical_request req) = rtr_Reference req"
  by (simp_all add: canonical_request_def)

definition canonical :: "RouterPaymentRequest \<Rightarrow> bool" where
  "canonical req \<longleftrightarrow> ValidInstrument (rtr_Instrument req) \<and> length (rtr_Currency req) = 3 \<and>
     list_all is_upper (rtr_Currency req) \<and> trimmed (rtr_Currency req) \<and> 0 < rtr_AmountMinor req \<and> router_text req"

lemma is_upper_utf8: "list_all is_upper s \<Longrightarrow> utf8_valid s"
  using is_upper_ascii utf8_valid_ascii by blast

lemma ValidInstrument_utf8: "ValidInstrument s \<Longrightarrow> utf8_valid s"
proof -
  have "utf8_valid ''card''" "utf8_valid ''bank_transfer''" "utf8_valid ''wallet''"
    by (rule utf8_valid_ascii, code_simp)+
  then show "ValidInstrument s \<Longrightarrow> utf8_valid s" by (auto simp: ValidInstrument_iff)
qed

lemma create_prologue_Accept:
  assumes "create_prologue sha r = Accept key hashes req"
  shows "\<exists>original. Decode decode_router r = Some original \<and> req = canonical_request original \<and>
    hashes = request_hashes sha original \<and> canonical req \<and> key \<noteq> [] \<and> length key \<le> 255 \<and>
    key = trim_space (header_get (req_header r) ''Idempotency-Key'') \<and> req_method r = ''POST''"
proof -
  from assms obtain original where o: "Decode decode_router r = Some original" "req = canonical_request original"
    "hashes = request_hashes sha original" "ValidateRouterRequest req = None" "key \<noteq> []" "length key \<le> 255"
    "key = trim_space (header_get (req_header r) ''Idempotency-Key'')" "req_method r = ''POST''"
    by (auto simp: create_prologue_def Let_def split: if_splits option.splits)
  from o(4) have v: "validCurrency (rtr_Currency req)" "ValidInstrument (rtr_Instrument req)" "0 < rtr_AmountMinor req"
    by (simp_all add: ValidateRouterRequest_def split: if_splits)
  with o(2) have valid: "validCurrency (to_upper (trim_space (rtr_Currency original)))"
    "ValidInstrument (rtr_Instrument req)" "0 < rtr_AmountMinor req" by simp_all
  from Decode_ok [OF o(1)] decode_router_text have rt: "router_text original" by blast
  note currency = validCurrency_canonical [OF valid(1)]
  have "utf8_valid (rtr_Instrument req)" "utf8_valid (rtr_Currency req)"
    using ValidInstrument_utf8 [OF valid(2)] is_upper_utf8 [OF currency(2)] o(2) by simp_all
  with rt o(2) have "router_text req" by (simp add: router_text_def)
  moreover have "trimmed (rtr_Currency req)" using o(2) by (simp add: trimmed_to_upper)
  ultimately have "canonical req"
    using valid(2,3) currency(1,2) o(2) by (simp add: canonical_def)
  with o show ?thesis by blast
qed

lemma insert_inv:
  assumes "insert_payment now pid key hash req (gatewayFor (rtr_Instrument req)) rows = Some rows'"
    "payments_inv rows" "canonical req"
  shows "payments_inv rows'"
proof -
  have "to_upper (rtr_Currency req) = rtr_Currency req"
    using assms(3) by (intro to_upper_fixed) (simp add: canonical_def list_all_iff)
  with insert_payment_Some [OF assms(1)] assms(3) obtain row where
    row: "rows' = rows @ [row]" "payment_row_ok row" "\<forall>r \<in> set rows. row_id r \<noteq> row_id row \<and> row_key r \<noteq> row_key row"
    by (auto simp: payment_row_ok_def canonical_def router_text_def)
  then have "row_id row \<notin> row_id ` set rows" "row_key row \<notin> row_key ` set rows" by (metis imageE)+
  with row(1,2) assms(2) show ?thesis by (simp add: payments_inv_def)
qed

section \<open>The reservation\<close>

lemma committed_rows: "committed out res rows rows' = (res', rows'') \<Longrightarrow> rows'' = rows \<or> rows'' = rows'"
  by (auto simp: committed_def split: if_splits)

lemma reserve_evolves:
  assumes "reserve recovery ev key hashes req rows = (res, rows')"
  shows "table_evolves rows rows'"
    "payments_inv rows \<Longrightarrow> canonical req \<Longrightarrow> payments_inv rows'"
  using assms claim_cases(1) [of "re_now ev"] claim_cases(2) [of "re_now ev"] insert_evolves insert_inv
  by (auto simp: reserve_def Let_def split: prod.splits if_splits option.splits dest!: committed_rows)

text \<open>What a replay answers, from the row alone.\<close>

definition answer_of :: "payment_row \<Rightarrow> PaymentResponse" where
  "answer_of row = with_created (row_created_at row) (normalized (existing_of row))"

definition hash_matches :: "string \<times> string \<times> string \<Rightarrow> payment_row \<Rightarrow> bool" where
  "hash_matches hashes row \<longleftrightarrow> row_hash row \<in> {fst hashes, fst (snd hashes), snd (snd hashes)}"

lemma select_by_keyD: "select_by_key key rows = Some row \<Longrightarrow> row \<in> set rows \<and> row_key row = key"
  by (auto simp: select_by_key_def dest: find_SomeD)

lemma select_by_key_iff:
  "payments_inv rows \<Longrightarrow> select_by_key key rows = Some row \<longleftrightarrow> row \<in> set rows \<and> row_key row = key"
  by (simp add: select_by_key_def payments_inv_def find_key_iff)

text \<open>A reservation leaves a PENDING row that carries its lease.\<close>

lemma claim_reserved:
  assumes "payments_inv rows" "select_by_key key rows = Some row"
    "claim_pending now (row_id row) rows = (Some lease, rows')"
  shows "select_by_key key rows' = Some (row\<lparr>row_error := Some ''recovering payment'', row_updated_at := now\<rparr>)"
    "row_status row = ''PENDING''" "lease = now"
proof -
  let ?p = "\<lambda>r. row_id r = row_id row \<and> row_status r = ''PENDING''"
  from assms(3) obtain r where r: "r \<in> set rows" "row_id r = row_id row" "row_status r = ''PENDING''"
    by (auto simp: claim_pending_def Let_def count_where_0_iff split: if_splits)
  with assms(1,2) have "r = row"
    by (auto simp: payments_inv_def dest!: select_by_keyD dest: distinct_key_eq [of row_id])
  with r(3) show st: "row_status row = ''PENDING''" by simp
  with assms show "select_by_key key rows' = Some (row\<lparr>row_error := Some ''recovering payment'', row_updated_at := now\<rparr>)"
    by (auto simp: claim_pending_def Let_def select_update split: if_splits)
  show "lease = now" using assms(3) by (auto simp: claim_pending_def Let_def split: if_splits)
qed

lemma insert_reserved:
  assumes "insert_payment now pid key hash req gw rows = Some rows'" "select_by_key key rows = None"
  shows "\<exists>row. select_by_key key rows' = Some row \<and> row_id row = pid \<and> row_gateway row = gw \<and>
    row_created_at row = now \<and> row_status row = ''PENDING'' \<and> row_updated_at row = now \<and> row_hash row = hash"
  using insert_payment_Some [OF assms(1)] assms(2) by (auto simp: select_by_key_def find_append)

lemma committed_iff [simp]:
  "committed out res rows rows1 = (Reserved p g c l, rows') \<longleftrightarrow>
     reported_ok out \<and> res = Reserved p g c l \<and> rows' = rows1"
  "committed out res rows rows1 = (Replay q, rows') \<longleftrightarrow> reported_ok out \<and> res = Replay q \<and> rows' = rows1"
  using reported_ok_takes_effect [of out] by (auto simp: committed_def)

lemma reserve_Reserved:
  assumes "reserve recovery ev key hashes req rows = (Reserved pid gw created lease, rows')" "payments_inv rows"
  shows "\<exists>row. select_by_key key rows' = Some row \<and> row_id row = pid \<and> row_gateway row = gw \<and>
    row_created_at row = created \<and> row_status row = ''PENDING'' \<and> row_updated_at row = lease \<and> hash_matches hashes row"
proof (cases "select_by_key key rows")
  case None
  obtain hash legacy canon where h: "hashes = (hash, legacy, canon)" by (cases hashes)
  from assms(1) None obtain rows1 where
    "insert_payment (re_now ev) (newUUID (re_random ev)) key hash req (gatewayFor (rtr_Instrument req)) rows = Some rows1"
    "committed (re_commit ev) (Reserved (newUUID (re_random ev)) (gatewayFor (rtr_Instrument req)) (re_now ev) (re_now ev)) rows rows1
      = (Reserved pid gw created lease, rows')"
    by (auto simp: h reserve_def Let_def split: if_splits option.splits)
  with insert_reserved [OF _ None] h show ?thesis
    by (fastforce simp: hash_matches_def)
next
  case (Some row)
  obtain hash legacy canon where h: "hashes = (hash, legacy, canon)" by (cases hashes)
  from assms(1) Some obtain l rows1 where
    "hash_matches hashes row" "claim_pending (re_now ev) (row_id row) rows = (Some l, rows1)"
    "committed (re_commit ev) (Reserved (row_id row) (row_gateway row) (row_created_at row) l) rows rows1
      = (Reserved pid gw created lease, rows')"
    by (auto simp: h reserve_def Let_def hash_matches_def split: if_splits option.splits prod.splits)
  with claim_reserved [OF assms(2) Some] show ?thesis
    by (fastforce simp: hash_matches_def)
qed

lemma reserve_Replay:
  assumes "reserve recovery ev key hashes req rows = (Replay p, rows')"
  shows "rows' = rows" "\<exists>row. select_by_key key rows = Some row \<and> hash_matches hashes row \<and> p = answer_of row"
  using assms
  by (auto simp: reserve_def Let_def hash_matches_def answer_of_def split: prod.splits if_splits option.splits)

lemma reserve_Refuse:
  "reserve recovery ev key hashes req rows = (Refuse st m, rows') \<Longrightarrow> st = 409 \<or> st = 500"
  by (auto simp: reserve_def Let_def committed_def split: prod.splits if_splits option.splits)

section \<open>Charging and recording\<close>

lemma normalized_simps [simp]:
  "pay_Status (normalized p) = NormalizeStatus (pay_Status p)" "pay_ProviderRef (normalized p) = pay_ProviderRef p"
  "pay_Error (normalized p) = pay_Error p" "normalized (normalized p) = normalized p"
  by (simp_all add: normalized_def)

lemma persist_evolves:
  assumes "persistResultConn ev pid result lease rows = (ok, rows')"
  shows "table_evolves rows rows'" "payments_inv rows \<Longrightarrow> payments_inv rows'"
  using assms update_result_evolves update_result_inv
  by (auto simp: persistResultConn_def Let_def split: if_splits)

text \<open>A result that is reported as recorded is recorded, in the row that held the lease.\<close>

lemma persist_recorded:
  assumes "persistResultConn ev pid result lease rows = (True, rows')"
    "select_by_key key rows = Some row" "row_id row = pid" "row_status row = ''PENDING''" "row_updated_at row = lease"
  shows "select_by_key key rows' = Some (settle (re_persist_now ev) (normalized result) row)"
  using assms reported_ok_takes_effect [of "re_persist ev"]
  by (auto simp: persistResultConn_def Let_def update_result_def select_update lease_held_def split: if_splits)

lemma charge_rows: "charge cfg ev r req key gw s w = ((s', w'), res) \<Longrightarrow> r_rows s' = r_rows s"
  by (auto simp: charge_def Let_def split: prod.splits if_splits option.splits)

lemma answer_of_settled:
  "answer_of (settle now (normalized result) row) =
   finish (row_id row) (row_key row) (row_gateway row) (row_created_at row) (normalized result)"
  by (cases result) (simp add: answer_of_def finish_def settle_def existing_of_def coalesce_def normalized_def with_created_def)

lemma finish_status [simp]: "pay_Status (finish pid key gw created result) = pay_Status result"
  by (simp add: finish_def with_created_def)

lemma unrecorded_status [simp]: "pay_Status (unrecorded result) = ''PENDING''"
  by (simp add: unrecorded_def)

lemma create_charge_evolves:
  assumes "create_charge cfg ev r req key pid gw created lease s w = ((s', w'), resp)"
  shows "table_evolves (r_rows s) (r_rows s')" "payments_inv (r_rows s) \<Longrightarrow> payments_inv (r_rows s')"
  using assms persist_evolves(1) [of ev] persist_evolves(2) [of ev]
  by (auto simp: create_charge_def Let_def split: prod.splits option.splits dest!: charge_rows)

text \<open>The answer after a charge: the result if it was recorded, PENDING if not.\<close>

definition announced :: "bool \<Rightarrow> PaymentResponse \<Rightarrow> PaymentResponse" where
  "announced ok result = (if ok then normalized result else unrecorded (normalized result))"

lemma create_charge_eq:
  assumes "charge cfg ev r req key gw s w = ((s1, w1), Some result)"
    "persistResultConn ev pid (normalized result) lease (r_rows s1) = (ok, rows)"
  shows "create_charge cfg ev r req key pid gw created lease s w =
    ((s1\<lparr>r_rows := rows, r_metrics := Count (pay_Status (announced ok result) = ''SUCCEEDED'') (re_latency ev) (r_metrics s1)\<rparr>, w1),
     Some (JSON (StatusCode (pay_Status (announced ok result)))
       (encode_payment (finish pid key gw created (announced ok result)))))"
  unfolding create_charge_def assms(1) Let_def prod.case option.case assms(2) finish_status announced_def ..

lemma create_charge_answer:
  assumes "create_charge cfg ev r req key pid gw created lease s w = ((s', w'), Some resp)"
  obtains s1 result ok where
    "charge cfg ev r req key gw s w = ((s1, w'), Some result)"
    "persistResultConn ev pid (normalized result) lease (r_rows s) = (ok, r_rows s')"
    "resp = JSON (StatusCode (pay_Status (announced ok result)))
      (encode_payment (finish pid key gw created (announced ok result)))"
proof -
  obtain s1 w1 charged where c: "charge cfg ev r req key gw s w = ((s1, w1), charged)"
    by (metis prod.collapse)
  have "charged \<noteq> None"
  proof
    assume "charged = None"
    then have "create_charge cfg ev r req key pid gw created lease s w = ((s1, w1), None)"
      unfolding create_charge_def c Let_def by (simp only: prod.case option.case)
    with assms show False by simp
  qed
  then obtain result where some: "charged = Some result" by blast
  obtain ok rows where p: "persistResultConn ev pid (normalized result) lease (r_rows s1) = (ok, rows)"
    by fastforce
  from create_charge_eq [OF c [unfolded some] p, of created] assms
  have e: "s' = s1\<lparr>r_rows := rows, r_metrics := Count (pay_Status (announced ok result) = ''SUCCEEDED'') (re_latency ev) (r_metrics s1)\<rparr>"
    "w' = w1" "resp = JSON (StatusCode (pay_Status (announced ok result)))
      (encode_payment (finish pid key gw created (announced ok result)))"
    by simp_all
  from e(1) have rows: "r_rows s' = rows" by simp
  show thesis
    by (rule that [of s1 result ok]) (use c some p e(2,3) rows charge_rows [OF c] in simp_all)
qed

text \<open>A decided answer is the answer of the row, from then on.\<close>

lemma create_charge_recorded:
  assumes "create_charge cfg ev r req key pid gw created lease s w = ((s', w'), Some resp)"
    "select_by_key key (r_rows s) = Some row" "row_id row = pid" "row_gateway row = gw"
    "row_created_at row = created" "row_status row = ''PENDING''" "row_updated_at row = lease"
    "http_status resp \<noteq> 202"
  shows "\<exists>row'. select_by_key key (r_rows s') = Some row' \<and> terminal (row_status row') \<and> frozen row' = frozen row \<and>
    resp = JSON (StatusCode (row_status row')) (encode_payment (answer_of row'))"
proof -
  from create_charge_answer [OF assms(1)] obtain s1 result ok where
    p: "persistResultConn ev pid (normalized result) lease (r_rows s) = (ok, r_rows s')" and
    resp: "resp = JSON (StatusCode (pay_Status (announced ok result)))
      (encode_payment (finish pid key gw created (announced ok result)))" .
  have code: "StatusCode (pay_Status (announced ok result)) \<noteq> 202" using resp assms(8) by simp
  then have "ok" by (cases ok) (simp_all add: announced_def StatusCode_def)
  with code have t: "terminal (pay_Status result)"
    unfolding terminal_StatusCode [symmetric] by (simp add: announced_def)
  from p \<open>ok\<close> have "persistResultConn ev pid (normalized result) lease (r_rows s) = (True, r_rows s')" by simp
  from persist_recorded [OF this assms(2,3,6,7)]
  have row': "select_by_key key (r_rows s') = Some (settle (re_persist_now ev) (normalized result) row)"
    by simp
  have "row_key row = key" using assms(2) by (auto dest: select_by_keyD)
  with resp \<open>ok\<close> assms(3-5) have "resp = JSON (StatusCode (pay_Status (normalized result)))
      (encode_payment (answer_of (settle (re_persist_now ev) (normalized result) row)))"
    unfolding answer_of_settled by (simp add: announced_def)
  with row' t show ?thesis by auto
qed

section \<open>The whole handler\<close>

definition request_key :: "http_request \<Rightarrow> string" where
  "request_key r = trim_space (header_get (req_header r) ''Idempotency-Key'')"

lemma Reject_status: "create_prologue sha r = Reject st m \<Longrightarrow> st = 405 \<or> st = 400"
  by (auto simp: create_prologue_def Let_def split: if_splits option.splits)

lemma Acquire_status: "create_acquire ev key = Some (st, m) \<Longrightarrow> st = 500"
  by (auto simp: create_acquire_def split: if_splits)

text \<open>The ways the handler can go.\<close>

lemma create_cases:
  assumes "create cfg ev r s w = ((s', w'), resp)"
  obtains (early) st m where "s' = s" "w' = w" "resp = Some (JSON st (error_body m))" "st \<in> {400, 405, 500}"
  | (refused) st m where "w' = w" "resp = Some (JSON st (error_body m))" "st \<in> {409, 500}"
      "table_evolves (r_rows s) (r_rows s')" "payments_inv (r_rows s) \<Longrightarrow> payments_inv (r_rows s')"
  | (replayed) row where "s' = s" "w' = w" "select_by_key (request_key r) (r_rows s) = Some row"
      "resp = Some (JSON (StatusCode (pay_Status (answer_of row))) (encode_payment (answer_of row)))"
  | (charged) hashes req rows pid gw created lease where
      "create_prologue (rc_sha cfg) r = Accept (request_key r) hashes req"
      "reserve (pendingRecoveryAfter (rc_env cfg)) ev (request_key r) hashes req (r_rows s)
        = (Reserved pid gw created lease, rows)"
      "create_charge cfg ev r req (request_key r) pid gw created lease (s\<lparr>r_rows := rows\<rparr>) w = ((s', w'), resp)"
      "table_evolves (r_rows s) rows" "payments_inv (r_rows s) \<Longrightarrow> payments_inv rows"
proof (cases "create_prologue (rc_sha cfg) r")
  case (Reject st m)
  with assms have "s' = s" "w' = w" "resp = Some (JSON st (error_body m))" by (simp_all add: create_def)
  with Reject_status [OF Reject] show thesis by (intro early) auto
next
  case (Accept key hashes req)
  from create_prologue_Accept [OF this] have key: "request_key r = key" and can: "canonical req"
    by (auto simp: request_key_def)
  show thesis
  proof (cases "create_acquire ev key")
    case (Some p)
    obtain st m where p: "p = (st, m)" by (cases p)
    with assms Accept Some have "s' = s" "w' = w" "resp = Some (JSON st (error_body m))" by (simp_all add: create_def)
    with Acquire_status [OF Some [unfolded p]] show thesis by (intro early) auto
  next
    case None
    obtain res rows where res: "reserve (pendingRecoveryAfter (rc_env cfg)) ev key hashes req (r_rows s) = (res, rows)"
      by fastforce
    note evolves = reserve_evolves [OF res]
    show thesis
    proof (cases res)
      case (Refuse st m)
      with assms Accept None res have "s' = s\<lparr>r_rows := rows\<rparr>" "w' = w" "resp = Some (JSON st (error_body m))"
        by (simp_all add: create_def)
      with evolves can reserve_Refuse [OF res [unfolded Refuse]] show thesis by (intro refused) auto
    next
      case (Replay p)
      with assms Accept None res have "s' = s\<lparr>r_rows := rows\<rparr>" "w' = w"
        "resp = Some (JSON (StatusCode (pay_Status p)) (encode_payment p))"
        by (simp_all add: create_def)
      with reserve_Replay [OF res [unfolded Replay]] key show thesis by (auto intro: replayed)
    next
      case (Reserved pid gw created lease)
      with assms Accept None res
      have "create_charge cfg ev r req key pid gw created lease (s\<lparr>r_rows := rows\<rparr>) w = ((s', w'), resp)"
        by (simp add: create_def)
      with Accept res Reserved evolves can key show thesis by (intro charged) auto
    qed
  qed
qed

lemma create_evolves:
  assumes "create cfg ev r s w = ((s', w'), resp)"
  shows "table_evolves (r_rows s) (r_rows s')" "payments_inv (r_rows s) \<Longrightarrow> payments_inv (r_rows s')"
proof -
  have "table_evolves (r_rows s) (r_rows s') \<and> (payments_inv (r_rows s) \<longrightarrow> payments_inv (r_rows s'))"
    using assms
  proof (cases rule: create_cases)
    case (charged hashes req rows pid gw created lease)
    from create_charge_evolves [OF charged(3)] charged(4,5) show ?thesis
      by (auto intro: table_evolves_trans)
  qed simp_all
  then show "table_evolves (r_rows s) (r_rows s')" "payments_inv (r_rows s) \<Longrightarrow> payments_inv (r_rows s')"
    by simp_all
qed

text \<open>Statuses 200 and 422 are given to decided payments only, and these are on record.\<close>

lemma create_decided:
  assumes c: "create cfg ev r s w = ((s', w'), Some resp)" and inv: "payments_inv (r_rows s)"
    and st: "http_status resp = 200 \<or> http_status resp = 422"
  shows "\<exists>row. select_by_key (request_key r) (r_rows s') = Some row \<and> terminal (row_status row) \<and>
    resp = JSON (StatusCode (row_status row)) (encode_payment (answer_of row))"
  using c
proof (cases rule: create_cases)
  case (replayed row)
  have ps: "pay_Status (answer_of row) = NormalizeStatus (row_status row)"
    by (simp add: answer_of_def with_created_def existing_of_def)
  with replayed(4) st have "terminal (row_status row)"
    using terminal_StatusCode [of "NormalizeStatus (row_status row)"] by auto
  with replayed ps show ?thesis by simp
next
  case (charged hashes req rows pid gw created lease)
  from reserve_Reserved [OF charged(2) inv] obtain row where
    row: "select_by_key (request_key r) rows = Some row" "row_id row = pid" "row_gateway row = gw"
      "row_created_at row = created" "row_status row = ''PENDING''" "row_updated_at row = lease" by blast
  from create_charge_recorded [OF charged(3) _ row(2-6)] row(1) st show ?thesis by auto
qed (use st in auto)

text \<open>A replay of a decided payment repeats its answer and touches nothing.\<close>

lemma create_replay:
  assumes a: "create_prologue (rc_sha cfg) r = Accept key hashes req"
    and row: "select_by_key key (r_rows s) = Some row" "terminal (row_status row)" "hash_matches hashes row"
    and ev: "create_acquire ev key = None" "re_select ev" "reported_ok (re_commit ev)"
  shows "create cfg ev r s w = ((s, w), Some (JSON (StatusCode (row_status row)) (encode_payment (answer_of row))))"
proof -
  obtain h l c where h: "hashes = (h, l, c)" by (cases hashes)
  have st: "pay_Status (with_created (row_created_at row) (normalized (existing_of row))) = row_status row"
    using row(2) by (simp add: with_created_def existing_of_def)
  have "row_status row \<noteq> ''PENDING''" using row(2) by (auto simp: terminal_def)
  then have "reserve (pendingRecoveryAfter (rc_env cfg)) ev key hashes req (r_rows s) = (Replay (answer_of row), r_rows s)"
    using row ev st by (auto simp: reserve_def h hash_matches_def answer_of_def committed_def takes_effect_def Let_def)
  with a ev(1) st show ?thesis by (simp add: create_def answer_of_def)
qed

text \<open>A key that is taken by another payload is refused, and nothing changes.\<close>

lemma create_conflict_409:
  assumes a: "create_prologue (rc_sha cfg) r = Accept key hashes req"
    and row: "select_by_key key (r_rows s) = Some row" "\<not> hash_matches hashes row"
    and ev: "create_acquire ev key = None" "re_select ev"
  shows "create cfg ev r s w =
    ((s, w), Some (JSON 409 (error_body ''idempotency key already used with another payload'')))"
proof -
  obtain h l c where h: "hashes = (h, l, c)" by (cases hashes)
  have "reserve (pendingRecoveryAfter (rc_env cfg)) ev key hashes req (r_rows s) =
      (Refuse 409 ''idempotency key already used with another payload'', r_rows s)"
    using row ev by (auto simp: reserve_def h hash_matches_def)
  with a ev(1) show ?thesis by (simp add: create_def)
qed

section \<open>Which requests match a row\<close>

text \<open>The request a row was reserved for, as the operator gets it back.\<close>

definition request_of :: "payment_row \<Rightarrow> RouterPaymentRequest" where
  "request_of row = lookup_request (lookup_of row)"

definition hashed_inv :: "(string \<Rightarrow> string) \<Rightarrow> payment_row list \<Rightarrow> bool" where
  "hashed_inv sha rows \<longleftrightarrow> (\<forall>row \<in> set rows. row_hash row = RequestHash sha (encode_router (request_of row)))"

lemma request_of_simps [simp]:
  "rtr_DebtorParticipantID (request_of row) = row_debtor row" "rtr_CreditorParticipantID (request_of row) = row_creditor row"
  "rtr_AmountMinor (request_of row) = row_amount_minor row" "rtr_Currency (request_of row) = row_currency row"
  "rtr_Reference (request_of row) = row_reference row" "rtr_Instrument (request_of row) = row_instrument row"
  by (simp_all add: request_of_def lookup_of_def)

lemma request_of_frozen: "frozen r' = frozen r \<Longrightarrow> request_of r' = request_of r \<and> row_hash r' = row_hash r"
  using frozen_eqD [of r' r] by (simp add: request_of_def lookup_of_def)

lemma canonical_request_of: "payment_row_ok row \<Longrightarrow> canonical (request_of row)"
proof -
  assume ok: "payment_row_ok row"
  then have up: "list_all is_upper (row_currency row)" "row_currency row \<noteq> []" by (auto simp: payment_row_ok_def)
  have "list_all (\<lambda>p. list_ex (\<lambda>c. \<not> is_upper c) (take 1 p) \<and> list_ex (\<lambda>c. \<not> is_upper c) [last p]) space_runes" by code_simp
  then have "\<not> is_upper (hd p) \<and> \<not> is_upper (last p) \<and> p \<noteq> []" if "p \<in> set space_runes" for p
    using that by (cases p) (auto simp: list_all_iff)
  then have "trimmed (row_currency row)"
    using up unfolding trimmed_iff
    by (metis hd_in_set last_in_set list_all_iff set_mono_prefix set_mono_suffix subsetD)
  with ok up show ?thesis
    by (auto simp: canonical_def payment_row_ok_def router_text_def is_upper_utf8 ValidInstrument_utf8 pg_text_utf8)
qed

lemma canonical_fixed: "canonical req \<Longrightarrow> canonical_request req = req"
proof -
  assume c: "canonical req"
  have "to_lower (trim_space (rtr_Instrument req)) = rtr_Instrument req"
    using c by (metis ValidInstrument_def canonical_def)
  moreover have "to_upper (trim_space (rtr_Currency req)) = rtr_Currency req"
    using c by (simp add: canonical_def to_upper_fixed list_all_iff)
  ultimately show ?thesis by (cases req) (simp add: canonical_request_def)
qed

text \<open>A canonical request passes the checks.\<close>

lemma canonical_valid: "canonical req \<Longrightarrow> trim_space (rtr_DebtorParticipantID req) \<noteq> [] \<Longrightarrow>
   trim_space (rtr_CreditorParticipantID req) \<noteq> [] \<Longrightarrow> trim_space (rtr_Reference req) \<noteq> [] \<Longrightarrow>
   ValidateRouterRequest req = None"
  by (auto simp: ValidateRouterRequest_def canonical_def validCurrency_def is_letter_iff list_all_iff)

lemma insert_request_of:
  assumes "insert_payment now pid key hash req gw rows = Some rows'" "canonical req"
  shows "\<exists>row. rows' = rows @ [row] \<and> row_hash row = hash \<and> request_of row = req"
proof -
  have "to_upper (rtr_Currency req) = rtr_Currency req"
    using assms(2) by (simp add: canonical_def to_upper_fixed list_all_iff)
  with insert_payment_Some [OF assms(1)] show ?thesis
    by (auto intro!: RouterPaymentRequest.equality)
qed

lemma reserve_hashed:
  assumes "reserve recovery ev key (request_hashes sha original) (canonical_request original) rows = (res, rows')"
    "hashed_inv sha rows" "canonical (canonical_request original)"
  shows "hashed_inv sha rows'"
proof -
  let ?req = "canonical_request original"
  have upd: "hashed_inv sha (update_where p f rows)" if "\<And>r. frozen (f r) = frozen r" for p f
    using assms(2) request_of_frozen [OF that] by (auto simp: hashed_inv_def set_update_where)
  have ins: "hashed_inv sha rows1"
    if i: "insert_payment now pid key (RequestHash sha (encode_router ?req)) ?req gw rows = Some rows1" for now pid gw rows1
    using insert_request_of [OF i assms(3)] assms(2) by (auto simp: hashed_inv_def)
  from assms(1,2) upd ins show ?thesis
    by (auto simp: reserve_def request_hashes_def claim_pending_def Let_def split: if_splits option.splits
        dest!: committed_rows)
qed

end
