(* ===== verification/Gateway_Runs.thy ===== *)
theory Gateway_Runs
  imports Gateway_Mock
begin

text \<open>
  All interleavings of requests at the gateway, with restarts. A step is one critical
  section of some request, a change of behaviour, or a restart of the process; a commit may
  happen for any key at any time, which covers every request that is past its lookup. What
  a caller sees is recorded in the label.
\<close>

section \<open>Steps and runs\<close>

datatype seen = SawCard string cardResult | SawBank string bankResult | SawNothing

inductive gw_step :: "gateway \<Rightarrow> seen \<Rightarrow> gateway \<Rightarrow> bool" where
  card_hit: "card_lookup k g = (g', Some r) \<Longrightarrow> gw_step g (SawCard k r) g'"
| card_miss: "card_lookup k g = (g', None) \<Longrightarrow> gw_step g SawNothing g'"
| card_answer: "in_int64 (ge_nanos ev) \<Longrightarrow> card_commit ev k g = (g', Answer r) \<Longrightarrow> gw_step g (SawCard k r) g'"
| card_unavailable: "card_commit ev k g = (g', Unavailable m) \<Longrightarrow> gw_step g SawNothing g'"
| bank_hit: "bank_lookup k g = (g', Some r) \<Longrightarrow> gw_step g (SawBank k r) g'"
| bank_miss: "bank_lookup k g = (g', None) \<Longrightarrow> gw_step g SawNothing g'"
| bank_answer: "in_int64 (ge_nanos ev) \<Longrightarrow> bank_commit ev k g = (g', Answer r) \<Longrightarrow> gw_step g (SawBank k r) g'"
| bank_unavailable: "bank_commit ev k g = (g', Unavailable m) \<Longrightarrow> gw_step g SawNothing g'"
| behavior_change: "behavior_handler req g = (g', resp) \<Longrightarrow> gw_step g SawNothing g'"
| restarts: "restart g = Some g' \<Longrightarrow> gw_step g SawNothing g'"

inductive gw_run :: "gateway \<Rightarrow> seen list \<Rightarrow> gateway \<Rightarrow> bool" where
  run_done: "gw_run g [] g"
| run_more: "gw_run g obs g' \<Longrightarrow> gw_step g' ob g'' \<Longrightarrow> gw_run g (obs @ [ob]) g''"

section \<open>Durability\<close>

text \<open>
  With a state file, what the gateway remembers is what the file holds (the attempts
  counter apart, which is saved only with the next result).
\<close>

definition durable :: "gateway \<Rightarrow> bool" where
  "durable g \<longleftrightarrow> statePath (g_env g) \<noteq> [] \<and>
     (case g_disk g of
        NoFile \<Rightarrow> g_card g = Map.empty \<and> g_bank g = Map.empty \<and> effective g = 0
      | Saved (Some cards) (Some banks) st \<Rightarrow>
          cards = g_card g \<and> banks = g_bank g \<and> EffectiveCharges st = effective g
      | _ \<Rightarrow> False)"

lemma durable_new: "statePath env \<noteq> [] \<Longrightarrow> durable (new_gateway env NoFile)"
  by (simp add: durable_def new_gateway_def effective_def zero_stats_def)

lemma durable_cong:
  "durable g \<Longrightarrow> g_card g' = g_card g \<Longrightarrow> g_bank g' = g_bank g \<Longrightarrow> effective g' = effective g \<Longrightarrow>
   g_disk g' = g_disk g \<Longrightarrow> statePath (g_env g') = statePath (g_env g) \<Longrightarrow> durable g'"
  by (auto simp: durable_def split: state_file.splits option.splits)

text \<open>A commit either changes nothing that matters, or writes all of it to the file.\<close>

lemma card_commit_disk:
  assumes "statePath (g_env g) \<noteq> []" "card_commit ev k g = (g', a)"
  shows "g_env g' = g_env g \<and>
    (g_card g' = g_card g \<and> g_bank g' = g_bank g \<and> effective g' = effective g \<and> g_disk g' = g_disk g \<or>
     g_disk g' = Saved (Some (g_card g')) (Some (g_bank g')) (g_stats g'))"
  using assms
  by (auto simp: card_commit_def persistStateLocked_def Let_def effective_def fun_upd_idem
      split: if_splits option.splits)

lemma bank_commit_disk:
  assumes "statePath (g_env g) \<noteq> []" "bank_commit ev k g = (g', a)"
  shows "g_env g' = g_env g \<and>
    (g_card g' = g_card g \<and> g_bank g' = g_bank g \<and> effective g' = effective g \<and> g_disk g' = g_disk g \<or>
     g_disk g' = Saved (Some (g_card g')) (Some (g_bank g')) (g_stats g'))"
  using assms
  by (auto simp: bank_commit_def persistStateLocked_def Let_def effective_def fun_upd_idem
      split: if_splits option.splits)

lemma durable_commit:
  assumes "durable g" "g_env g' = g_env g"
    "g_card g' = g_card g \<and> g_bank g' = g_bank g \<and> effective g' = effective g \<and> g_disk g' = g_disk g \<or>
     g_disk g' = Saved (Some (g_card g')) (Some (g_bank g')) (g_stats g')"
  shows "durable g'"
  using assms by (auto simp: durable_def effective_def split: state_file.splits option.splits)

lemma statePath_set_env:
  "k \<noteq> ''GATEWAY_STATE_FILE'' \<Longrightarrow> statePath (set_env k v env) = statePath env"
  by (simp add: statePath_def set_env_def)

lemma behavior_frame:
  assumes "behavior_handler req g = (g', resp)"
  shows "g_card g' = g_card g \<and> g_bank g' = g_bank g \<and> g_stats g' = g_stats g \<and> g_disk g' = g_disk g
     \<and> statePath (g_env g') = statePath (g_env g)"
  using assms
  by (auto simp: behavior_handler_def Let_def statePath_set_env split: if_splits option.splits)

text \<open>A restart from a durable state loses only the attempts since the last save.\<close>

lemma restart_durable:
  assumes "durable g"
  shows "\<exists>g'. restart g = Some g' \<and> g_card g' = g_card g \<and> g_bank g' = g_bank g
    \<and> effective g' = effective g \<and> g_disk g' = g_disk g \<and> g_env g' = g_env g"
  using assms
  by (auto simp: durable_def restart_def loadState_def new_gateway_def effective_def zero_stats_def Let_def
      split: state_file.splits option.splits)

lemma gw_step_durable: "gw_step g ob g' \<Longrightarrow> durable g \<Longrightarrow> durable g'"
proof (induction rule: gw_step.induct)
  case (card_answer ev k g g' r)
  then show ?case using card_commit_disk durable_commit by (metis durable_def)
next
  case (card_unavailable ev k g g' m)
  then show ?case using card_commit_disk durable_commit by (metis durable_def)
next
  case (bank_answer ev k g g' r)
  then show ?case using bank_commit_disk durable_commit by (metis durable_def)
next
  case (bank_unavailable ev k g g' m)
  then show ?case using bank_commit_disk durable_commit by (metis durable_def)
next
  case (behavior_change req g g' resp)
  from behavior_frame [OF this(1)] this(2) show ?case
    by (auto intro: durable_cong simp: effective_def)
next
  case (restarts g g')
  with restart_durable [of g] show ?case by (auto intro: durable_cong)
qed (auto simp: card_lookup_def bank_lookup_def effective_def intro: durable_cong)

section \<open>Answers are remembered\<close>

definition remembers :: "gateway \<Rightarrow> seen \<Rightarrow> bool" where
  "remembers g ob = (case ob of
     SawCard k r \<Rightarrow> g_card g k = Some r | SawBank k r \<Rightarrow> g_bank g k = Some r | SawNothing \<Rightarrow> True)"

lemma remembers_mono:
  "remembers g ob \<Longrightarrow> g_card g \<subseteq>\<^sub>m g_card g' \<Longrightarrow> g_bank g \<subseteq>\<^sub>m g_bank g' \<Longrightarrow> remembers g' ob"
  by (auto simp: remembers_def map_le_def dom_def split: seen.splits)

lemma card_commit_grows: "card_commit ev k g = (g', a) \<Longrightarrow> g_card g \<subseteq>\<^sub>m g_card g' \<and> g_bank g' = g_bank g"
  by (auto simp: card_commit_def persistStateLocked_def Let_def map_le_def split: if_splits option.splits)

lemma bank_commit_grows: "bank_commit ev k g = (g', a) \<Longrightarrow> g_bank g \<subseteq>\<^sub>m g_bank g' \<and> g_card g' = g_card g"
  by (auto simp: bank_commit_def persistStateLocked_def Let_def map_le_def split: if_splits option.splits)

lemma gw_step_remembers:
  "gw_step g ob g' \<Longrightarrow> durable g \<Longrightarrow>
   g_card g \<subseteq>\<^sub>m g_card g' \<and> g_bank g \<subseteq>\<^sub>m g_bank g' \<and> remembers g' ob"
proof (induction rule: gw_step.induct)
  case (card_answer ev k g g' r)
  then show ?case using card_commit_grows card.answer_recorded by (auto simp: remembers_def)
next
  case (card_unavailable ev k g g' m)
  then show ?case using card_commit_grows by (auto simp: remembers_def)
next
  case (bank_answer ev k g g' r)
  then show ?case using bank_commit_grows bank.answer_recorded by (auto simp: remembers_def)
next
  case (bank_unavailable ev k g g' m)
  then show ?case using bank_commit_grows by (auto simp: remembers_def)
next
  case (behavior_change req g g' resp)
  from behavior_frame [OF this(1)] show ?case by (simp add: remembers_def)
next
  case (restarts g g')
  with restart_durable [of g] show ?case by (auto simp: remembers_def)
qed (auto simp: card_lookup_def bank_lookup_def remembers_def)

lemma gw_run_remembers:
  "gw_run g obs g' \<Longrightarrow> durable g \<Longrightarrow> durable g' \<and> (\<forall>ob \<in> set obs. remembers g' ob)"
proof (induction rule: gw_run.induct)
  case (run_more g obs g' ob g'')
  then have d: "durable g'" and r: "\<forall>ob \<in> set obs. remembers g' ob" by auto
  from gw_step_remembers [OF run_more(2) d] gw_step_durable [OF run_more(2) d] r show ?case
    by (auto intro: remembers_mono)
qed simp

section \<open>The charge counter\<close>

definition charged_cards :: "gateway \<Rightarrow> string set" where
  "charged_cards g = {k. \<exists>r. g_card g k = Some r \<and> card_authorized r}"

definition charged_banks :: "gateway \<Rightarrow> string set" where
  "charged_banks g = {k. \<exists>r. g_bank g k = Some r \<and> bank_accepted r}"

definition ledger_inv :: "gateway \<Rightarrow> bool" where
  "ledger_inv g \<longleftrightarrow> finite (charged_cards g) \<and> finite (charged_banks g) \<and>
     effective g = int (card (charged_cards g)) + int (card (charged_banks g))"

lemma ledger_inv_new [simp]: "ledger_inv (new_gateway env disk)"
  by (simp add: ledger_inv_def charged_cards_def charged_banks_def new_gateway_def effective_def zero_stats_def)

lemma ledger_inv_cong:
  "ledger_inv g \<Longrightarrow> g_card g' = g_card g \<Longrightarrow> g_bank g' = g_bank g \<Longrightarrow> effective g' = effective g \<Longrightarrow> ledger_inv g'"
  by (simp add: ledger_inv_def charged_cards_def charged_banks_def)

lemma charged_cards_upd:
  "g_card g k = None \<Longrightarrow> g_card g' = (g_card g)(k \<mapsto> r) \<Longrightarrow>
   charged_cards g' = (if card_authorized r then insert k (charged_cards g) else charged_cards g)
   \<and> k \<notin> charged_cards g"
  by (auto simp: charged_cards_def)

lemma charged_banks_upd:
  "g_bank g k = None \<Longrightarrow> g_bank g' = (g_bank g)(k \<mapsto> r) \<Longrightarrow>
   charged_banks g' = (if bank_accepted r then insert k (charged_banks g) else charged_banks g)
   \<and> k \<notin> charged_banks g"
  by (auto simp: charged_banks_def)

lemma card_commit_ledger:
  assumes "card_commit ev k g = (g', a)" "ledger_inv g"
  shows "ledger_inv g'"
proof (cases "g_card g k")
  case (Some r)
  with card_commit_known assms show ?thesis by metis
next
  case None
  have b: "charged_banks g' = charged_banks g"
    using card_commit_grows [OF assms(1)] by (simp add: charged_banks_def)
  from card_commit_new [OF None assms(1)] show ?thesis
  proof (elim disjE exE conjE)
    fix r assume r: "g_card g' = (g_card g)(k \<mapsto> r)" "effective g' = effective g + (if card_authorized r then 1 else 0)"
    from charged_cards_upd [OF None r(1)] r(2) assms(2) b show ?thesis by (simp add: ledger_inv_def)
  qed (use card_commit_grows [OF assms(1)] assms(2) in \<open>auto intro: ledger_inv_cong\<close>)
qed

lemma bank_commit_ledger:
  assumes "bank_commit ev k g = (g', a)" "ledger_inv g"
  shows "ledger_inv g'"
proof (cases "g_bank g k")
  case (Some r)
  with bank_commit_known assms show ?thesis by metis
next
  case None
  have b: "charged_cards g' = charged_cards g"
    using bank_commit_grows [OF assms(1)] by (simp add: charged_cards_def)
  from bank_commit_new [OF None assms(1)] show ?thesis
  proof (elim disjE exE conjE)
    fix r assume r: "g_bank g' = (g_bank g)(k \<mapsto> r)" "effective g' = effective g + (if bank_accepted r then 1 else 0)"
    from charged_banks_upd [OF None r(1)] r(2) assms(2) b show ?thesis by (simp add: ledger_inv_def)
  qed (use bank_commit_grows [OF assms(1)] assms(2) in \<open>auto intro: ledger_inv_cong\<close>)
qed

lemma gw_step_ledger: "gw_step g ob g' \<Longrightarrow> durable g \<Longrightarrow> ledger_inv g \<Longrightarrow> ledger_inv g'"
proof (induction rule: gw_step.induct)
  case (behavior_change req g g' resp)
  from behavior_frame [OF this(1)] this(3) show ?case by (auto intro: ledger_inv_cong simp: effective_def)
next
  case (restarts g g')
  with restart_durable [of g] show ?case by (auto intro: ledger_inv_cong)
qed (auto simp: card_lookup_def bank_lookup_def effective_def
    intro: card_commit_ledger bank_commit_ledger ledger_inv_cong)

lemma gw_run_ledger: "gw_run g obs g' \<Longrightarrow> durable g \<Longrightarrow> ledger_inv g \<Longrightarrow> ledger_inv g'"
proof (induction rule: gw_run.induct)
  case (run_more g obs g' ob g'')
  then show ?case using gw_step_ledger gw_run_remembers by blast
qed simp

end
