(* ===== verification/Provider_Link.thy ===== *)
theory Provider_Link
  imports Adapters Gateway_Runs
begin

text \<open>
  The adapters of \<open>adapters.go\<close> talking to the gateway of \<open>cmd/gateway-mock\<close> over a link
  that may lose requests and answers. The composition shows what the router relies on: a
  status SUCCEEDED stands for a charge the provider has on its books, and however often a
  key is tried it is charged at most once.
\<close>

section \<open>What the gateway has on its books\<close>

definition declined_card :: cardResult where
  "declined_card = \<lparr>card_State = ''DECLINED'', card_AuthorizationID = [],
     card_Message = ''card authorization declined''\<rparr>"

definition authorized_card :: "int \<Rightarrow> cardResult" where
  "authorized_card n = \<lparr>card_State = ''AUTHORIZED'', card_AuthorizationID = ''card-auth-'' @ int_dec n,
     card_Message = []\<rparr>"

definition rejected_bank :: bankResult where
  "rejected_bank = \<lparr>bank_Decision = ''REJECTED'', bank_TransferID = [],
     bank_Message = ''bank transfer rejected''\<rparr>"

definition accepted_bank :: "int \<Rightarrow> bankResult" where
  "accepted_bank n = \<lparr>bank_Decision = ''ACCEPTED'', bank_TransferID = ''bank-transfer-'' @ int_dec n,
     bank_Message = []\<rparr>"

definition card_wf :: "cardResult \<Rightarrow> bool" where
  "card_wf r \<longleftrightarrow> r = declined_card \<or> (\<exists>n. in_int64 n \<and> r = authorized_card n)"

definition bank_wf :: "bankResult \<Rightarrow> bool" where
  "bank_wf r \<longleftrightarrow> r = rejected_bank \<or> (\<exists>n. in_int64 n \<and> r = accepted_bank n)"

definition books_wf :: "gateway \<Rightarrow> bool" where
  "books_wf g \<longleftrightarrow> (\<forall>k r. g_card g k = Some r \<longrightarrow> card_wf r) \<and> (\<forall>k r. g_bank g k = Some r \<longrightarrow> bank_wf r)"

lemma books_wf_new [simp]: "books_wf (new_gateway env disk)"
  by (simp add: books_wf_def new_gateway_def)

lemma books_wf_cong: "books_wf g \<Longrightarrow> g_card g' = g_card g \<Longrightarrow> g_bank g' = g_bank g \<Longrightarrow> books_wf g'"
  by (simp add: books_wf_def)

lemma card_commit_books:
  assumes c: "card_commit ev k g = (g', a)" and ev: "in_int64 (ge_nanos ev)"
  shows "g_card g' = g_card g \<or> (\<exists>r. card_wf r \<and> g_card g' = (g_card g)(k \<mapsto> r))"
proof -
  have wf: "card_wf declined_card" "card_wf (authorized_card (ge_nanos ev))"
    using ev by (auto simp: card_wf_def)
  obtain b where b: "ge_behavior ev = b" by blast
  have "g_card g' = g_card g \<or> g_card g' = (g_card g)(k \<mapsto> declined_card) \<or> g_card g' = (g_card g)(k \<mapsto> authorized_card (ge_nanos ev))"
    using c unfolding card_commit_def b Let_def persistStateLocked_def declined_card_def authorized_card_def
    by (cases "g_card g k"; cases "b = ''error''"; cases "b = ''decline''"; cases "ge_disk ev")
      (auto simp: fun_upd_idem split: if_splits)
  with wf show ?thesis by blast
qed

lemma bank_commit_books:
  assumes c: "bank_commit ev k g = (g', a)" and ev: "in_int64 (ge_nanos ev)"
  shows "g_bank g' = g_bank g \<or> (\<exists>r. bank_wf r \<and> g_bank g' = (g_bank g)(k \<mapsto> r))"
proof -
  have wf: "bank_wf rejected_bank" "bank_wf (accepted_bank (ge_nanos ev))"
    using ev by (auto simp: bank_wf_def)
  obtain b where b: "ge_behavior ev = b" by blast
  have "g_bank g' = g_bank g \<or> g_bank g' = (g_bank g)(k \<mapsto> rejected_bank) \<or> g_bank g' = (g_bank g)(k \<mapsto> accepted_bank (ge_nanos ev))"
    using c unfolding bank_commit_def b Let_def persistStateLocked_def rejected_bank_def accepted_bank_def
    by (cases "g_bank g k"; cases "b = ''error''"; cases "b = ''decline''"; cases "ge_disk ev")
      (auto simp: fun_upd_idem split: if_splits)
  with wf show ?thesis by blast
qed

lemma card_unavailable_books: "card_commit ev k g = (g', Unavailable m) \<Longrightarrow> g_card g' = g_card g"
  by (auto simp: card_commit_def persistStateLocked_def Let_def fun_upd_idem split: if_splits option.splits)

lemma bank_unavailable_books: "bank_commit ev k g = (g', Unavailable m) \<Longrightarrow> g_bank g' = g_bank g"
  by (auto simp: bank_commit_def persistStateLocked_def Let_def fun_upd_idem split: if_splits option.splits)

lemma books_wf_card: "books_wf g \<Longrightarrow> g_bank g' = g_bank g \<Longrightarrow>
   g_card g' = g_card g \<or> (\<exists>r. card_wf r \<and> g_card g' = (g_card g)(k \<mapsto> r)) \<Longrightarrow> books_wf g'"
  by (auto simp: books_wf_def split: if_splits)

lemma books_wf_bank: "books_wf g \<Longrightarrow> g_card g' = g_card g \<Longrightarrow>
   g_bank g' = g_bank g \<or> (\<exists>r. bank_wf r \<and> g_bank g' = (g_bank g)(k \<mapsto> r)) \<Longrightarrow> books_wf g'"
  by (auto simp: books_wf_def split: if_splits)

lemma gw_step_books: "gw_step g ob g' \<Longrightarrow> durable g \<Longrightarrow> books_wf g \<Longrightarrow> books_wf g'"
proof (induction rule: gw_step.induct)
  case (card_answer ev k g g' r)
  with card_commit_books card_commit_grows show ?case by (metis books_wf_card)
next
  case (card_unavailable ev k g g' m)
  with card_unavailable_books card_commit_grows show ?case by (metis books_wf_card)
next
  case (bank_answer ev k g g' r)
  with bank_commit_books bank_commit_grows show ?case by (metis books_wf_bank)
next
  case (bank_unavailable ev k g g' m)
  with bank_unavailable_books bank_commit_grows show ?case by (metis books_wf_bank)
next
  case (behavior_change req g g' resp)
  from behavior_frame [OF this(1)] this(3) show ?case by (auto intro: books_wf_cong)
next
  case (restarts g g')
  with restart_durable [of g] show ?case by (auto intro: books_wf_cong)
qed (auto simp: card_lookup_def bank_lookup_def intro: books_wf_cong)

lemma gw_run_books: "gw_run g obs g' \<Longrightarrow> durable g \<Longrightarrow> books_wf g \<Longrightarrow> books_wf g'"
proof (induction rule: gw_run.induct)
  case (run_more g obs g' ob g'')
  then show ?case using gw_step_books gw_run_remembers by blast
qed simp

text \<open>Recorded results are short, well-formed, and told apart by their state.\<close>

lemma card_state_upper [simp]:
  "to_upper ''AUTHORIZED'' = ''AUTHORIZED''" "to_upper ''DECLINED'' = ''DECLINED''"
  "to_upper ''ACCEPTED'' = ''ACCEPTED''" "to_upper ''REJECTED'' = ''REJECTED''"
  by code_simp+

lemma ascii_ids:
  "ascii (''card-auth-'' @ int_dec n)" "ascii (''bank-transfer-'' @ int_dec n)"
  by (simp_all add: byte_val_def)

lemmas utf8_valid_ids = ascii_ids [THEN utf8_valid_ascii]

lemma json_ok_card_wf: "card_wf r \<Longrightarrow> json_ok (encode_card r)"
proof -
  have "utf8_valid ''DECLINED''" "utf8_valid ''AUTHORIZED''" "utf8_valid ''card authorization declined''"
    by (rule utf8_valid_ascii; code_simp)+
  then show "card_wf r \<Longrightarrow> json_ok (encode_card r)"
    by (auto simp: card_wf_def declined_card_def authorized_card_def intro!: json_ok_card
        intro: utf8_valid_ids [simplified])
qed

lemma json_ok_bank_wf: "bank_wf r \<Longrightarrow> json_ok (encode_bank r)"
proof -
  have "utf8_valid ''REJECTED''" "utf8_valid ''ACCEPTED''" "utf8_valid ''bank transfer rejected''"
    by (rule utf8_valid_ascii; code_simp)+
  then show "bank_wf r \<Longrightarrow> json_ok (encode_bank r)"
    by (auto simp: bank_wf_def rejected_bank_def accepted_bank_def intro!: json_ok_bank
        intro: utf8_valid_ids [simplified])
qed

lemma length_quoted: "ascii s \<Longrightarrow> length (quoted s) \<le> 6 * length s + 2"
  using length_json_escape_ascii [of s] by (simp add: quoted_def)

lemma card_wf_short:
  assumes "card_wf r"
  shows "length (http_body (JSON st (encode_card r))) \<le> 2 ^ 20"
  using assms unfolding card_wf_def
proof (elim disjE exE conjE)
  assume r: "r = declined_card"
  have "length (json_text (encode_card declined_card)) \<le> 300" by code_simp
  with r show ?thesis by (simp add: JSON_def)
next
  fix n assume n: "in_int64 n" and r: "r = authorized_card n"
  let ?id = "''card-auth-'' @ int_dec n"
  have len: "length ?id \<le> 30" using length_int_dec [OF n] by simp
  have "length (quoted ?id) \<le> 182" using length_quoted [OF ascii_ids(1), of n] len by linarith
  moreover have "length (quoted ''state'') = 7" "length (quoted ''authorization_id'') = 18"
    "length (quoted ''AUTHORIZED'') = 12" by code_simp+
  ultimately show ?thesis
    by (simp add: r JSON_def encode_card_def authorized_card_def json_text_JObj member_text_def
        str_member_def str_omitempty_def)
qed

lemma bank_wf_short:
  assumes "bank_wf r"
  shows "length (http_body (JSON st (encode_bank r))) \<le> 2 ^ 20"
  using assms unfolding bank_wf_def
proof (elim disjE exE conjE)
  assume r: "r = rejected_bank"
  have "length (json_text (encode_bank rejected_bank)) \<le> 300" by code_simp
  with r show ?thesis by (simp add: JSON_def)
next
  fix n assume n: "in_int64 n" and r: "r = accepted_bank n"
  let ?id = "''bank-transfer-'' @ int_dec n"
  have len: "length ?id \<le> 34" using length_int_dec [OF n] by simp
  have "length (quoted ?id) \<le> 206" using length_quoted [OF ascii_ids(2), of n] len by linarith
  moreover have "length (quoted ''decision'') = 10" "length (quoted ''transfer_id'') = 13"
    "length (quoted ''ACCEPTED'') = 10" by code_simp+
  ultimately show ?thesis
    by (simp add: r JSON_def encode_bank_def accepted_bank_def json_text_JObj member_text_def
        str_member_def str_omitempty_def)
qed

section \<open>A link that may lose messages\<close>

text \<open>
  The fate of a request: lost on the way, handled with the answer lost, or handled with the
  answer delivered. When the script of fates is over the link is down.
\<close>

datatype delivery = LostRequest | LostAnswer gateway_event | Delivered gateway_event

definition link_send ::
  "string \<Rightarrow> http_request \<Rightarrow> delivery list \<times> gateway \<Rightarrow> (delivery list \<times> gateway) \<times> (string + http_response)" where
  "link_send base r w =
     (let g = snd w; r' = r\<lparr>req_path := trim_prefix base (req_path r)\<rparr> in
      case fst w of
        [] \<Rightarrow> (w, Inl ''connection refused'')
      | LostRequest # ds \<Rightarrow> ((ds, g), Inl ''request lost'')
      | LostAnswer ev # ds \<Rightarrow> ((ds, fst (gateway_serve ev r' g)), Inl ''answer lost'')
      | Delivered ev # ds \<Rightarrow>
          (let (g', resp) = gateway_serve ev r' g
           in ((ds, g'), case resp of Some a \<Rightarrow> Inr a | None \<Rightarrow> Inl ''connection closed'')))"

definition link :: "string \<Rightarrow> (delivery list \<times> gateway) network" where
  "link base = \<lparr>net_url_error = (\<lambda>_. None), net_send = link_send base\<rparr>"

definition delivery_ok :: "delivery \<Rightarrow> bool" where
  "delivery_ok d = (case d of LostRequest \<Rightarrow> True
     | LostAnswer ev \<Rightarrow> in_int64 (ge_nanos ev) | Delivered ev \<Rightarrow> in_int64 (ge_nanos ev))"

section \<open>One handled request as steps of the gateway\<close>

lemma gw_run_append: "gw_run h obs' h' \<Longrightarrow> gw_run g obs h \<Longrightarrow> gw_run g (obs @ obs') h'"
proof (induction rule: gw_run.induct)
  case (run_more g obs g' ob g'')
  then show ?case using gw_run.run_more by (metis append_assoc)
qed simp

lemma gw_run_1: "gw_step g ob g' \<Longrightarrow> gw_run g [ob] g'"
  using gw_run.intros by fastforce

lemma gw_run_2: "gw_step g a h \<Longrightarrow> gw_step h b k \<Longrightarrow> gw_run g [a, b] k"
  using gw_run_append [OF gw_run_1 gw_run_1, of h b k g a] by simp

lemma card_commit_seen:
  assumes c: "card_commit ev k g = (g', a)" and ev: "in_int64 (ge_nanos ev)"
  shows "\<exists>ob. gw_step g ob g' \<and> (case a of Unavailable m \<Rightarrow> True | Answer q \<Rightarrow> ob = SawCard k q)"
    "g_env g' = g_env g" "g_bank g' = g_bank g" "j \<noteq> k \<Longrightarrow> g_card g' j = g_card g j"
proof -
  show "\<exists>ob. gw_step g ob g' \<and> (case a of Unavailable m \<Rightarrow> True | Answer q \<Rightarrow> ob = SawCard k q)"
    using c ev gw_step.card_answer gw_step.card_unavailable by (cases a) (auto, blast)
qed (use c card_commit_grows [OF c] in
    \<open>auto simp: card_commit_def persistStateLocked_def Let_def split: if_splits option.splits\<close>)

lemma cardAuthorization_run:
  assumes h: "cardAuthorization ev r g = (g', resp)" and ev: "in_int64 (ge_nanos ev)"
    and r: "req_method r = ''POST''" "Decode decode_card_request r = Some c" "cr_RequestID c = k" "k \<noteq> []"
  shows "\<exists>obs. gw_run g obs g' \<and> g_bank g' = g_bank g \<and> (\<forall>j. j \<noteq> k \<longrightarrow> g_card g' j = g_card g j) \<and>
    g_env g' = g_env g \<and>
    (resp = None \<or> (\<exists>m. resp = Some (JSON 503 (message_body m))) \<or>
     (\<exists>q. SawCard k q \<in> set obs \<and> resp = Some (JSON 200 (encode_card q))))"
proof -
  obtain g1 hit where l: "card_lookup k g = (g1, hit)" by (cases "card_lookup k g")
  then have g1: "g_bank g1 = g_bank g" "g_card g1 = g_card g" "g_env g1 = g_env g"
    by (auto simp: card_lookup_def)
  note handler = h [unfolded cardAuthorization_def, simplified r l, simplified]
  consider (hit) q where "hit = Some q" | (left) "hit = None" "waitProvider (ge_cancelled ev) g1"
    | (works) "hit = None" "\<not> waitProvider (ge_cancelled ev) g1" by (cases hit) auto
  then show ?thesis
  proof cases
    case hit
    with gw_run_1 [OF gw_step.card_hit] l handler r g1 show ?thesis
      by (intro exI [of _ "[SawCard k q]"]) auto
  next
    case left
    with gw_run_1 [OF gw_step.card_miss] l handler r g1 show ?thesis
      by (intro exI [of _ "[SawNothing]"]) auto
  next
    case works
    obtain g2 a where c: "card_commit (read_behavior g1 ev) k g1 = (g2, a)" by fastforce
    have ev: "in_int64 (ge_nanos (read_behavior g1 ev))" using ev by simp
    from card_commit_seen(1) [OF c ev] obtain ob where
      ob: "gw_step g1 ob g2" "case a of Unavailable m \<Rightarrow> True | Answer q \<Rightarrow> ob = SawCard k q" by blast
    have "gw_run g [SawNothing, ob] g2"
      using gw_run_2 [OF gw_step.card_miss ob(1)] l works by simp
    moreover have "g' = g2" "resp = Some (reply_response encode_card a)"
      using handler works c r l by auto
    ultimately show ?thesis
      using card_commit_seen(2-) [OF c ev] g1 ob(2)
      by (intro exI [of _ "[SawNothing, ob]"]) (auto simp: reply_response_def split: reply.splits)
  qed
qed

lemma bank_commit_seen:
  assumes c: "bank_commit ev k g = (g', a)" and ev: "in_int64 (ge_nanos ev)"
  shows "\<exists>ob. gw_step g ob g' \<and> (case a of Unavailable m \<Rightarrow> True | Answer q \<Rightarrow> ob = SawBank k q)"
    "g_env g' = g_env g" "g_card g' = g_card g" "j \<noteq> k \<Longrightarrow> g_bank g' j = g_bank g j"
proof -
  show "\<exists>ob. gw_step g ob g' \<and> (case a of Unavailable m \<Rightarrow> True | Answer q \<Rightarrow> ob = SawBank k q)"
    using c ev gw_step.bank_answer gw_step.bank_unavailable by (cases a) (auto, blast)
qed (use c bank_commit_grows [OF c] in
    \<open>auto simp: bank_commit_def persistStateLocked_def Let_def split: if_splits option.splits\<close>)

lemma bankTransfer_run:
  assumes h: "bankTransfer ev r g = (g', resp)" and ev: "in_int64 (ge_nanos ev)"
    and r: "req_method r = ''POST''" "Decode decode_bank_request r = Some c" "br_TransferID c = k" "k \<noteq> []"
  shows "\<exists>obs. gw_run g obs g' \<and> g_card g' = g_card g \<and> (\<forall>j. j \<noteq> k \<longrightarrow> g_bank g' j = g_bank g j) \<and>
    g_env g' = g_env g \<and>
    (resp = None \<or> (\<exists>m. resp = Some (JSON 503 (message_body m))) \<or>
     (\<exists>q. SawBank k q \<in> set obs \<and> resp = Some (JSON 200 (encode_bank q))))"
proof -
  obtain g1 hit where l: "bank_lookup k g = (g1, hit)" by (cases "bank_lookup k g")
  then have g1: "g_card g1 = g_card g" "g_bank g1 = g_bank g" "g_env g1 = g_env g"
    by (auto simp: bank_lookup_def)
  note handler = h [unfolded bankTransfer_def, simplified r l, simplified]
  consider (hit) q where "hit = Some q" | (left) "hit = None" "waitProvider (ge_cancelled ev) g1"
    | (works) "hit = None" "\<not> waitProvider (ge_cancelled ev) g1" by (cases hit) auto
  then show ?thesis
  proof cases
    case hit
    with gw_run_1 [OF gw_step.bank_hit] l handler r g1 show ?thesis
      by (intro exI [of _ "[SawBank k q]"]) auto
  next
    case left
    with gw_run_1 [OF gw_step.bank_miss] l handler r g1 show ?thesis
      by (intro exI [of _ "[SawNothing]"]) auto
  next
    case works
    obtain g2 a where c: "bank_commit (read_behavior g1 ev) k g1 = (g2, a)" by fastforce
    have ev: "in_int64 (ge_nanos (read_behavior g1 ev))" using ev by simp
    from bank_commit_seen(1) [OF c ev] obtain ob where
      ob: "gw_step g1 ob g2" "case a of Unavailable m \<Rightarrow> True | Answer q \<Rightarrow> ob = SawBank k q" by blast
    have "gw_run g [SawNothing, ob] g2"
      using gw_run_2 [OF gw_step.bank_miss ob(1)] l works by simp
    moreover have "g' = g2" "resp = Some (reply_response encode_bank a)"
      using handler works c r l by auto
    ultimately show ?thesis
      using bank_commit_seen(2-) [OF c ev] g1 ob(2)
      by (intro exI [of _ "[SawNothing, ob]"]) (auto simp: reply_response_def split: reply.splits)
  qed
qed

section \<open>One charge over the link\<close>

lemma link_simps [simp]: "net_url_error (link base) url = None" "net_send (link base) = link_send base"
  by (simp_all add: link_def)

text \<open>The gateway takes the credential the adapters present.\<close>

definition accepts_token :: "gateway \<Rightarrow> string \<Rightarrow> bool" where
  "accepts_token g tok \<longleftrightarrow> trim_space tok \<noteq> [] \<and>
     (let expected = trim_space (g_env g ''GATEWAY_PAYMENT_TOKEN'');
          expected = (if expected = [] then trim_space (g_env g ''GATEWAY_AUTH_TOKEN'') else expected)
      in expected = trim_space tok)"

definition trace_only :: "header \<Rightarrow> bool" where
  "trace_only h \<longleftrightarrow> dom h \<subseteq> {''Traceparent'', ''Tracestate'', ''X-Request-Id''}"

lemma trace_only_TraceHeaders [simp]: "trace_only (TraceHeaders r)"
  using dom_TraceHeaders by (simp add: trace_only_def)

lemma paymentAuth_accepts:
  assumes "accepts_token g tok" "trace_only trace"
  shows "paymentAuth (g_env g) ((provider_request tok url trace body)\<lparr>req_path := p\<rparr>) = None"
proof -
  have "''X-Gateway-Auth'' \<notin> dom trace" using assms(2) by (auto simp: trace_only_def)
  then have "header_get (req_header ((provider_request tok url trace body)\<lparr>req_path := p\<rparr>)) ''X-Gateway-Auth'' = tok"
    using assms(1) by (simp add: provider_request_def header_get_assign_all canonical_trace_keys accepts_token_def)
  then show ?thesis using assms(1) by (auto simp: paymentAuth_def Let_def accepts_token_def)
qed

lemma accepts_token_cong: "g_env g' = g_env g \<Longrightarrow> accepts_token g' tok = accepts_token g tok"
  by (simp add: accepts_token_def)

lemma card_serve_run:
  assumes g: "gateway_serve ev ((provider_request tok url trace (card_payload req k))\<lparr>req_path := ''/v1/card/authorizations''\<rparr>) g = (g', resp)"
    and ev: "in_int64 (ge_nanos ev)" and ok: "accepts_token g tok" "trace_only trace"
    and req: "router_text req" "utf8_valid k" "k \<noteq> []"
  shows "\<exists>obs. gw_run g obs g' \<and> g_bank g' = g_bank g \<and> (\<forall>j. j \<noteq> k \<longrightarrow> g_card g' j = g_card g j) \<and>
    g_env g' = g_env g \<and>
    (resp = None \<or> (\<exists>m. resp = Some (JSON 503 (message_body m))) \<or>
     (\<exists>q. SawCard k q \<in> set obs \<and> resp = Some (JSON 200 (encode_card q))))"
proof -
  let ?r = "(provider_request tok url trace (card_payload req k))\<lparr>req_path := ''/v1/card/authorizations''\<rparr>"
  have r: "req_method ?r = ''POST''" "req_path ?r = ''/v1/card/authorizations''" "req_body ?r = card_payload req k"
    by (simp_all add: provider_request_def)
  have h: "cardAuthorization ev ?r g = (g', resp)"
    using g paymentAuth_accepts [OF ok] r(2) by (simp add: gateway_serve_def guarded_def)
  obtain c where "Decode decode_card_request ?r = Some c" "cr_RequestID c = k"
    using Decode_card_payload [OF req(1,2) r(3)] by auto
  with cardAuthorization_run [OF h ev r(1)] req(3) show ?thesis by simp
qed

definition card_reported :: "seen list \<Rightarrow> string \<Rightarrow> ProviderResult \<Rightarrow> bool" where
  "card_reported obs k res \<longleftrightarrow>
     (prov_Status res = ''SUCCEEDED'' \<longrightarrow>
        (\<exists>n. SawCard k (authorized_card n) \<in> set obs \<and> prov_ProviderRef res = card_AuthorizationID (authorized_card n))) \<and>
     (prov_Status res = ''FAILED'' \<longrightarrow> SawCard k declined_card \<in> set obs)"

lemma card_reported_pending [simp]: "card_reported obs k (provider_result ''PENDING'' r e)"
  by (simp add: card_reported_def)

lemma card_normalize_reported:
  assumes "card_wf q" "SawCard k q \<in> set obs"
  shows "card_reported obs k (card_normalize (limit_read (2 ^ 20) (http_body (JSON 200 (encode_card q)))))"
  using assms(2) card_normalize_answer [OF json_ok_card_wf [OF assms(1)]]
    limit_read_short [OF card_wf_short [OF assms(1)]] assms(1)
  by (auto simp: card_reported_def card_wf_def declined_card_def authorized_card_def)

lemma card_Charge_link:
  assumes c: "card_Charge (link base) a trace req k (ds, g) = ((ds', g'), res)"
    and base: "base = trim_right_chars ''/'' (card_BaseURL a)"
    and ds: "list_all delivery_ok ds" and ok: "accepts_token g (card_AuthToken a)" "trace_only trace"
    and req: "router_text req" "utf8_valid k" "k \<noteq> []"
    and g: "durable g" "books_wf g"
  shows "\<exists>obs. gw_run g obs g' \<and> g_bank g' = g_bank g \<and> (\<forall>j. j \<noteq> k \<longrightarrow> g_card g' j = g_card g j) \<and>
    g_env g' = g_env g \<and> list_all delivery_ok ds' \<and> card_reported obs k res"
proof (cases ds)
  case Nil
  with c have "g' = g" "ds' = []" "res = provider_result ''PENDING'' [] ''provider unavailable''"
    by (auto simp: card_Charge_def callProvider_cases link_send_def uncertain_def)
  then show ?thesis by (intro exI [of _ "[]"]) (simp add: run_done)
next
  case (Cons d es)
  let ?r = "provider_request (card_AuthToken a) (base @ ''/v1/card/authorizations'') trace (card_payload req k)"
  have path: "trim_prefix base (req_path ?r) = ''/v1/card/authorizations''" by (simp add: provider_request_def)
  note charge = c [unfolded card_Charge_def callProvider_cases base [symmetric], simplified, unfolded link_send_def Cons path Let_def]
  note serve = card_serve_run [OF _ _ ok req]
  show ?thesis
  proof (cases d)
    case LostRequest
    with charge have "g' = g" "ds' = es" "res = provider_result ''PENDING'' [] ''provider unavailable''"
      by (auto simp: uncertain_def)
    with ds Cons show ?thesis by (intro exI [of _ "[]"]) (simp add: run_done)
  next
    case (LostAnswer ev)
    with charge have r: "g' = fst (gateway_serve ev (?r\<lparr>req_path := ''/v1/card/authorizations''\<rparr>) g)" "ds' = es"
      "res = provider_result ''PENDING'' [] ''provider unavailable''"
      by (auto simp: uncertain_def path)
    obtain resp where "gateway_serve ev (?r\<lparr>req_path := ''/v1/card/authorizations''\<rparr>) g = (g', resp)"
      using r(1) by (metis prod.collapse)
    from serve [OF this] r ds Cons LostAnswer show ?thesis by (auto simp: delivery_ok_def)
  next
    case (Delivered ev)
    obtain h resp where h: "gateway_serve ev (?r\<lparr>req_path := ''/v1/card/authorizations''\<rparr>) g = (h, resp)" by fastforce
    have ev: "in_int64 (ge_nanos ev)" using ds Cons Delivered by (simp add: delivery_ok_def)
    from serve [OF h ev] obtain obs where obs: "gw_run g obs h" "g_bank h = g_bank g"
        "\<forall>j. j \<noteq> k \<longrightarrow> g_card h j = g_card g j" "g_env h = g_env g"
      and resp: "resp = None \<or> (\<exists>m. resp = Some (JSON 503 (message_body m))) \<or>
        (\<exists>q. SawCard k q \<in> set obs \<and> resp = Some (JSON 200 (encode_card q)))" by blast
    have q: "card_wf q" if "SawCard k q \<in> set obs" for q
      using gw_run_remembers [OF obs(1) g(1)] gw_run_books [OF obs(1) g] that
      by (auto simp: remembers_def books_wf_def)
    have "h = g'" "ds' = es" using charge h Delivered by (auto simp: path)
    moreover have "card_reported obs k res"
      using resp charge h Delivered q card_normalize_reported by (auto simp: path uncertain_def)
    ultimately show ?thesis using obs ds Cons by auto
  qed
qed

lemma bank_serve_run:
  assumes g: "gateway_serve ev ((provider_request tok url trace (bank_payload req k))\<lparr>req_path := ''/v2/transfers''\<rparr>) g = (g', resp)"
    and ev: "in_int64 (ge_nanos ev)" and ok: "accepts_token g tok" "trace_only trace"
    and req: "router_text req" "utf8_valid k" "k \<noteq> []"
  shows "\<exists>obs. gw_run g obs g' \<and> g_card g' = g_card g \<and> (\<forall>j. j \<noteq> k \<longrightarrow> g_bank g' j = g_bank g j) \<and>
    g_env g' = g_env g \<and>
    (resp = None \<or> (\<exists>m. resp = Some (JSON 503 (message_body m))) \<or>
     (\<exists>q. SawBank k q \<in> set obs \<and> resp = Some (JSON 200 (encode_bank q))))"
proof -
  let ?r = "(provider_request tok url trace (bank_payload req k))\<lparr>req_path := ''/v2/transfers''\<rparr>"
  have r: "req_method ?r = ''POST''" "req_path ?r = ''/v2/transfers''" "req_body ?r = bank_payload req k"
    by (simp_all add: provider_request_def)
  have h: "bankTransfer ev ?r g = (g', resp)"
    using g paymentAuth_accepts [OF ok] r(2) by (simp add: gateway_serve_def guarded_def)
  obtain c where "Decode decode_bank_request ?r = Some c" "br_TransferID c = k"
    using Decode_bank_payload [OF req(1,2) r(3)] by auto
  with bankTransfer_run [OF h ev r(1)] req(3) show ?thesis by simp
qed

definition bank_reported :: "seen list \<Rightarrow> string \<Rightarrow> ProviderResult \<Rightarrow> bool" where
  "bank_reported obs k res \<longleftrightarrow>
     (prov_Status res = ''SUCCEEDED'' \<longrightarrow>
        (\<exists>n. SawBank k (accepted_bank n) \<in> set obs \<and> prov_ProviderRef res = bank_TransferID (accepted_bank n))) \<and>
     (prov_Status res = ''FAILED'' \<longrightarrow> SawBank k rejected_bank \<in> set obs)"

lemma bank_reported_pending [simp]: "bank_reported obs k (provider_result ''PENDING'' r e)"
  by (simp add: bank_reported_def)

lemma bank_normalize_reported:
  assumes "bank_wf q" "SawBank k q \<in> set obs"
  shows "bank_reported obs k (bank_normalize (limit_read (2 ^ 20) (http_body (JSON 200 (encode_bank q)))))"
  using assms(2) bank_normalize_answer [OF json_ok_bank_wf [OF assms(1)]]
    limit_read_short [OF bank_wf_short [OF assms(1)]] assms(1)
  by (auto simp: bank_reported_def bank_wf_def rejected_bank_def accepted_bank_def)

lemma bank_Charge_link:
  assumes c: "bank_Charge (link base) a trace req k (ds, g) = ((ds', g'), res)"
    and base: "base = trim_right_chars ''/'' (bank_BaseURL a)"
    and ds: "list_all delivery_ok ds" and ok: "accepts_token g (bank_AuthToken a)" "trace_only trace"
    and req: "router_text req" "utf8_valid k" "k \<noteq> []"
    and g: "durable g" "books_wf g"
  shows "\<exists>obs. gw_run g obs g' \<and> g_card g' = g_card g \<and> (\<forall>j. j \<noteq> k \<longrightarrow> g_bank g' j = g_bank g j) \<and>
    g_env g' = g_env g \<and> list_all delivery_ok ds' \<and> bank_reported obs k res"
proof (cases ds)
  case Nil
  with c have "g' = g" "ds' = []" "res = provider_result ''PENDING'' [] ''provider unavailable''"
    by (auto simp: bank_Charge_def callProvider_cases link_send_def uncertain_def)
  then show ?thesis by (intro exI [of _ "[]"]) (simp add: run_done)
next
  case (Cons d es)
  let ?r = "provider_request (bank_AuthToken a) (base @ ''/v2/transfers'') trace (bank_payload req k)"
  have path: "trim_prefix base (req_path ?r) = ''/v2/transfers''" by (simp add: provider_request_def)
  note charge = c [unfolded bank_Charge_def callProvider_cases base [symmetric], simplified, unfolded link_send_def Cons path Let_def]
  note serve = bank_serve_run [OF _ _ ok req]
  show ?thesis
  proof (cases d)
    case LostRequest
    with charge have "g' = g" "ds' = es" "res = provider_result ''PENDING'' [] ''provider unavailable''"
      by (auto simp: uncertain_def)
    with ds Cons show ?thesis by (intro exI [of _ "[]"]) (simp add: run_done)
  next
    case (LostAnswer ev)
    with charge have r: "g' = fst (gateway_serve ev (?r\<lparr>req_path := ''/v2/transfers''\<rparr>) g)" "ds' = es"
      "res = provider_result ''PENDING'' [] ''provider unavailable''"
      by (auto simp: uncertain_def path)
    obtain resp where "gateway_serve ev (?r\<lparr>req_path := ''/v2/transfers''\<rparr>) g = (g', resp)"
      using r(1) by (metis prod.collapse)
    from serve [OF this] r ds Cons LostAnswer show ?thesis by (auto simp: delivery_ok_def)
  next
    case (Delivered ev)
    obtain h resp where h: "gateway_serve ev (?r\<lparr>req_path := ''/v2/transfers''\<rparr>) g = (h, resp)" by fastforce
    have ev: "in_int64 (ge_nanos ev)" using ds Cons Delivered by (simp add: delivery_ok_def)
    from serve [OF h ev] obtain obs where obs: "gw_run g obs h" "g_card h = g_card g"
        "\<forall>j. j \<noteq> k \<longrightarrow> g_bank h j = g_bank g j" "g_env h = g_env g"
      and resp: "resp = None \<or> (\<exists>m. resp = Some (JSON 503 (message_body m))) \<or>
        (\<exists>q. SawBank k q \<in> set obs \<and> resp = Some (JSON 200 (encode_bank q)))" by blast
    have q: "bank_wf q" if "SawBank k q \<in> set obs" for q
      using gw_run_remembers [OF obs(1) g(1)] gw_run_books [OF obs(1) g] that
      by (auto simp: remembers_def books_wf_def)
    have "h = g'" "ds' = es" using charge h Delivered by (auto simp: path)
    moreover have "bank_reported obs k res"
      using resp charge h Delivered q bank_normalize_reported by (auto simp: path uncertain_def)
    ultimately show ?thesis using obs ds Cons by auto
  qed
qed

section \<open>Any sequence of charges\<close>

text \<open>An attempt: the trace headers in the context, the request, the idempotency key.\<close>

type_synonym attempt = "header \<times> RouterPaymentRequest \<times> string"

definition attempt_ok :: "attempt \<Rightarrow> bool" where
  "attempt_ok at = (case at of (trace, req, k) \<Rightarrow> trace_only trace \<and> router_text req \<and> utf8_valid k \<and> k \<noteq> [])"

fun card_attempts ::
  "'w network \<Rightarrow> CardAdapter \<Rightarrow> attempt list \<Rightarrow> 'w \<Rightarrow> 'w \<times> (string \<times> ProviderResult) list" where
  "card_attempts net a [] w = (w, [])"
| "card_attempts net a ((trace, req, k) # ats) w =
     (let (w', res) = card_Charge net a trace req k w; (w'', rs) = card_attempts net a ats w'
      in (w'', (k, res) # rs))"

lemma card_attempts_run:
  assumes "base = trim_right_chars ''/'' (card_BaseURL a)"
    and "card_attempts (link base) a ats (ds, g) = ((ds', g'), rs)"
    and "list_all delivery_ok ds" "list_all attempt_ok ats" "accepts_token g (card_AuthToken a)"
    and "durable g" "books_wf g"
  shows "\<exists>obs. gw_run g obs g' \<and> g_bank g' = g_bank g \<and>
    (\<forall>j. j \<notin> (snd \<circ> snd) ` set ats \<longrightarrow> g_card g' j = g_card g j) \<and>
    (\<forall>(k, res) \<in> set rs. card_reported obs k res)"
  using assms(2-)
proof (induction ats arbitrary: ds g rs)
  case Nil
  then show ?case by (intro exI [of _ "[]"]) (simp add: run_done)
next
  case (Cons at ats)
  obtain trace req k where at: "at = (trace, req, k)" by (cases at) auto
  obtain ds1 g1 res where c: "card_Charge (link base) a trace req k (ds, g) = ((ds1, g1), res)"
    by (metis prod.collapse)
  obtain w rs1 where rest: "card_attempts (link base) a ats (ds1, g1) = (w, rs1)" by fastforce
  with Cons.prems(1) c at have w: "w = (ds', g')" "rs = (k, res) # rs1" by auto
  from Cons.prems at have ok: "trace_only trace" "router_text req" "utf8_valid k" "k \<noteq> []"
    by (auto simp: attempt_ok_def)
  from card_Charge_link [OF c assms(1) Cons.prems(2,4) ok Cons.prems(5,6)]
  obtain obs where 1: "gw_run g obs g1" "g_bank g1 = g_bank g" "\<forall>j. j \<noteq> k \<longrightarrow> g_card g1 j = g_card g j"
    "g_env g1 = g_env g" "list_all delivery_ok ds1" "card_reported obs k res" by blast
  have "durable g1" "books_wf g1"
    using gw_run_remembers [OF 1(1) Cons.prems(5)] gw_run_books [OF 1(1) Cons.prems(5,6)] by auto
  with Cons.IH [OF rest [unfolded w] 1(5)] Cons.prems(3,4) accepts_token_cong [OF 1(4)]
  obtain obs' where 2: "gw_run g1 obs' g'" "g_bank g' = g_bank g1"
    "\<forall>j. j \<notin> (snd \<circ> snd) ` set ats \<longrightarrow> g_card g' j = g_card g1 j"
    "\<forall>(k, res) \<in> set rs1. card_reported obs' k res" by auto
  have "card_reported (obs @ obs') j r" if "card_reported obs j r \<or> card_reported obs' j r" for j r
    using that by (auto simp: card_reported_def)
  with 1 2 w gw_run_append [OF 2(1) 1(1)] show ?case
    by (intro exI [of _ "obs @ obs'"]) (auto simp: at)
qed

text \<open>What was reported is on the books, and each key is charged at most once.\<close>

lemma card_attempts_books:
  assumes "base = trim_right_chars ''/'' (card_BaseURL a)"
    and "card_attempts (link base) a ats (ds, g) = ((ds', g'), rs)"
    and "list_all delivery_ok ds" "list_all attempt_ok ats" "accepts_token g (card_AuthToken a)"
    and "durable g" "books_wf g" "(k, res) \<in> set rs"
  shows "prov_Status res = ''SUCCEEDED'' \<Longrightarrow>
      \<exists>n. g_card g' k = Some (authorized_card n) \<and> prov_ProviderRef res = card_AuthorizationID (authorized_card n)"
    "prov_Status res = ''FAILED'' \<Longrightarrow> g_card g' k = Some declined_card"
proof -
  from card_attempts_run [OF assms(1-7)] assms(8) obtain obs where
    obs: "gw_run g obs g'" "card_reported obs k res" by fastforce
  have "remembers g' (SawCard k q)" if "SawCard k q \<in> set obs" for q
    using gw_run_remembers [OF obs(1) assms(6)] that by blast
  then show "prov_Status res = ''SUCCEEDED'' \<Longrightarrow>
      \<exists>n. g_card g' k = Some (authorized_card n) \<and> prov_ProviderRef res = card_AuthorizationID (authorized_card n)"
    "prov_Status res = ''FAILED'' \<Longrightarrow> g_card g' k = Some declined_card"
    using obs(2) by (auto simp: card_reported_def remembers_def)
qed

lemma card_attempts_charges:
  assumes "base = trim_right_chars ''/'' (card_BaseURL a)"
    and "card_attempts (link base) a ats (ds, g) = ((ds', g'), rs)"
    and "list_all delivery_ok ds" "list_all attempt_ok ats" "accepts_token g (card_AuthToken a)"
    and "durable g" "books_wf g" "ledger_inv g"
  shows "effective g' \<le> effective g + int (card ((snd \<circ> snd) ` set ats))"
proof -
  let ?K = "(snd \<circ> snd) ` set ats"
  from card_attempts_run [OF assms(1-7)] obtain obs where
    obs: "gw_run g obs g'" "g_bank g' = g_bank g" "\<forall>j. j \<notin> ?K \<longrightarrow> g_card g' j = g_card g j" by blast
  have inv: "ledger_inv g'" using gw_run_ledger [OF obs(1) assms(6,8)] .
  have "charged_cards g' \<subseteq> charged_cards g \<union> ?K" "charged_banks g' = charged_banks g"
    using obs(2,3) by (auto simp: charged_cards_def charged_banks_def)
  then have "card (charged_cards g') \<le> card (charged_cards g) + card ?K" "charged_banks g' = charged_banks g"
    using assms(8) card_mono [of "charged_cards g \<union> ?K" "charged_cards g'"] card_Un_le [of "charged_cards g" ?K]
    by (auto simp: ledger_inv_def)
  with inv assms(8) show ?thesis by (simp add: ledger_inv_def)
qed

fun bank_attempts ::
  "'w network \<Rightarrow> BankAdapter \<Rightarrow> attempt list \<Rightarrow> 'w \<Rightarrow> 'w \<times> (string \<times> ProviderResult) list" where
  "bank_attempts net a [] w = (w, [])"
| "bank_attempts net a ((trace, req, k) # ats) w =
     (let (w', res) = bank_Charge net a trace req k w; (w'', rs) = bank_attempts net a ats w'
      in (w'', (k, res) # rs))"

lemma bank_attempts_run:
  assumes "base = trim_right_chars ''/'' (bank_BaseURL a)"
    and "bank_attempts (link base) a ats (ds, g) = ((ds', g'), rs)"
    and "list_all delivery_ok ds" "list_all attempt_ok ats" "accepts_token g (bank_AuthToken a)"
    and "durable g" "books_wf g"
  shows "\<exists>obs. gw_run g obs g' \<and> g_card g' = g_card g \<and>
    (\<forall>j. j \<notin> (snd \<circ> snd) ` set ats \<longrightarrow> g_bank g' j = g_bank g j) \<and>
    (\<forall>(k, res) \<in> set rs. bank_reported obs k res)"
  using assms(2-)
proof (induction ats arbitrary: ds g rs)
  case Nil
  then show ?case by (intro exI [of _ "[]"]) (simp add: run_done)
next
  case (Cons at ats)
  obtain trace req k where at: "at = (trace, req, k)" by (cases at) auto
  obtain ds1 g1 res where c: "bank_Charge (link base) a trace req k (ds, g) = ((ds1, g1), res)"
    by (metis prod.collapse)
  obtain w rs1 where rest: "bank_attempts (link base) a ats (ds1, g1) = (w, rs1)" by fastforce
  with Cons.prems(1) c at have w: "w = (ds', g')" "rs = (k, res) # rs1" by auto
  from Cons.prems at have ok: "trace_only trace" "router_text req" "utf8_valid k" "k \<noteq> []"
    by (auto simp: attempt_ok_def)
  from bank_Charge_link [OF c assms(1) Cons.prems(2,4) ok Cons.prems(5,6)]
  obtain obs where 1: "gw_run g obs g1" "g_card g1 = g_card g" "\<forall>j. j \<noteq> k \<longrightarrow> g_bank g1 j = g_bank g j"
    "g_env g1 = g_env g" "list_all delivery_ok ds1" "bank_reported obs k res" by blast
  have "durable g1" "books_wf g1"
    using gw_run_remembers [OF 1(1) Cons.prems(5)] gw_run_books [OF 1(1) Cons.prems(5,6)] by auto
  with Cons.IH [OF rest [unfolded w] 1(5)] Cons.prems(3,4) accepts_token_cong [OF 1(4)]
  obtain obs' where 2: "gw_run g1 obs' g'" "g_card g' = g_card g1"
    "\<forall>j. j \<notin> (snd \<circ> snd) ` set ats \<longrightarrow> g_bank g' j = g_bank g1 j"
    "\<forall>(k, res) \<in> set rs1. bank_reported obs' k res" by auto
  have "bank_reported (obs @ obs') j r" if "bank_reported obs j r \<or> bank_reported obs' j r" for j r
    using that by (auto simp: bank_reported_def)
  with 1 2 w gw_run_append [OF 2(1) 1(1)] show ?case
    by (intro exI [of _ "obs @ obs'"]) (auto simp: at)
qed

text \<open>What was reported is on the books, and each key is charged at most once.\<close>

lemma bank_attempts_books:
  assumes "base = trim_right_chars ''/'' (bank_BaseURL a)"
    and "bank_attempts (link base) a ats (ds, g) = ((ds', g'), rs)"
    and "list_all delivery_ok ds" "list_all attempt_ok ats" "accepts_token g (bank_AuthToken a)"
    and "durable g" "books_wf g" "(k, res) \<in> set rs"
  shows "prov_Status res = ''SUCCEEDED'' \<Longrightarrow>
      \<exists>n. g_bank g' k = Some (accepted_bank n) \<and> prov_ProviderRef res = bank_TransferID (accepted_bank n)"
    "prov_Status res = ''FAILED'' \<Longrightarrow> g_bank g' k = Some rejected_bank"
proof -
  from bank_attempts_run [OF assms(1-7)] assms(8) obtain obs where
    obs: "gw_run g obs g'" "bank_reported obs k res" by fastforce
  have "remembers g' (SawBank k q)" if "SawBank k q \<in> set obs" for q
    using gw_run_remembers [OF obs(1) assms(6)] that by blast
  then show "prov_Status res = ''SUCCEEDED'' \<Longrightarrow>
      \<exists>n. g_bank g' k = Some (accepted_bank n) \<and> prov_ProviderRef res = bank_TransferID (accepted_bank n)"
    "prov_Status res = ''FAILED'' \<Longrightarrow> g_bank g' k = Some rejected_bank"
    using obs(2) by (auto simp: bank_reported_def remembers_def)
qed

lemma bank_attempts_charges:
  assumes "base = trim_right_chars ''/'' (bank_BaseURL a)"
    and "bank_attempts (link base) a ats (ds, g) = ((ds', g'), rs)"
    and "list_all delivery_ok ds" "list_all attempt_ok ats" "accepts_token g (bank_AuthToken a)"
    and "durable g" "books_wf g" "ledger_inv g"
  shows "effective g' \<le> effective g + int (card ((snd \<circ> snd) ` set ats))"
proof -
  let ?K = "(snd \<circ> snd) ` set ats"
  from bank_attempts_run [OF assms(1-7)] obtain obs where
    obs: "gw_run g obs g'" "g_card g' = g_card g" "\<forall>j. j \<notin> ?K \<longrightarrow> g_bank g' j = g_bank g j" by blast
  have inv: "ledger_inv g'" using gw_run_ledger [OF obs(1) assms(6,8)] .
  have "charged_banks g' \<subseteq> charged_banks g \<union> ?K" "charged_cards g' = charged_cards g"
    using obs(2,3) by (auto simp: charged_cards_def charged_banks_def)
  then have "card (charged_banks g') \<le> card (charged_banks g) + card ?K" "charged_cards g' = charged_cards g"
    using assms(8) card_mono [of "charged_banks g \<union> ?K" "charged_banks g'"] card_Un_le [of "charged_banks g" ?K]
    by (auto simp: ledger_inv_def)
  with inv assms(8) show ?thesis by (simp add: ledger_inv_def)
qed

end
