(* ===== verification/Router_Providers.thy ===== *)
theory Router_Providers
  imports Router_Facts Provider_Link
begin

text \<open>
  What the router's table says of its providers. A provider gives evidence of each decided
  charge, and evidence lasts; then every decided row has the evidence of its provider, and
  every answer of the router is an error or the view of a row. The contract of a provider is
  the locale \<open>providers\<close>; it is interpreted on the adapters over any network, and on the two
  adapters over the two gateways behind lossy links.
\<close>

section \<open>Rows and answers\<close>

definition row_good ::
  "(string \<Rightarrow> bool) \<Rightarrow> (string \<Rightarrow> string \<Rightarrow> string \<Rightarrow> string \<Rightarrow> bool) \<Rightarrow> payment_row \<Rightarrow> bool" where
  "row_good known evidence r \<longleftrightarrow> known (row_id r) \<and> utf8_valid (row_id r) \<and> utf8_valid (row_key r) \<and>
     utf8_valid (coalesce (row_provider_ref r)) \<and> utf8_valid (coalesce (row_error r)) \<and>
     (terminal (row_status r) \<longrightarrow>
        evidence (row_gateway r) (row_key r) (row_status r) (coalesce (row_provider_ref r)))"

definition rows_good ::
  "(string \<Rightarrow> bool) \<Rightarrow> (string \<Rightarrow> string \<Rightarrow> string \<Rightarrow> string \<Rightarrow> bool) \<Rightarrow> payment_row list \<Rightarrow> bool" where
  "rows_good known evidence rows \<longleftrightarrow> payments_inv rows \<and> (\<forall>r \<in> set rows. row_good known evidence r)"

text \<open>An answer is an error, or shows the row of the key.\<close>

definition answer_ok :: "payment_row list \<Rightarrow> string \<Rightarrow> http_response \<Rightarrow> bool" where
  "answer_ok rows key resp \<longleftrightarrow> (\<exists>st m. resp = JSON st (error_body m) \<and> utf8_valid m \<and> st \<notin> {200, 202, 422}) \<or>
     (\<exists>p row. resp = JSON (StatusCode (pay_Status p)) (encode_payment p) \<and> payment_text p \<and>
        select_by_key key rows = Some row \<and> row_id row = pay_ID p \<and>
        (terminal (pay_Status p) \<longrightarrow> terminal (row_status row) \<and> p = answer_of row))"

lemma answer_ok_error: "utf8_valid m \<Longrightarrow> st \<in> {400, 404, 405, 409, 500} \<Longrightarrow> answer_ok rows key (JSON st (error_body m))"
  unfolding answer_ok_def by (intro disjI1 exI [of _ st] exI [of _ m]) auto

lemma answer_ok_payment:
  assumes "payment_text p" "select_by_key key rows = Some row" "row_id row = pay_ID p"
    "terminal (pay_Status p) \<Longrightarrow> terminal (row_status row) \<and> p = answer_of row"
  shows "answer_ok rows key (JSON (StatusCode (pay_Status p)) (encode_payment p))"
  unfolding answer_ok_def using assms by (intro disjI2 exI [of _ p] exI [of _ row]) simp

section \<open>The error texts\<close>

definition router_errors :: "string list" where
  "router_errors = [''method not allowed'', ''Idempotency-Key is required'', ''invalid JSON'',
     ''amount_minor must be positive'', ''currency must be 3 letters'', ''instrument is unsupported'',
     ''both participant IDs are required'', ''reference is required'', ''database unavailable'',
     ''database lock unavailable'', ''database read failed'', ''could not claim pending payment'',
     ''database insert failed'', ''database commit failed'', ''payment not found'',
     ''idempotency key already used with another payload'', ''recovering payment'', ''gateway circuit open'',
     ''provider response uncertain'', ''payment result persistence unavailable'', ''provider request failed'',
     ''provider unavailable'', ''provider rejected request'', ''PENDING'', ''SUCCEEDED'', ''FAILED'',
     ''gateway-card'', ''gateway-bank'', ''card authorization declined'', ''bank transfer rejected'',
     ''provider response pending'', ''provider response invalid'']"

lemma router_error_text: "m \<in> set router_errors \<Longrightarrow> utf8_valid m"
proof -
  have "list_all ascii router_errors" by code_simp
  then show "m \<in> set router_errors \<Longrightarrow> utf8_valid m" by (simp add: list_all_iff utf8_valid_ascii)
qed

lemma in_router_errors [simp]:
  "''method not allowed'' \<in> set router_errors" "''Idempotency-Key is required'' \<in> set router_errors"
  "''invalid JSON'' \<in> set router_errors" "''amount_minor must be positive'' \<in> set router_errors"
  "''currency must be 3 letters'' \<in> set router_errors" "''instrument is unsupported'' \<in> set router_errors"
  "''both participant IDs are required'' \<in> set router_errors" "''reference is required'' \<in> set router_errors"
  "''database unavailable'' \<in> set router_errors" "''database lock unavailable'' \<in> set router_errors"
  "''database read failed'' \<in> set router_errors" "''could not claim pending payment'' \<in> set router_errors"
  "''database insert failed'' \<in> set router_errors" "''database commit failed'' \<in> set router_errors"
  "''payment not found'' \<in> set router_errors" "''recovering payment'' \<in> set router_errors"
  "''idempotency key already used with another payload'' \<in> set router_errors"
  "''gateway circuit open'' \<in> set router_errors" "''provider response uncertain'' \<in> set router_errors"
  "''payment result persistence unavailable'' \<in> set router_errors" "''provider request failed'' \<in> set router_errors"
  "''provider unavailable'' \<in> set router_errors" "''provider rejected request'' \<in> set router_errors"
  "''PENDING'' \<in> set router_errors" "''SUCCEEDED'' \<in> set router_errors" "''FAILED'' \<in> set router_errors"
  "''gateway-card'' \<in> set router_errors" "''gateway-bank'' \<in> set router_errors"
  "''card authorization declined'' \<in> set router_errors" "''bank transfer rejected'' \<in> set router_errors"
  "''provider response pending'' \<in> set router_errors" "''provider response invalid'' \<in> set router_errors"
  by (simp_all add: router_errors_def)

lemma Reject_text: "create_prologue sha r = Reject st m \<Longrightarrow> m \<in> set router_errors"
  by (auto simp: create_prologue_def ValidateRouterRequest_def Let_def split: if_splits option.splits)

lemma Acquire_text: "create_acquire ev key = Some (st, m) \<Longrightarrow> m \<in> set router_errors"
  by (auto simp: create_acquire_def split: if_splits)

lemma Refuse_text: "reserve recovery ev key hashes req rows = (Refuse st m, rows') \<Longrightarrow> m \<in> set router_errors"
  by (auto simp: reserve_def Let_def committed_def split: prod.splits if_splits option.splits)

section \<open>Which rows a request leaves\<close>

lemma reserve_rows:
  assumes "reserve recovery ev key hashes req rows = (res, rows')" "r \<in> set rows'"
  obtains (old) "r \<in> set rows"
  | (claimed) r0 where "r0 \<in> set rows" "r = r0\<lparr>row_error := Some ''recovering payment'', row_updated_at := re_now ev\<rparr>"
  | (new) "row_id r = newUUID (re_random ev)" "row_key r = key" "pg_text key" "row_status r = ''PENDING''"
      "row_provider_ref r = None" "row_error r = None"
proof -
  have "rows' = rows \<or> (\<exists>pid lease. claim_pending (re_now ev) pid rows = (Some lease, rows')) \<or>
    (\<exists>hash gw. insert_payment (re_now ev) (newUUID (re_random ev)) key hash req gw rows = Some rows')"
    using assms(1) by (auto simp: reserve_def Let_def split: prod.splits if_splits option.splits dest!: committed_rows)
  with assms(2) show thesis
    using old claimed new
    by (fastforce simp: claim_pending_def insert_payment_def Let_def set_update_where split: if_splits)
qed

lemma persist_rows:
  assumes "persistResultConn ev pid result lease rows = (ok, rows')" "r \<in> set rows'"
  obtains (old) "r \<in> set rows"
  | (settled) r0 where "r0 \<in> set rows" "row_id r0 = pid" "pg_text (pay_ProviderRef result)" "pg_text (pay_Error result)"
      "r = settle (re_persist_now ev) (normalized result) r0"
  using assms that
  by (fastforce simp: persistResultConn_def Let_def update_result_def lease_held_def set_update_where split: if_splits)

lemma reserve_good:
  assumes "reserve recovery ev key hashes req rows = (res, rows')" "rows_good known evidence rows" "canonical req"
    "known (newUUID (re_random ev))" "utf8_valid (newUUID (re_random ev))"
  shows "rows_good known evidence rows'"
proof -
  have "row_good known evidence r" if "r \<in> set rows'" for r
    using assms(1) that
  proof (cases rule: reserve_rows)
    case old
    with assms(2) show ?thesis by (simp add: rows_good_def)
  next
    case (claimed r0)
    with assms(2) router_error_text [of "''recovering payment''"] show ?thesis
      by (simp add: rows_good_def row_good_def coalesce_def)
  next
    case new
    with assms(4,5) show ?thesis by (simp add: row_good_def terminal_def coalesce_def pg_text_utf8)
  qed
  with reserve_evolves(2) [OF assms(1) _ assms(3)] assms(2) show ?thesis by (simp add: rows_good_def)
qed

lemma persist_good:
  assumes "persistResultConn ev pid result lease rows = (ok, rows')" "rows_good known evidence rows"
    "\<And>r. r \<in> set rows \<Longrightarrow> row_id r = pid \<Longrightarrow> terminal (pay_Status result) \<Longrightarrow>
      evidence (row_gateway r) (row_key r) (pay_Status result) (pay_ProviderRef result)"
  shows "rows_good known evidence rows'"
proof -
  have "row_good known evidence r" if "r \<in> set rows'" for r
    using assms(1) that
  proof (cases rule: persist_rows)
    case old
    with assms(2) show ?thesis by (simp add: rows_good_def)
  next
    case (settled r0)
    with assms(2) assms(3) [OF settled(1,2)] show ?thesis
      by (auto simp: rows_good_def row_good_def settle_def coalesce_def pg_text_utf8)
  qed
  with persist_evolves(2) [OF assms(1)] assms(2) show ?thesis by (simp add: rows_good_def)
qed

lemma answer_of_text: "row_good known evidence row \<Longrightarrow> payment_row_ok row \<Longrightarrow> payment_text (answer_of row)"
  using router_error_text [of "''PENDING''"] router_error_text [of "''SUCCEEDED''"] router_error_text [of "''FAILED''"]
    router_error_text [of "''gateway-card''"] router_error_text [of "''gateway-bank''"] ascii_rfc3339nano
  by (auto simp: row_good_def payment_row_ok_def payment_text_def answer_of_def with_created_def normalized_def
      existing_of_def NormalizeStatus_def gatewayFor_def Let_def utf8_valid_ascii)

lemma finish_text:
  assumes "utf8_valid pid" "utf8_valid key" "utf8_valid gw" "utf8_valid (pay_ProviderRef result)" "utf8_valid (pay_Error result)"
  shows "payment_text (finish pid key gw created (announced ok result))"
proof -
  have "utf8_valid (NormalizeStatus st)" for st
    using router_error_text [of "''PENDING''"] router_error_text [of "''SUCCEEDED''"] router_error_text [of "''FAILED''"]
    by (simp add: NormalizeStatus_def)
  moreover have "utf8_valid ''PENDING''" "utf8_valid ''payment result persistence unavailable''"
    by (rule router_error_text, simp)+
  ultimately show ?thesis
    using assms by (cases ok) (simp_all add: payment_text_def finish_def announced_def unrecorded_def normalized_def
        with_created_def utf8_valid_ascii)
qed

lemma evolves_row:
  assumes "table_evolves rows rows'" "select_by_key key rows = Some row"
  obtains row' where "select_by_key key rows' = Some row'" "row_id row' = row_id row" "row_gateway row' = row_gateway row"
    "row_created_at row' = row_created_at row" "row_key row' = row_key row" "terminal (row_status row) \<longrightarrow> row' = row"
proof -
  from assms obtain row' where row': "select_by_key key rows' = Some row'" "frozen row' = frozen row"
    "terminal (row_status row) \<longrightarrow> row' = row" unfolding table_evolves_def row_evolves_def by blast
  with frozen_eqD [OF row'(2)] show thesis by (intro that [of row']) simp_all
qed

section \<open>The contract of the providers\<close>

locale providers =
  fixes call :: "string \<Rightarrow> 'w charger option"
    and sound :: "'w \<Rightarrow> bool"
    and evidence :: "'w \<Rightarrow> string \<Rightarrow> string \<Rightarrow> string \<Rightarrow> string \<Rightarrow> bool"
  assumes charged: "call gw = Some f \<Longrightarrow> sound w \<Longrightarrow> trace_only trace \<Longrightarrow> router_text req \<Longrightarrow> utf8_valid key \<Longrightarrow>
      key \<noteq> [] \<Longrightarrow> f trace req key w = (w', res) \<Longrightarrow>
      sound w' \<and> utf8_valid (prov_ProviderRef res) \<and> utf8_valid (prov_Error res) \<and>
      (terminal (prov_Status res) \<longrightarrow> evidence w' gw key (prov_Status res) (prov_ProviderRef res))"
    and lasting: "call gw = Some f \<Longrightarrow> sound w \<Longrightarrow> trace_only trace \<Longrightarrow> router_text req \<Longrightarrow> utf8_valid key \<Longrightarrow>
      key \<noteq> [] \<Longrightarrow> f trace req key w = (w', res) \<Longrightarrow> evidence w g k st ref \<Longrightarrow> evidence w' g k st ref"
begin

lemma charge_result:
  assumes "charge cfg ev r req key gw s w = ((s', w'), res)" "rc_adapters cfg = call" "sound w" "router_text req"
    "utf8_valid key" "key \<noteq> []"
  shows "sound w'" "evidence w g k st ref \<Longrightarrow> evidence w' g k st ref"
    "res = Some result \<Longrightarrow> utf8_valid (pay_ProviderRef result) \<and> utf8_valid (pay_Error result) \<and>
       (terminal (pay_Status result) \<longrightarrow> evidence w' gw key (pay_Status result) (pay_ProviderRef result))"
proof -
  let ?ok = "\<lambda>p. utf8_valid (pay_ProviderRef p) \<and> utf8_valid (pay_Error p) \<and>
       (terminal (pay_Status p) \<longrightarrow> evidence w' gw key (pay_Status p) (pay_ProviderRef p))"
  have pend: "?ok (pending_result [] ''gateway circuit open'')"
    by (simp add: pending_result_def terminal_def router_error_text)
  have "sound w' \<and> (evidence w g k st ref \<longrightarrow> evidence w' g k st ref) \<and> (\<forall>p. res = Some p \<longrightarrow> ?ok p)"
  proof (cases "fst (charge_admit (rc_breakerEnabled cfg) (re_allow_at ev) gw (r_circuits s))")
    case False
    with assms(1) have "w' = w" "res = Some (pending_result [] ''gateway circuit open'')"
      by (auto simp: charge_def Let_def split: prod.splits)
    with pend assms(3) show ?thesis by simp
  next
    case True
    show ?thesis
    proof (cases "call gw")
      case None
      with True assms(1-3) show ?thesis by (auto simp: charge_def Let_def split: prod.splits)
    next
      case (Some f)
      obtain w1 pr where f: "f (TraceHeaders r) req key w = (w1, pr)" by fastforce
      note c = charged [OF Some assms(3) trace_only_TraceHeaders assms(4-6) f]
        and l = lasting [OF Some assms(3) trace_only_TraceHeaders assms(4-6) f]
      define circuits where "circuits = snd (charge_admit (rc_breakerEnabled cfg) (re_allow_at ev) gw (r_circuits s))"
      have "w' = w1" "res = Some (fst (charge_report (rc_breakerEnabled cfg) (re_failure_at ev) gw pr circuits))"
        using True Some f assms(1,2) by (auto simp: charge_def circuits_def Let_def split: prod.splits)
      moreover have "?ok (fst (charge_report (rc_breakerEnabled cfg) (re_failure_at ev) gw pr circuits))" if "w' = w1"
        using c that router_error_text [of "''provider response uncertain''"]
        by (auto simp: charge_report_def pending_result_def terminal_def NormalizeStatus_def Let_def)
      ultimately show ?thesis using c l by simp
    qed
  qed
  then show "sound w'" "evidence w g k st ref \<Longrightarrow> evidence w' g k st ref" "res = Some result \<Longrightarrow> ?ok result" by auto
qed

end

lemma rows_good_mono:
  "rows_good known e rows \<Longrightarrow> (\<And>g k st ref. e g k st ref \<Longrightarrow> e' g k st ref) \<Longrightarrow> rows_good known e' rows"
  by (auto simp: rows_good_def row_good_def)

context providers
begin

lemma create_charge_keeps:
  assumes "create_charge cfg ev r req key pid gw created lease s w = ((s', w'), resp)" "rc_adapters cfg = call"
    "sound w" "rows_good known (evidence w) (r_rows s)" "router_text req" "utf8_valid key" "key \<noteq> []"
    "select_by_key key (r_rows s) = Some row" "row_id row = pid" "row_gateway row = gw" "row_created_at row = created"
    "row_status row = ''PENDING''" "row_updated_at row = lease"
  shows "sound w' \<and> rows_good known (evidence w') (r_rows s') \<and> (\<forall>a. resp = Some a \<longrightarrow> answer_ok (r_rows s') key a)"
proof -
  obtain s1 w1 res where c: "charge cfg ev r req key gw s w = ((s1, w1), res)" by (metis prod.collapse)
  note facts = charge_result [OF c assms(2,3,5,6,7)]
  have good: "rows_good known (evidence w1) (r_rows s)" by (rule rows_good_mono [OF assms(4)]) (rule facts(2))
  have row: "row \<in> set (r_rows s)" "row_key row = key" using assms(8) by (auto dest: select_by_keyD)
  show ?thesis
  proof (cases res)
    case None
    with assms(1) c have "s' = s1" "w' = w1" "resp = None" by (auto simp: create_charge_def)
    with good facts(1) charge_rows [OF c] show ?thesis by simp
  next
    case (Some result)
    obtain ok rows where p: "persistResultConn ev pid (normalized result) lease (r_rows s1) = (ok, rows)" by fastforce
    have p': "persistResultConn ev pid (normalized result) lease (r_rows s) = (ok, rows)" using p charge_rows [OF c] by simp
    let ?p = "finish pid key gw created (announced ok result)"
    from create_charge_eq [OF c [unfolded Some] p, of created] assms(1)
    have out: "r_rows s' = rows" "w' = w1" "resp = Some (JSON (StatusCode (pay_Status ?p)) (encode_payment ?p))" by auto
    note res = facts(3) [OF Some]
    have "evidence w1 (row_gateway q) (row_key q) (pay_Status (normalized result)) (pay_ProviderRef (normalized result))"
      if "q \<in> set (r_rows s)" "row_id q = pid" "terminal (pay_Status (normalized result))" for q
    proof -
      have "q = row" using good that(1,2) row(1) assms(9) by (auto simp: rows_good_def payments_inv_def dest: distinct_key_eq [of row_id])
      with res that(3) row assms(10) show ?thesis by simp
    qed
    from persist_good [OF p' good this] have good': "rows_good known (evidence w1) rows" .
    from evolves_row [OF persist_evolves(1) [OF p'] assms(8)] assms(9)
    obtain row' where row': "select_by_key key rows = Some row'" "row_id row' = pid" by metis
    have ok': "payment_row_ok row" "row_good known (evidence w1) row" using good row(1) by (auto simp: rows_good_def payments_inv_def)
    have "utf8_valid gw"
      using ok'(1) assms(10) router_error_text [of "''gateway-card''"] router_error_text [of "''gateway-bank''"]
      by (auto simp: payment_row_ok_def gatewayFor_def Let_def split: if_splits)
    moreover have "utf8_valid pid" using ok'(2) assms(9) by (simp add: row_good_def)
    ultimately have "payment_text ?p" using res assms(6) by (intro finish_text) simp_all
    moreover have "terminal (row_status row') \<and> ?p = answer_of row'" if "terminal (pay_Status ?p)"
    proof -
      from that have "ok" by (cases ok) (simp_all add: announced_def terminal_def)
      with p' have "persistResultConn ev pid (normalized result) lease (r_rows s) = (True, rows)" by simp
      from persist_recorded [OF this assms(8,9,12,13)] row'(1)
      have "row' = settle (re_persist_now ev) (normalized result) row" by simp
      with that \<open>ok\<close> row(2) assms(9-11) show ?thesis by (simp add: answer_of_settled announced_def)
    qed
    moreover have "pay_ID ?p = pid" by (simp add: finish_def with_created_def)
    ultimately have "answer_ok rows key (JSON (StatusCode (pay_Status ?p)) (encode_payment ?p))"
      using row' by (intro answer_ok_payment [of _ _ _ row']) simp_all
    with good' facts(1) out show ?thesis by simp
  qed
qed

lemma create_keeps:
  assumes "create cfg ev r s w = ((s', w'), resp)" "rc_adapters cfg = call"
    "sound w" "rows_good known (evidence w) (r_rows s)"
    "known (newUUID (re_random ev))" "utf8_valid (newUUID (re_random ev))"
  shows "sound w' \<and> rows_good known (evidence w') (r_rows s') \<and>
    (\<forall>a. resp = Some a \<longrightarrow> answer_ok (r_rows s') (request_key r) a)"
proof (cases "create_prologue (rc_sha cfg) r")
  case (Reject st m)
  with assms(1,3,4) Reject_status [OF Reject] router_error_text [OF Reject_text [OF Reject]] show ?thesis
    by (auto simp: create_def intro!: answer_ok_error)
next
  case (Accept key hashes req)
  from create_prologue_Accept [OF this] have key: "request_key r = key" "key \<noteq> []" and can: "canonical req"
    by (auto simp: request_key_def)
  show ?thesis
  proof (cases "create_acquire ev key")
    case (Some p)
    obtain st m where p: "p = (st, m)" by (cases p)
    with assms(1,3,4) Accept Some Acquire_status [OF Some [unfolded p]] router_error_text [OF Acquire_text [OF Some [unfolded p]]]
    show ?thesis by (auto simp: create_def intro!: answer_ok_error)
  next
    case None
    then have utf8: "utf8_valid key" by (auto simp: create_acquire_def pg_text_utf8 split: if_splits)
    obtain res rows where res: "reserve (pendingRecoveryAfter (rc_env cfg)) ev key hashes req (r_rows s) = (res, rows)"
      by fastforce
    note good = reserve_good [OF res assms(4) can assms(5,6)]
    show ?thesis
    proof (cases res)
      case (Refuse st m)
      with assms(1,3) Accept None res good reserve_Refuse [OF res [unfolded Refuse]]
        router_error_text [OF Refuse_text [OF res [unfolded Refuse]]]
      show ?thesis by (auto simp: create_def intro!: answer_ok_error)
    next
      case (Replay p)
      from reserve_Replay [OF res [unfolded Replay]] obtain row where
        row: "rows = r_rows s" "select_by_key key rows = Some row" "p = answer_of row" by auto
      then have mem: "row \<in> set rows" using select_by_keyD by blast
      have "payment_text p" unfolding row(3)
        by (rule answer_of_text) (use good mem in \<open>auto simp: rows_good_def payments_inv_def\<close>)
      moreover have "row_id row = pay_ID p" "terminal (pay_Status p) \<longrightarrow> terminal (row_status row)"
        unfolding row(3) by (simp_all add: answer_of_def with_created_def existing_of_def normalized_def)
      ultimately have "answer_ok rows key (JSON (StatusCode (pay_Status p)) (encode_payment p))"
        using row(2,3) by (intro answer_ok_payment [of _ _ _ row]) simp_all
      with assms(1,3) Accept None res Replay good key show ?thesis by (auto simp: create_def)
    next
      case (Reserved pid gw created lease)
      with assms(1) Accept None res
      have cc: "create_charge cfg ev r req key pid gw created lease (s\<lparr>r_rows := rows\<rparr>) w = ((s', w'), resp)"
        by (simp add: create_def)
      from good have "payments_inv (r_rows s)" using assms(4) by (simp add: rows_good_def)
      from reserve_Reserved [OF res [unfolded Reserved] this] obtain row where
        "select_by_key key rows = Some row" "row_id row = pid" "row_gateway row = gw" "row_created_at row = created"
        "row_status row = ''PENDING''" "row_updated_at row = lease" by blast
      with create_charge_keeps [OF cc assms(2,3)] good can utf8 key show ?thesis by (simp add: canonical_def)
    qed
  qed
qed

end

section \<open>Adapters over any network\<close>

lemma unmarshal_ok: "unmarshal s = Some j \<Longrightarrow> json_ok j"
  using parse_ok(1) by (auto simp: unmarshal_def split: option.splits if_splits prod.splits)

definition result_text :: "ProviderResult \<Rightarrow> bool" where
  "result_text res \<longleftrightarrow> utf8_valid (prov_ProviderRef res) \<and> utf8_valid (prov_Error res)"

lemma result_text_error [simp]: "m \<in> set router_errors \<Longrightarrow> result_text (provider_result st [] m)"
  by (simp add: result_text_def router_error_text)

lemma card_normalize_text: "result_text (card_normalize body)"
proof (cases "Option.bind (unmarshal body) decode_card_response")
  case (Some out)
  then obtain j where j: "unmarshal body = Some j" "decode_card_response j = Some out" by (auto simp: bind_eq_Some_conv)
  have "list_all (\<lambda>(n, f). keeps (\<lambda>q. utf8_valid (cresp_AuthorizationID q)) f) card_response_fields"
    by (auto simp: card_response_fields_def intro!: keeps_set_string)
  from decode_struct_keeps [OF this unmarshal_ok [OF j(1)] _ j(2) [unfolded decode_card_response_def]]
  have "utf8_valid (cresp_AuthorizationID out)" by simp
  with Some router_error_text [of "''card authorization declined''"] show ?thesis
    by (simp add: card_normalize_def Let_def result_text_def router_error_text)
qed (simp add: card_normalize_def)

lemma bank_normalize_text: "result_text (bank_normalize body)"
proof (cases "Option.bind (unmarshal body) decode_bank_response")
  case (Some out)
  then obtain j where j: "unmarshal body = Some j" "decode_bank_response j = Some out" by (auto simp: bind_eq_Some_conv)
  have "list_all (\<lambda>(n, f). keeps (\<lambda>q. utf8_valid (bresp_TransferID q)) f) bank_response_fields"
    by (auto simp: bank_response_fields_def intro!: keeps_set_string)
  from decode_struct_keeps [OF this unmarshal_ok [OF j(1)] _ j(2) [unfolded decode_bank_response_def]]
  have "utf8_valid (bresp_TransferID out)" by simp
  with Some router_error_text [of "''bank transfer rejected''"] show ?thesis
    by (simp add: bank_normalize_def Let_def result_text_def router_error_text)
qed (simp add: bank_normalize_def)

lemma callProvider_text:
  "(\<And>b. result_text (f b)) \<Longrightarrow> result_text (snd (callProvider net tok url trace body f w))"
  by (simp add: callProvider_cases Let_def split: prod.splits sum.splits)

lemma card_Charge_text: "card_Charge net a trace req k w = (w', res) \<Longrightarrow> result_text res"
  using callProvider_text [of card_normalize] card_normalize_text unfolding card_Charge_def by (metis snd_conv)

lemma bank_Charge_text: "bank_Charge net a trace req k w = (w', res) \<Longrightarrow> result_text res"
  using callProvider_text [of bank_normalize] bank_normalize_text unfolding bank_Charge_def by (metis snd_conv)

text \<open>Whatever the network does, the answers are well-formed texts.\<close>

interpretation any_network: providers "rc_adapters (main_config sha uuid_in net env)" "\<lambda>_. True" "\<lambda>_ _ _ _ _. True"
  for sha uuid_in and net :: "'w network" and env
  by unfold_locales
    (auto simp: main_config_def Let_def split: if_splits dest!: card_Charge_text bank_Charge_text simp: result_text_def)

section \<open>The two gateways\<close>

type_synonym gateways = "(delivery list \<times> gateway) \<times> (delivery list \<times> gateway)"

definition card_side :: "(delivery list \<times> gateway) charger \<Rightarrow> gateways charger" where
  "card_side f trace req key w = (let (c, res) = f trace req key (fst w) in ((c, snd w), res))"

definition bank_side :: "(delivery list \<times> gateway) charger \<Rightarrow> gateways charger" where
  "bank_side f trace req key w = (let (b, res) = f trace req key (snd w) in ((fst w, b), res))"

text \<open>The adapters of \<open>main\<close>, each on the link to its own gateway.\<close>

definition gateway_adapters :: "CardAdapter \<Rightarrow> BankAdapter \<Rightarrow> string \<Rightarrow> gateways charger option" where
  "gateway_adapters ca ba =
     [''gateway-card'' \<mapsto> card_side (card_Charge (link (trim_right_chars ''/'' (card_BaseURL ca))) ca),
      ''gateway-bank'' \<mapsto> bank_side (bank_Charge (link (trim_right_chars ''/'' (bank_BaseURL ba))) ba)]"

definition link_sound :: "string \<Rightarrow> delivery list \<times> gateway \<Rightarrow> bool" where
  "link_sound tok w \<longleftrightarrow> list_all delivery_ok (fst w) \<and> accepts_token (snd w) tok \<and> durable (snd w) \<and> books_wf (snd w)"

definition gateways_sound :: "CardAdapter \<Rightarrow> BankAdapter \<Rightarrow> gateways \<Rightarrow> bool" where
  "gateways_sound ca ba w \<longleftrightarrow> link_sound (card_AuthToken ca) (fst w) \<and> link_sound (bank_AuthToken ba) (snd w)"

text \<open>A decided charge is on the books of its gateway.\<close>

definition on_books :: "gateways \<Rightarrow> string \<Rightarrow> string \<Rightarrow> string \<Rightarrow> string \<Rightarrow> bool" where
  "on_books w gw key status ref \<longleftrightarrow>
     (gw = ''gateway-card'' \<and> status = ''SUCCEEDED'' \<and>
        (\<exists>n. g_card (snd (fst w)) key = Some (authorized_card n) \<and> ref = card_AuthorizationID (authorized_card n))) \<or>
     (gw = ''gateway-card'' \<and> status = ''FAILED'' \<and> g_card (snd (fst w)) key = Some declined_card) \<or>
     (gw = ''gateway-bank'' \<and> status = ''SUCCEEDED'' \<and>
        (\<exists>n. g_bank (snd (snd w)) key = Some (accepted_bank n) \<and> ref = bank_TransferID (accepted_bank n))) \<or>
     (gw = ''gateway-bank'' \<and> status = ''FAILED'' \<and> g_bank (snd (snd w)) key = Some rejected_bank)"

lemma gw_run_grows: "gw_run g obs g' \<Longrightarrow> durable g \<Longrightarrow> g_card g \<subseteq>\<^sub>m g_card g' \<and> g_bank g \<subseteq>\<^sub>m g_bank g'"
proof (induction rule: gw_run.induct)
  case (run_more g obs g' ob g'')
  then have "durable g'" using gw_run_remembers by blast
  with gw_step_remembers [OF run_more(2)] run_more show ?case by (meson map_le_trans)
qed simp

lemma on_books_mono:
  "on_books w gw key status ref \<Longrightarrow> g_card (snd (fst w)) \<subseteq>\<^sub>m g_card (snd (fst w')) \<Longrightarrow>
   g_bank (snd (snd w)) \<subseteq>\<^sub>m g_bank (snd (snd w')) \<Longrightarrow> on_books w' gw key status ref"
  unfolding on_books_def map_le_def by (metis domI)

lemma card_side_step:
  assumes "card_side (card_Charge (link (trim_right_chars ''/'' (card_BaseURL ca))) ca) trace req key w = (w', res)"
    "gateways_sound ca ba w" "trace_only trace" "router_text req" "utf8_valid key" "key \<noteq> []"
  shows "gateways_sound ca ba w' \<and> result_text res \<and>
    (terminal (prov_Status res) \<longrightarrow> on_books w' ''gateway-card'' key (prov_Status res) (prov_ProviderRef res)) \<and>
    g_card (snd (fst w)) \<subseteq>\<^sub>m g_card (snd (fst w')) \<and> snd w' = snd w"
proof -
  obtain ds g where w: "fst w = (ds, g)" by fastforce
  obtain ds' g' where c: "card_Charge (link (trim_right_chars ''/'' (card_BaseURL ca))) ca trace req key (ds, g) = ((ds', g'), res)"
    and w': "w' = ((ds', g'), snd w)"
    using assms(1) w by (auto simp: card_side_def Let_def split: prod.splits)
  have s: "list_all delivery_ok ds" "accepts_token g (card_AuthToken ca)" "durable g" "books_wf g"
    using assms(2) w by (simp_all add: gateways_sound_def link_sound_def)
  from card_Charge_link [OF c refl s(1,2) assms(3-6) s(3,4)] obtain obs where
    run: "gw_run g obs g'" and env: "g_env g' = g_env g" "list_all delivery_ok ds'" and rep: "card_reported obs key res" by blast
  have d: "durable g'" "\<And>ob. ob \<in> set obs \<Longrightarrow> remembers g' ob" using gw_run_remembers [OF run s(3)] by auto
  have "on_books w' ''gateway-card'' key (prov_Status res) (prov_ProviderRef res)" if "terminal (prov_Status res)"
    using rep that d(2) w' by (fastforce simp: card_reported_def terminal_def on_books_def remembers_def)
  with d(1) env gw_run_books [OF run s(3,4)] accepts_token_cong [OF env(1)] s(2) assms(2) w w'
    card_Charge_text [OF c] gw_run_grows [OF run s(3)]
  show ?thesis by (simp add: gateways_sound_def link_sound_def)
qed

lemma bank_side_step:
  assumes "bank_side (bank_Charge (link (trim_right_chars ''/'' (bank_BaseURL ba))) ba) trace req key w = (w', res)"
    "gateways_sound ca ba w" "trace_only trace" "router_text req" "utf8_valid key" "key \<noteq> []"
  shows "gateways_sound ca ba w' \<and> result_text res \<and>
    (terminal (prov_Status res) \<longrightarrow> on_books w' ''gateway-bank'' key (prov_Status res) (prov_ProviderRef res)) \<and>
    g_bank (snd (snd w)) \<subseteq>\<^sub>m g_bank (snd (snd w')) \<and> fst w' = fst w"
proof -
  obtain ds g where w: "snd w = (ds, g)" by fastforce
  obtain ds' g' where c: "bank_Charge (link (trim_right_chars ''/'' (bank_BaseURL ba))) ba trace req key (ds, g) = ((ds', g'), res)"
    and w': "w' = (fst w, (ds', g'))"
    using assms(1) w by (auto simp: bank_side_def Let_def split: prod.splits)
  have s: "list_all delivery_ok ds" "accepts_token g (bank_AuthToken ba)" "durable g" "books_wf g"
    using assms(2) w by (simp_all add: gateways_sound_def link_sound_def)
  from bank_Charge_link [OF c refl s(1,2) assms(3-6) s(3,4)] obtain obs where
    run: "gw_run g obs g'" and env: "g_env g' = g_env g" "list_all delivery_ok ds'" and rep: "bank_reported obs key res" by blast
  have d: "durable g'" "\<And>ob. ob \<in> set obs \<Longrightarrow> remembers g' ob" using gw_run_remembers [OF run s(3)] by auto
  have "on_books w' ''gateway-bank'' key (prov_Status res) (prov_ProviderRef res)" if "terminal (prov_Status res)"
    using rep that d(2) w' by (fastforce simp: bank_reported_def terminal_def on_books_def remembers_def)
  with d(1) env gw_run_books [OF run s(3,4)] accepts_token_cong [OF env(1)] s(2) assms(2) w w'
    bank_Charge_text [OF c] gw_run_grows [OF run s(3)]
  show ?thesis by (simp add: gateways_sound_def link_sound_def)
qed

lemma gateway_adapters_step:
  assumes "gateway_adapters ca ba gw = Some f" "gateways_sound ca ba w" "trace_only trace" "router_text req"
    "utf8_valid key" "key \<noteq> []" "f trace req key w = (w', res)"
  shows "gateways_sound ca ba w' \<and> result_text res \<and>
    (terminal (prov_Status res) \<longrightarrow> on_books w' gw key (prov_Status res) (prov_ProviderRef res)) \<and>
    g_card (snd (fst w)) \<subseteq>\<^sub>m g_card (snd (fst w')) \<and> g_bank (snd (snd w)) \<subseteq>\<^sub>m g_bank (snd (snd w'))"
proof (cases "gw = ''gateway-card''")
  case True
  with assms(1,7) have "card_side (card_Charge (link (trim_right_chars ''/'' (card_BaseURL ca))) ca) trace req key w = (w', res)"
    by (simp add: gateway_adapters_def)
  from card_side_step [OF this assms(2-6)] True show ?thesis by simp
next
  case False
  with assms(1,7) have "gw = ''gateway-bank''"
    "bank_side (bank_Charge (link (trim_right_chars ''/'' (bank_BaseURL ba))) ba) trace req key w = (w', res)"
    by (simp_all add: gateway_adapters_def split: if_splits)
  with bank_side_step [OF this(2) assms(2-6)] show ?thesis by simp
qed

interpretation two_gateways: providers "gateway_adapters ca ba" "gateways_sound ca ba" on_books
  for ca ba
proof unfold_locales
  fix gw f trace req key w w' res
  assume a: "gateway_adapters ca ba gw = Some f" "gateways_sound ca ba w" "trace_only trace" "router_text req"
    "utf8_valid key" "key \<noteq> []" "f trace req key w = (w', res)"
  note step = gateway_adapters_step [OF a]
  show "gateways_sound ca ba w' \<and> utf8_valid (prov_ProviderRef res) \<and> utf8_valid (prov_Error res) \<and>
      (terminal (prov_Status res) \<longrightarrow> on_books w' gw key (prov_Status res) (prov_ProviderRef res))"
    using step by (simp add: result_text_def)
  show "on_books w' g k st ref" if "on_books w g k st ref" for g k st ref
    using step on_books_mono [OF that] by blast
qed

end
