(* ===== verification/Operator.thy ===== *)
theory Operator
  imports Database
begin

text \<open>
  \<open>cmd/payment-operator/main.go\<close>: the public entry. An order is a cached view of a payment of
  the router, one per idempotency key; a new one is made from the two participants and the
  router's answer, a PENDING one is refreshed on a replay or a read. The network to the
  participant manager and the router is a parameter, and what the environment decides about
  a request is an \<open>operator_event\<close>.
\<close>

section \<open>State\<close>

record order_row =
  ord_id :: string
  ord_key :: string
  ord_hash :: string
  ord_payment_id :: "string option"
  ord_status :: string
  ord_gateway :: "string option"
  ord_provider_ref :: "string option"
  ord_error :: "string option"
  ord_created_at :: int

record operator =
  op_rows :: "order_row list"
  op_metrics :: Metrics

record 'w operator_config =
  oc_sha :: "string \<Rightarrow> string"
  oc_uuid_in :: "string \<Rightarrow> string option"
  oc_env :: "string \<Rightarrow> string"
  oc_net :: "'w network"

record operator_event =
  oe_begin :: bool
  oe_lock :: bool
  oe_select :: bool
  oe_write :: bool       \<comment> \<open>the UPDATE or INSERT of the transaction reaches the database\<close>
  oe_commit :: outcome
  oe_update :: outcome   \<comment> \<open>the UPDATE of \<open>get\<close>, outside a transaction\<close>
  oe_now :: int
  oe_latency :: int

section \<open>Answers of the router\<close>

record routerPaymentLookup =
  rl_payment :: PaymentResponse
  rl_request :: RouterPaymentRequest

definition on_payment :: "(PaymentResponse \<Rightarrow> PaymentResponse) \<Rightarrow> routerPaymentLookup \<Rightarrow> routerPaymentLookup" where
  "on_payment f l = l\<lparr>rl_payment := f (rl_payment l)\<rparr>"

definition on_request :: "(RouterPaymentRequest \<Rightarrow> RouterPaymentRequest) \<Rightarrow> routerPaymentLookup \<Rightarrow> routerPaymentLookup" where
  "on_request f l = l\<lparr>rl_request := f (rl_request l)\<rparr>"

text \<open>The two embedded structs give their fields to the outer one.\<close>

definition router_lookup_fields :: "routerPaymentLookup field list" where
  "router_lookup_fields =
    [(''id'', set_string (\<lambda>s. on_payment (\<lambda>r. r\<lparr>pay_ID := s\<rparr>))),
     (''idempotency_key'', set_string (\<lambda>s. on_payment (\<lambda>r. r\<lparr>pay_IdempotencyKey := s\<rparr>))),
     (''status'', set_string (\<lambda>s. on_payment (\<lambda>r. r\<lparr>pay_Status := s\<rparr>))),
     (''gateway'', set_string (\<lambda>s. on_payment (\<lambda>r. r\<lparr>pay_Gateway := s\<rparr>))),
     (''provider_ref'', set_string (\<lambda>s. on_payment (\<lambda>r. r\<lparr>pay_ProviderRef := s\<rparr>))),
     (''error'', set_string (\<lambda>s. on_payment (\<lambda>r. r\<lparr>pay_Error := s\<rparr>))),
     (''created_at'', set_string (\<lambda>s. on_payment (\<lambda>r. r\<lparr>pay_CreatedAt := s\<rparr>))),
     (''debtor_participant_id'', set_string (\<lambda>s. on_request (\<lambda>r. r\<lparr>rtr_DebtorParticipantID := s\<rparr>))),
     (''creditor_participant_id'', set_string (\<lambda>s. on_request (\<lambda>r. r\<lparr>rtr_CreditorParticipantID := s\<rparr>))),
     (''amount_minor'', set_int64 (\<lambda>i. on_request (\<lambda>r. r\<lparr>rtr_AmountMinor := i\<rparr>))),
     (''currency'', set_string (\<lambda>s. on_request (\<lambda>r. r\<lparr>rtr_Currency := s\<rparr>))),
     (''reference'', set_string (\<lambda>s. on_request (\<lambda>r. r\<lparr>rtr_Reference := s\<rparr>))),
     (''instrument'', set_string (\<lambda>s. on_request (\<lambda>r. r\<lparr>rtr_Instrument := s\<rparr>)))]"

definition decode_lookup :: "json \<Rightarrow> routerPaymentLookup option" where
  "decode_lookup = decode_struct router_lookup_fields \<lparr>rl_payment = zero_payment, rl_request = zero_router\<rparr>"

text \<open>\<open>json.NewDecoder(resp.Body).Decode\<close>.\<close>

definition read_body :: "(json \<Rightarrow> 'a option) \<Rightarrow> string \<Rightarrow> 'a option" where
  "read_body dec body = Option.bind (decode_first body) dec"

definition router_url :: "(string \<Rightarrow> string) \<Rightarrow> string" where
  "router_url env = (let v = env ''ROUTER_URL'' in if v \<noteq> [] then v else ''http://payment-router:8080'')"

definition participants_url :: "(string \<Rightarrow> string) \<Rightarrow> string" where
  "participants_url env =
     (let v = env ''PARTICIPANT_MANAGER_URL'' in if v \<noteq> [] then v else ''http://participant-payment-manager:8080'')"

text \<open>\<open>http.NewRequestWithContext\<close> and \<open>Client.Do\<close>: an error message or the response.\<close>

definition send_request :: "'w network \<Rightarrow> http_request \<Rightarrow> 'w \<Rightarrow> 'w \<times> (string + http_response)" where
  "send_request net req w =
     (case net_url_error net (req_path req) of Some e \<Rightarrow> (w, Inl e) | None \<Rightarrow> net_send net req w)"

definition fetchRouter ::
  "'w operator_config \<Rightarrow> string \<Rightarrow> header \<Rightarrow> 'w \<Rightarrow> 'w \<times> routerPaymentLookup option" where
  "fetchRouter cfg paymentID trace w =
     (let url = router_url (oc_env cfg) @ ''/v1/payments/'' @ paymentID;
          (w', answer) = send_request (oc_net cfg)
            \<lparr>req_method = ''GET'', req_path = url, req_header = header_add_all Map.empty trace, req_body = []\<rparr> w
      in (w', case answer of
           Inl e \<Rightarrow> None
         | Inr resp \<Rightarrow>
             (case read_body decode_lookup (http_body resp) of
                None \<Rightarrow> None
              | Some out \<Rightarrow>
                  if http_status resp \<ge> 500 \<or> http_status resp = 404 \<or> http_status resp = 400 then None
                  else if trim_space (pay_ID (rl_payment out)) = [] then None
                  else Some (on_payment (\<lambda>p. p\<lparr>pay_Status := NormalizeStatus (pay_Status p)\<rparr>) out))))"

definition payment_request_to_router :: "(string \<Rightarrow> string) \<Rightarrow> string \<Rightarrow> header \<Rightarrow> RouterPaymentRequest \<Rightarrow> http_request" where
  "payment_request_to_router env key trace internal =
     \<lparr>req_method = ''POST'', req_path = router_url env @ ''/internal/v1/payments'',
      req_header = header_assign_all
        (header_set (header_set Map.empty ''Content-Type'' ''application/json'') ''Idempotency-Key'' key) trace,
      req_body = json_text (encode_router internal)\<rparr>"

definition retryPending ::
  "'w operator_config \<Rightarrow> RouterPaymentRequest \<Rightarrow> string \<Rightarrow> header \<Rightarrow> 'w \<Rightarrow> 'w \<times> routerPaymentLookup option" where
  "retryPending cfg internal key trace w =
     (let req = \<lparr>req_method = ''POST'', req_path = router_url (oc_env cfg) @ ''/internal/v1/payments'',
            req_header = header_add_all
              (header_set (header_set Map.empty ''Content-Type'' ''application/json'') ''Idempotency-Key'' key) trace,
            req_body = json_text (encode_router internal)\<rparr>;
          (w', answer) = send_request (oc_net cfg) req w
      in (w', case answer of
           Inl e \<Rightarrow> None
         | Inr resp \<Rightarrow>
             (case read_body decode_lookup (http_body resp) of
                None \<Rightarrow> None
              | Some out \<Rightarrow>
                  if trim_space (pay_ID (rl_payment out)) = [] then None
                  else if http_status resp \<ge> 400 \<and> http_status resp \<noteq> 422 then None
                  else Some (on_payment (\<lambda>p. p\<lparr>pay_Status := NormalizeStatus (pay_Status p), pay_IdempotencyKey := key\<rparr>)
                         (out\<lparr>rl_request := internal\<rparr>)))))"

section \<open>Participants\<close>

definition decode_error :: "json \<Rightarrow> string option" where
  "decode_error = decode_struct [(''error'', set_string (\<lambda>s _. s))] []"

text \<open>The participant, or the message of the error.\<close>

definition participant ::
  "'w operator_config \<Rightarrow> header \<Rightarrow> string \<Rightarrow> 'w \<Rightarrow> 'w \<times> (string + Participant)" where
  "participant cfg trace pid w =
     (let url = participants_url (oc_env cfg) @ ''/v1/participants/'' @ pid;
          (w', answer) = send_request (oc_net cfg)
            \<lparr>req_method = ''GET'', req_path = url, req_header = header_assign_all Map.empty trace, req_body = []\<rparr> w
      in (w', case answer of
           Inl e \<Rightarrow> Inl e
         | Inr resp \<Rightarrow>
             if http_status resp \<noteq> 200 then
               (case read_body decode_error (limit_read 4096 (http_body resp)) of
                  Some e \<Rightarrow> Inl (if e \<noteq> [] then e else ''participant lookup failed'')
                | None \<Rightarrow> Inl ''participant lookup failed'')
             else (case read_body decode_participant (http_body resp) of
                  None \<Rightarrow> Inl ''invalid participant response''
                | Some p \<Rightarrow> Inr p)))"

fun hasRole :: "string list \<Rightarrow> string \<Rightarrow> bool" where
  "hasRole [] role = False"
| "hasRole (candidate # rest) role = (if equal_fold (trim_space candidate) role then True else hasRole rest role)"

section \<open>The table of orders\<close>

definition order_by_key :: "string \<Rightarrow> order_row list \<Rightarrow> order_row option" where
  "order_by_key key rows = find (\<lambda>r. ord_key r = key) rows"

definition order_by_id :: "string \<Rightarrow> order_row list \<Rightarrow> order_row option" where
  "order_by_id oid rows = find (\<lambda>r. ord_id r = oid) rows"

definition order_response :: "order_row \<Rightarrow> PaymentResponse" where
  "order_response row = \<lparr>pay_ID = ord_id row, pay_IdempotencyKey = ord_key row, pay_Status = ord_status row,
     pay_Gateway = coalesce (ord_gateway row), pay_ProviderRef = coalesce (ord_provider_ref row),
     pay_Error = coalesce (ord_error row), pay_CreatedAt = []\<rparr>"

definition response_texts :: "PaymentResponse \<Rightarrow> bool" where
  "response_texts p \<longleftrightarrow> pg_text (pay_Gateway p) \<and> pg_text (pay_ProviderRef p) \<and> pg_text (pay_Error p)"

text \<open>\<open>updateOrderTx\<close>; \<open>None\<close> is an error, which ends the transaction.\<close>

definition updateOrderTx ::
  "('w operator_config) \<Rightarrow> bool \<Rightarrow> string \<Rightarrow> PaymentResponse \<Rightarrow> order_row list \<Rightarrow> order_row list option" where
  "updateOrderTx cfg db oid out rows =
     (case oc_uuid_in cfg (pay_ID out) of
        None \<Rightarrow> None
      | Some uuid \<Rightarrow>
          if \<not> db \<or> \<not> response_texts out then None
          else if count_where (\<lambda>r. ord_id r = oid) rows \<noteq> 1 then None
          else Some (update_where (\<lambda>r. ord_id r = oid)
            (\<lambda>r. r\<lparr>ord_payment_id := Some uuid, ord_status := NormalizeStatus (pay_Status out),
               ord_gateway := Some (pay_Gateway out), ord_provider_ref := Some (pay_ProviderRef out),
               ord_error := Some (pay_Error out)\<rparr>) rows))"

definition insert_order ::
  "('w operator_config) \<Rightarrow> int \<Rightarrow> string \<Rightarrow> string \<Rightarrow> PaymentResponse \<Rightarrow> order_row list \<Rightarrow> order_row list option" where
  "insert_order cfg now key hash out rows =
     (case oc_uuid_in cfg (pay_ID out) of
        None \<Rightarrow> None
      | Some uuid \<Rightarrow>
          if \<not> response_texts out \<or> list_ex (\<lambda>r. ord_id r = uuid \<or> ord_key r = key) rows then None
          else Some (rows @ [\<lparr>ord_id = uuid, ord_key = key, ord_hash = hash, ord_payment_id = Some uuid,
            ord_status = pay_Status out, ord_gateway = Some (pay_Gateway out),
            ord_provider_ref = Some (pay_ProviderRef out), ord_error = Some (pay_Error out),
            ord_created_at = now\<rparr>]))"

section \<open>Creating an order\<close>

datatype checked = Rejected nat string | Checked (chk_key: string) (chk_hash: string) (chk_req: PublicPaymentRequest)

text \<open>The checks of \<open>create\<close> before it touches the database.\<close>

definition order_checks :: "(string \<Rightarrow> string) \<Rightarrow> http_request \<Rightarrow> checked" where
  "order_checks sha r =
     (if req_method r \<noteq> ''POST'' then Rejected 405 ''method not allowed''
      else (let key = trim_space (header_get (req_header r) ''Idempotency-Key'') in
        if key = [] \<or> length key > 255 then Rejected 400 ''Idempotency-Key is required''
        else case Decode decode_public r of
          None \<Rightarrow> Rejected 400 ''invalid JSON''
        | Some req \<Rightarrow>
            (case ValidateRequest req of
               Some e \<Rightarrow> Rejected 400 e
             | None \<Rightarrow> Checked key (RequestHash sha (encode_public req)) req)))"

text \<open>
  What a PENDING order shows on a replay: the router's view; if that is PENDING too, the
  router is asked to go on with its own frozen request. \<open>None\<close> when the router cannot be read.
\<close>

definition refreshed_view ::
  "'w operator_config \<Rightarrow> header \<Rightarrow> string \<Rightarrow> string \<Rightarrow> 'w \<Rightarrow> 'w \<times> PaymentResponse option" where
  "refreshed_view cfg trace key oid w =
     (let (w1, fetched) = fetchRouter cfg oid trace w in
      case fetched of
        None \<Rightarrow> (w1, None)
      | Some refreshed \<Rightarrow>
          (let (w2, latest) =
             (if pay_Status (rl_payment refreshed) = ''PENDING'' \<and> rtr_Instrument (rl_request refreshed) \<noteq> [] then
                (let (w', retried) = retryPending cfg (rl_request refreshed) key trace w1
                 in (w', case retried of Some l \<Rightarrow> l | None \<Rightarrow> refreshed))
              else (w1, refreshed))
           in (w2, Some ((rl_payment latest)\<lparr>pay_IdempotencyKey := key,
                 pay_Status := NormalizeStatus (pay_Status (rl_payment latest))\<rparr>))))"

text \<open>The end of the transaction: the answer, and the rows it leaves.\<close>

definition end_tx :: "outcome \<Rightarrow> http_response \<Rightarrow> order_row list \<Rightarrow> order_row list \<Rightarrow> order_row list \<times> http_response" where
  "end_tx out resp rows rows' =
     (if takes_effect out then rows' else rows,
      if reported_ok out then resp else JSON 500 (error_body ''database commit failed''))"

definition payment_answer :: "PaymentResponse \<Rightarrow> http_response" where
  "payment_answer p = JSON (StatusCode (pay_Status p)) (encode_payment p)"

definition replay_order ::
  "'w operator_config \<Rightarrow> operator_event \<Rightarrow> header \<Rightarrow> string \<Rightarrow> order_row \<Rightarrow> order_row list \<Rightarrow> 'w \<Rightarrow>
   'w \<times> order_row list \<times> http_response" where
  "replay_order cfg ev trace key row rows w =
     (let out = (order_response row)\<lparr>pay_Status := NormalizeStatus (ord_status row)\<rparr>;
          (w', view) = (if pay_Status out = ''PENDING'' then refreshed_view cfg trace key (pay_ID out) w else (w, None))
      in case view of
           None \<Rightarrow>
             (let answer = out\<lparr>pay_CreatedAt := rfc3339nano (ord_created_at row)\<rparr>
              in (w', end_tx (oe_commit ev) (payment_answer answer) rows rows))
         | Some refreshed \<Rightarrow>
             (case updateOrderTx cfg (oe_write ev) (pay_ID out) refreshed rows of
                None \<Rightarrow> (w', rows, JSON 503 (error_body ''order result persistence unavailable''))
              | Some rows' \<Rightarrow>
                  (let answer = refreshed\<lparr>pay_CreatedAt := rfc3339nano (ord_created_at row)\<rparr>
                   in (w', end_tx (oe_commit ev) (payment_answer answer) rows rows'))))"

text \<open>The two participants, and what may not be.\<close>

definition resolve_participants ::
  "'w operator_config \<Rightarrow> header \<Rightarrow> PublicPaymentRequest \<Rightarrow> 'w \<Rightarrow> 'w \<times> (nat \<times> string + Participant)" where
  "resolve_participants cfg trace req w =
     (let (w1, d) = participant cfg trace (pub_DebtorParticipantID req) w in
      case d of
        Inl e \<Rightarrow> (w1, Inl (503, e))
      | Inr debtor \<Rightarrow>
          (let (w2, c) = participant cfg trace (pub_CreditorParticipantID req) w1 in
           case c of
             Inl e \<Rightarrow> (w2, Inl (503, e))
           | Inr creditor \<Rightarrow>
               (w2, if \<not> part_Active debtor \<or> \<not> part_Active creditor then Inl (409, ''participant inactive'')
                    else if \<not> hasRole (part_Roles debtor) RoleDebtor \<or> \<not> hasRole (part_Roles creditor) RoleCreditor
                    then Inl (403, ''participant role does not permit this payment'')
                    else Inr debtor)))"

definition internal_request :: "PublicPaymentRequest \<Rightarrow> Participant \<Rightarrow> RouterPaymentRequest" where
  "internal_request req debtor = \<lparr>rtr_DebtorParticipantID = pub_DebtorParticipantID req,
     rtr_CreditorParticipantID = pub_CreditorParticipantID req, rtr_AmountMinor = pub_AmountMinor req,
     rtr_Currency = pub_Currency req, rtr_Reference = pub_Reference req, rtr_Instrument = part_Instrument debtor\<rparr>"

text \<open>The router's answer to a new payment: a refusal, or the payment.\<close>

definition ask_router ::
  "'w operator_config \<Rightarrow> string \<Rightarrow> header \<Rightarrow> RouterPaymentRequest \<Rightarrow> 'w \<Rightarrow> 'w \<times> (nat \<times> string + PaymentResponse)" where
  "ask_router cfg key trace internal w =
     (let req = payment_request_to_router (oc_env cfg) key trace internal in
      if net_url_error (oc_net cfg) (req_path req) \<noteq> None then (w, Inl (500, ''could not build router request''))
      else (let (w', answer) = net_send (oc_net cfg) req w
            in (w', case answer of
                 Inl e \<Rightarrow> Inl (503, ''router unavailable'')
               | Inr resp \<Rightarrow>
                   (case read_body decode_payment (http_body resp) of
                      None \<Rightarrow> Inl (502, ''invalid router response'')
                    | Some out \<Rightarrow>
                        if trim_space (pay_ID out) = [] then Inl (502, ''invalid router response'')
                        else Inr (out\<lparr>pay_IdempotencyKey := key, pay_Status := NormalizeStatus (pay_Status out)\<rparr>)))))"

definition create ::
  "'w operator_config \<Rightarrow> operator_event \<Rightarrow> http_request \<Rightarrow> operator \<Rightarrow> 'w \<Rightarrow> (operator \<times> 'w) \<times> http_response" where
  "create cfg ev r s w =
     (case order_checks (oc_sha cfg) r of
        Rejected st m \<Rightarrow> ((s, w), JSON st (error_body m))
      | Checked key hash req \<Rightarrow>
          if \<not> oe_begin ev then ((s, w), JSON 500 (error_body ''database unavailable''))
          else if \<not> (oe_lock ev \<and> pg_text key) then ((s, w), JSON 500 (error_body ''database lock unavailable''))
          else if \<not> oe_select ev then ((s, w), JSON 500 (error_body ''database read failed''))
          else case order_by_key key (op_rows s) of
            Some row \<Rightarrow>
              if ord_hash row \<noteq> hash
              then ((s, w), JSON 409 (error_body ''idempotency key already used with another payload''))
              else (let (w', rows, resp) = replay_order cfg ev (TraceHeaders r) key row (op_rows s) w
                    in ((s\<lparr>op_rows := rows\<rparr>, w'), resp))
          | None \<Rightarrow>
              (let traceContext = ContextWithTraceHeaders None (TraceHeaders r);
                   (w1, resolved) = resolve_participants cfg (TraceHeadersFromContext traceContext) req w in
               case resolved of
                 Inl (st, m) \<Rightarrow> ((s, w1), JSON st (error_body m))
               | Inr debtor \<Rightarrow>
                   (let (w2, asked) = ask_router cfg key (TraceHeaders r) (internal_request req debtor) w1 in
                    case asked of
                      Inl (st, m) \<Rightarrow> ((s, w2), JSON st (error_body m))
                    | Inr out \<Rightarrow>
                        (case (if oe_write ev then insert_order cfg (oe_now ev) key hash out (op_rows s) else None) of
                           None \<Rightarrow> ((s, w2), JSON 500 (error_body ''could not persist order''))
                         | Some rows' \<Rightarrow>
                             (let answer = out\<lparr>pay_CreatedAt := rfc3339nano (oe_now ev)\<rparr>;
                                  (rows, resp) = end_tx (oe_commit ev) (payment_answer answer) (op_rows s) rows';
                                  s1 = s\<lparr>op_rows := rows\<rparr>
                              in ((if reported_ok (oe_commit ev)
                                   then s1\<lparr>op_metrics := Count (pay_Status answer = ''SUCCEEDED'') (oe_latency ev) (op_metrics s)\<rparr>
                                   else s1, w2), resp))))))"

section \<open>Reading an order\<close>

definition local_view :: "order_row \<Rightarrow> PaymentResponse" where
  "local_view row = \<lparr>pay_ID = coalesce (ord_payment_id row), pay_IdempotencyKey = ord_key row,
     pay_Status = NormalizeStatus (ord_status row), pay_Gateway = coalesce (ord_gateway row),
     pay_ProviderRef = coalesce (ord_provider_ref row), pay_Error = coalesce (ord_error row),
     pay_CreatedAt = rfc3339nano (ord_created_at row)\<rparr>"

definition reconcile_order :: "outcome \<Rightarrow> string \<Rightarrow> PaymentResponse \<Rightarrow> order_row list \<Rightarrow> order_row list" where
  "reconcile_order upd oid p rows =
     (if takes_effect upd \<and> response_texts p
      then update_where (\<lambda>r. ord_id r = oid)
        (\<lambda>r. r\<lparr>ord_status := pay_Status p, ord_gateway := Some (pay_Gateway p),
           ord_provider_ref := Some (pay_ProviderRef p), ord_error := Some (pay_Error p)\<rparr>) rows
      else rows)"

definition get ::
  "'w operator_config \<Rightarrow> operator_event \<Rightarrow> http_request \<Rightarrow> operator \<Rightarrow> 'w \<Rightarrow> (operator \<times> 'w) \<times> http_response" where
  "get cfg ev r s w =
     (if req_method r \<noteq> ''GET'' then ((s, w), JSON 405 (error_body ''method not allowed''))
      else (let pid = trim_prefix ''/v1/payments/'' (req_path r) in
        case (if oe_select ev then oc_uuid_in cfg pid else None) of
          None \<Rightarrow> ((s, w), JSON 500 (error_body ''database read failed''))
        | Some uuid \<Rightarrow>
            (case order_by_id uuid (op_rows s) of
               None \<Rightarrow> ((s, w), JSON 404 (error_body ''payment not found''))
             | Some row \<Rightarrow>
                 (let here = local_view row in
                  if pay_ID here = [] then ((s, w), payment_answer here)
                  else (let (w', fetched) = fetchRouter cfg (pay_ID here) (TraceHeaders r) w in
                    case fetched of
                      None \<Rightarrow> ((s, w'), payment_answer here)
                    | Some l \<Rightarrow>
                        (let p = (rl_payment l)\<lparr>pay_IdempotencyKey := ord_key row,
                                pay_Status := NormalizeStatus (pay_Status (rl_payment l))\<rparr>;
                             p = (if pay_CreatedAt p = [] then p\<lparr>pay_CreatedAt := pay_CreatedAt here\<rparr> else p)
                         in ((s\<lparr>op_rows := reconcile_order (oe_update ev) uuid p (op_rows s)\<rparr>, w'), payment_answer p)))))))"

definition operator_health :: http_response where
  "operator_health = JSON 200 (JObj [(''status'', JStr ''ok'')])"

definition operator_ready :: "bool \<Rightarrow> http_response" where
  "operator_ready db = (if db then JSON 200 (JObj [(''status'', JStr ''ready'')])
     else JSON 503 (JObj [(''status'', JStr ''not_ready'')]))"

text \<open>The mux of \<open>main\<close>; \<open>oe_select\<close> also says whether a ping is answered.\<close>

definition operator_serve ::
  "'w operator_config \<Rightarrow> operator_event \<Rightarrow> http_request \<Rightarrow> operator \<Rightarrow> 'w \<Rightarrow> (operator \<times> 'w) \<times> http_response" where
  "operator_serve cfg ev r s w =
     (if req_path r = ''/healthz'' then ((s, w), operator_health)
      else if req_path r = ''/readyz'' then ((s, w), operator_ready (oe_select ev))
      else if req_path r = ''/metrics'' then ((s, w), \<lparr>http_status = 200, http_body = Handler (op_metrics s)\<rparr>)
      else if req_path r = ''/v1/payments'' then create cfg ev r s w
      else if prefix ''/v1/payments/'' (req_path r) then get cfg ev r s w
      else ((s, w), \<lparr>http_status = 404, http_body = ''404 page not found'' @ [CHR 0x0A]\<rparr>))"

end
