(* ===== verification/Ledger.thy ===== *)
theory Ledger
  imports Mesh_Prelude
begin

text \<open>
  What the router and the operator promise about their tables: a key that has a row keeps
  one, and a decided row never changes. The locale states it for one change of the table;
  its lemmas carry it to any number of changes, and to the agreement of everything that was
  ever read of a decided row.
\<close>

locale ledger =
  fixes lookup :: "string \<Rightarrow> 'db \<Rightarrow> 'row option"
    and decided :: "'row \<Rightarrow> bool"
    and evolves :: "'db \<Rightarrow> 'db \<Rightarrow> bool"
  assumes evolves_refl: "evolves d d"
    and evolves_trans: "evolves d e \<Longrightarrow> evolves e f \<Longrightarrow> evolves d f"
    and kept: "evolves d e \<Longrightarrow> lookup k d = Some r \<Longrightarrow> \<exists>r'. lookup k e = Some r'"
    and final: "evolves d e \<Longrightarrow> lookup k d = Some r \<Longrightarrow> decided r \<Longrightarrow> lookup k e = Some r"
begin

lemma many_evolve:
  assumes "step\<^sup>*\<^sup>* d e" "\<And>d e. step d e \<Longrightarrow> evolves d e"
  shows "evolves d e"
  using assms(1) by induction (auto intro: evolves_refl evolves_trans assms(2))

text \<open>Two reads of decided rows of one key, in whatever states, read the same row.\<close>

lemma reads_agree:
  assumes "evolves d f" "evolves e f" "lookup k d = Some r" "lookup k e = Some q" "decided r" "decided q"
  shows "r = q"
  using final [OF assms(1,3,5)] final [OF assms(2,4,6)] by simp

lemma never_forgotten: "evolves d e \<Longrightarrow> lookup k e = None \<Longrightarrow> lookup k d = None"
  using kept by (cases "lookup k d") fastforce+

end

end
