(* ===== verification/Operator_Facts.thy ===== *)
theory Operator_Facts
  imports Operator Ledger
begin

text \<open>
  Facts on the operator: the table of orders stays well formed, \<open>create\<close> never changes a
  decided order, a decided answer is on record before it is given, and nothing is sent to
  the router for participants that may not pay.
\<close>

section \<open>The table\<close>

definition order_row_ok :: "order_row \<Rightarrow> bool" where
  "order_row_ok r \<longleftrightarrow> ord_status r \<in> {''PENDING'', ''SUCCEEDED'', ''FAILED''}"

definition orders_inv :: "order_row list \<Rightarrow> bool" where
  "orders_inv rows \<longleftrightarrow> distinct (map ord_id rows) \<and> distinct (map ord_key rows) \<and>
     (\<forall>r \<in> set rows. order_row_ok r)"

text \<open>What never changes in an order.\<close>

definition order_identity :: "order_row \<Rightarrow> string \<times> string \<times> string \<times> int" where
  "order_identity r = (ord_id r, ord_key r, ord_hash r, ord_created_at r)"

definition order_evolves :: "order_row \<Rightarrow> order_row \<Rightarrow> bool" where
  "order_evolves r r' \<longleftrightarrow> order_identity r' = order_identity r \<and> (terminal (ord_status r) \<longrightarrow> r' = r)"

definition orders_evolve :: "order_row list \<Rightarrow> order_row list \<Rightarrow> bool" where
  "orders_evolve rows rows' \<longleftrightarrow> (\<forall>key r. order_by_key key rows = Some r \<longrightarrow>
     (\<exists>r'. order_by_key key rows' = Some r' \<and> order_evolves r r'))"

lemma order_evolves_refl [simp]: "order_evolves r r"
  by (simp add: order_evolves_def)

lemma orders_evolve_refl [simp]: "orders_evolve rows rows"
  by (simp add: orders_evolve_def)

lemma order_evolves_trans: "order_evolves a b \<Longrightarrow> order_evolves b c \<Longrightarrow> order_evolves a c"
  by (auto simp: order_evolves_def)

lemma orders_evolve_trans: "orders_evolve a b \<Longrightarrow> orders_evolve b c \<Longrightarrow> orders_evolve a c"
  unfolding orders_evolve_def by (meson order_evolves_trans)

lemma order_by_keyD: "order_by_key key rows = Some row \<Longrightarrow> row \<in> set rows \<and> ord_key row = key"
  by (auto simp: order_by_key_def dest: find_SomeD)

lemma order_by_key_update:
  "(\<And>r. ord_key (f r) = ord_key r) \<Longrightarrow> order_by_key key (update_where p f rows) =
     map_option (\<lambda>r. if p r then f r else r) (order_by_key key rows)"
  by (simp add: order_by_key_def find_update_where)

lemma orders_inv_update:
  assumes "orders_inv rows" "\<And>r. order_identity (f r) = order_identity r" "\<And>r. order_row_ok (f r)"
  shows "orders_inv (update_where p f rows)"
  using assms by (auto simp: orders_inv_def set_update_where map_update_where order_identity_def)

section \<open>The updates\<close>

definition put_view :: "string \<Rightarrow> PaymentResponse \<Rightarrow> order_row \<Rightarrow> order_row" where
  "put_view uuid p r = r\<lparr>ord_payment_id := Some uuid, ord_status := NormalizeStatus (pay_Status p),
     ord_gateway := Some (pay_Gateway p), ord_provider_ref := Some (pay_ProviderRef p), ord_error := Some (pay_Error p)\<rparr>"

lemma put_view_simps [simp]:
  "order_identity (put_view u p r) = order_identity r" "order_row_ok (put_view u p r)"
  "ord_key (put_view u p r) = ord_key r" "ord_id (put_view u p r) = ord_id r"
  "ord_created_at (put_view u p r) = ord_created_at r" "ord_hash (put_view u p r) = ord_hash r"
  "ord_status (put_view u p r) = NormalizeStatus (pay_Status p)"
  by (simp_all add: put_view_def order_identity_def order_row_ok_def NormalizeStatus_def)

lemma updateOrderTx_Some:
  assumes "updateOrderTx cfg db oid p rows = Some rows'"
  obtains uuid where "oc_uuid_in cfg (pay_ID p) = Some uuid" "response_texts p"
    "rows' = update_where (\<lambda>r. ord_id r = oid) (put_view uuid p) rows"
  using assms by (auto simp: updateOrderTx_def put_view_def [abs_def] split: option.splits if_splits)

lemma update_pending_evolves:
  assumes "orders_inv rows" "row \<in> set rows" "\<not> terminal (ord_status row)"
  shows "orders_evolve rows (update_where (\<lambda>r. ord_id r = ord_id row) (put_view uuid p) rows)"
proof -
  have "r = row" if "r \<in> set rows" "ord_id r = ord_id row" for r
    using assms(1,2) that by (auto simp: orders_inv_def dest: distinct_key_eq [of ord_id])
  with assms(3) show ?thesis
    by (fastforce simp: orders_evolve_def order_evolves_def order_by_key_update dest: order_by_keyD)
qed

lemma insert_order_Some:
  assumes "insert_order cfg now key hash out rows = Some rows'"
  shows "\<exists>row. rows' = rows @ [row] \<and> oc_uuid_in cfg (pay_ID out) = Some (ord_id row) \<and>
    ord_key row = key \<and> ord_hash row = hash \<and> ord_payment_id row = Some (ord_id row) \<and> ord_status row = pay_Status out \<and>
    ord_gateway row = Some (pay_Gateway out) \<and> ord_provider_ref row = Some (pay_ProviderRef out) \<and>
    ord_error row = Some (pay_Error out) \<and> ord_created_at row = now \<and>
    (\<forall>r \<in> set rows. ord_id r \<noteq> ord_id row \<and> ord_key r \<noteq> key)"
  using assms by (auto simp: insert_order_def list_ex_iff split: option.splits if_splits)

lemma insert_order_evolves: "insert_order cfg now key hash out rows = Some rows' \<Longrightarrow> orders_evolve rows rows'"
  by (auto dest!: insert_order_Some simp: orders_evolve_def order_by_key_def find_append)

lemma insert_order_inv:
  assumes "insert_order cfg now key hash out rows = Some rows'" "orders_inv rows"
    "pay_Status out \<in> {''PENDING'', ''SUCCEEDED'', ''FAILED''}"
  shows "orders_inv rows'"
proof -
  from insert_order_Some [OF assms(1)] obtain row where
    row: "rows' = rows @ [row]" "ord_status row = pay_Status out" "ord_key row = key"
      "\<forall>r \<in> set rows. ord_id r \<noteq> ord_id row \<and> ord_key r \<noteq> key" by metis
  then have "ord_id row \<notin> ord_id ` set rows" "ord_key row \<notin> ord_key ` set rows" by (metis imageE)+
  with row(1,2) assms(2,3) show ?thesis by (simp add: orders_inv_def order_row_ok_def)
qed

section \<open>The ways a creation can go\<close>

lemma end_tx_cases:
  "end_tx out resp rows rows' = (rows'', resp') \<Longrightarrow> (rows'' = rows \<or> rows'' = rows') \<and>
     (resp' = resp \<and> rows'' = rows' \<or> http_status resp' = 500)"
  using reported_ok_takes_effect [of out] by (auto simp: end_tx_def split: if_splits)

lemma refreshed_view_status:
  "refreshed_view cfg trace key oid w = (w', Some p) \<Longrightarrow>
   pay_Status p \<in> {''PENDING'', ''SUCCEEDED'', ''FAILED''} \<and> pay_IdempotencyKey p = key"
  by (auto simp: refreshed_view_def NormalizeStatus_def Let_def split: prod.splits option.splits if_splits)

text \<open>A replay: either the row as it is, or the refreshed row, whose old status was PENDING.\<close>

lemma replay_order_cases:
  assumes "replay_order cfg ev trace key row rows w = (w', rows', resp)"
  obtains (refused) "rows' = rows" "http_status resp = 503 \<or> http_status resp = 500"
  | (lost) "http_status resp = 500" "\<not> terminal (ord_status row)"
      "\<exists>uuid p. rows' = update_where (\<lambda>r. ord_id r = ord_id row) (put_view uuid p) rows"
  | (stored) "rows' = rows" "resp = payment_answer ((order_response row)\<lparr>pay_Status := NormalizeStatus (ord_status row),
        pay_CreatedAt := rfc3339nano (ord_created_at row)\<rparr>)"
  | (refreshed) uuid p where "\<not> terminal (ord_status row)" "oc_uuid_in cfg (pay_ID p) = Some uuid"
      "pay_Status p \<in> {''PENDING'', ''SUCCEEDED'', ''FAILED''}" "pay_IdempotencyKey p = key"
      "rows' = update_where (\<lambda>r. ord_id r = ord_id row) (put_view uuid p) rows"
      "resp = payment_answer (p\<lparr>pay_CreatedAt := rfc3339nano (ord_created_at row)\<rparr>)"
proof -
  let ?out = "(order_response row)\<lparr>pay_Status := NormalizeStatus (ord_status row)\<rparr>"
  have oid: "pay_ID ?out = ord_id row" by (simp add: order_response_def)
  obtain w1 view where v: "(if pay_Status ?out = ''PENDING'' then refreshed_view cfg trace key (pay_ID ?out) w else (w, None))
      = (w1, view)" by (metis prod.collapse)
  note def = assms [unfolded replay_order_def Let_def, unfolded v prod.case]
  show thesis
  proof (cases view)
    case None
    with def have "end_tx (oe_commit ev) (payment_answer (?out\<lparr>pay_CreatedAt := rfc3339nano (ord_created_at row)\<rparr>)) rows rows
      = (rows', resp)" by simp
    from end_tx_cases [OF this] show thesis by (auto intro: refused stored)
  next
    case (Some p)
    then have pend: "\<not> terminal (ord_status row)" and rv: "refreshed_view cfg trace key (ord_id row) w = (w1, Some p)"
      using v oid by (auto simp: NormalizeStatus_not_terminal split: if_splits)
    show thesis
    proof (cases "updateOrderTx cfg (oe_write ev) (ord_id row) p rows")
      case None
      with def Some oid show thesis by (intro refused) auto
    next
      case (Some rows1)
      with def \<open>view = Some p\<close> oid have e: "end_tx (oe_commit ev)
          (payment_answer (p\<lparr>pay_CreatedAt := rfc3339nano (ord_created_at row)\<rparr>)) rows rows1 = (rows', resp)" by simp
      from updateOrderTx_Some [OF Some] obtain uuid where u: "oc_uuid_in cfg (pay_ID p) = Some uuid"
        "rows1 = update_where (\<lambda>r. ord_id r = ord_id row) (put_view uuid p) rows" by metis
      from end_tx_cases [OF e] refreshed_view_status [OF rv] pend u show thesis
        by (metis refused lost refreshed)
    qed
  qed
qed

lemma ask_router_Inr:
  "ask_router cfg key trace req w = (w', Inr out) \<Longrightarrow>
   pay_Status out \<in> {''PENDING'', ''SUCCEEDED'', ''FAILED''} \<and> pay_IdempotencyKey out = key \<and> trim_space (pay_ID out) \<noteq> []"
  by (auto simp: ask_router_def NormalizeStatus_def Let_def split: prod.splits sum.splits option.splits if_splits)

lemma ask_router_Inl: "ask_router cfg key trace req w = (w', Inl (st, m)) \<Longrightarrow> st \<in> {500, 502, 503}"
  by (auto simp: ask_router_def Let_def split: prod.splits sum.splits option.splits if_splits)

lemma resolve_participants_Inl:
  "resolve_participants cfg trace req w = (w', Inl (st, m)) \<Longrightarrow> st \<in> {403, 409, 503}"
  by (auto simp: resolve_participants_def Let_def split: prod.splits sum.splits if_splits)

lemma resolve_participants_Inr:
  assumes "resolve_participants cfg trace req w = (w', Inr debtor)"
  shows "\<exists>w1 creditor. participant cfg trace (pub_DebtorParticipantID req) w = (w1, Inr debtor) \<and>
    participant cfg trace (pub_CreditorParticipantID req) w1 = (w', Inr creditor) \<and>
    part_Active debtor \<and> part_Active creditor \<and>
    hasRole (part_Roles debtor) RoleDebtor \<and> hasRole (part_Roles creditor) RoleCreditor"
  using assms by (auto simp: resolve_participants_def Let_def split: prod.splits sum.splits if_splits)

lemma order_checks_Rejected: "order_checks sha r = Rejected st m \<Longrightarrow> st = 405 \<or> st = 400"
  by (auto simp: order_checks_def Let_def split: if_splits option.splits)

definition order_key :: "http_request \<Rightarrow> string" where
  "order_key r = trim_space (header_get (req_header r) ''Idempotency-Key'')"

lemma order_checks_Checked:
  assumes "order_checks sha r = Checked key hash req"
  shows "key = order_key r \<and> Decode decode_public r = Some req \<and> hash = RequestHash sha (encode_public req) \<and>
    ValidateRequest req = None \<and> public_text req"
  using assms Decode_ok [of decode_public r req] decode_public_text
  by (auto simp: order_checks_def order_key_def Let_def split: if_splits option.splits)

text \<open>The ways the handler can go.\<close>

lemma order_cases:
  assumes "create cfg ev r s w = ((s', w'), resp)"
  obtains (early) "s' = s" "w' = w" "http_status resp \<in> {400, 405, 409, 500}"
  | (replayed) hash req row where "order_checks (oc_sha cfg) r = Checked (order_key r) hash req"
      "order_by_key (order_key r) (op_rows s) = Some row" "ord_hash row = hash"
      "replay_order cfg ev (TraceHeaders r) (order_key r) row (op_rows s) w = (w', op_rows s', resp)"
  | (refused) "s' = s" "http_status resp \<in> {403, 409, 500, 502, 503}" "order_by_key (order_key r) (op_rows s) = None"
  | (placed) hash req debtor w1 out rows' where "order_checks (oc_sha cfg) r = Checked (order_key r) hash req"
      "order_by_key (order_key r) (op_rows s) = None"
      "resolve_participants cfg (TraceHeaders r) req w = (w1, Inr debtor)"
      "ask_router cfg (order_key r) (TraceHeaders r) (internal_request req debtor) w1 = (w', Inr out)"
      "insert_order cfg (oe_now ev) (order_key r) hash out (op_rows s) = Some rows'"
      "end_tx (oe_commit ev) (payment_answer (out\<lparr>pay_CreatedAt := rfc3339nano (oe_now ev)\<rparr>)) (op_rows s) rows' = (op_rows s', resp)"
proof (cases "order_checks (oc_sha cfg) r")
  case (Rejected st m)
  with assms have "s' = s" "w' = w" "http_status resp = st" by (auto simp: create_def)
  with order_checks_Rejected [OF Rejected] show thesis by (intro early) auto
next
  case (Checked key0 hash req)
  let ?key = "order_key r"
  from Checked have Checked: "order_checks (oc_sha cfg) r = Checked ?key hash req" using order_checks_Checked by blast
  note def = assms [unfolded create_def Checked checked.case]
  show thesis
  proof (cases "oe_begin ev \<and> oe_lock ev \<and> pg_text ?key \<and> oe_select ev")
    case False
    with def show thesis by (intro early) (auto split: if_splits)
  next
    case db: True
    show thesis
    proof (cases "order_by_key ?key (op_rows s)")
      case (Some row)
      show thesis
      proof (cases "ord_hash row = hash")
        case False
        with def db Some show thesis by (intro early) auto
      next
        case True
        obtain w1 rows a where rep: "replay_order cfg ev (TraceHeaders r) ?key row (op_rows s) w = (w1, rows, a)"
          by (metis prod.collapse)
        with def db Some True have "s' = s\<lparr>op_rows := rows\<rparr>" "w' = w1" "resp = a" by auto
        with rep Checked Some True show thesis by (auto intro: replayed)
      qed
    next
      case None
      obtain w1 resolved where res: "resolve_participants cfg (TraceHeaders r) req w = (w1, resolved)" by fastforce
      show thesis
      proof (cases resolved)
        case (Inl p)
        with def db None res have "s' = s" "http_status resp = fst p" by (auto simp: case_prod_beta)
        with resolve_participants_Inl [of cfg _ req w w1 "fst p" "snd p"] res Inl None show thesis
          by (intro refused) auto
      next
        case debtor: (Inr debtor)
        obtain w2 asked where ask: "ask_router cfg ?key (TraceHeaders r) (internal_request req debtor) w1 = (w2, asked)"
          by fastforce
        show thesis
        proof (cases asked)
          case (Inl p)
          with def db None res debtor ask have "s' = s" "http_status resp = fst p" by (auto simp: case_prod_beta)
          with ask_router_Inl [of cfg ?key _ _ w1 w2 "fst p" "snd p"] ask Inl None show thesis
            by (intro refused) auto
        next
          case (Inr out)
          have def1: "(case (if oe_write ev then insert_order cfg (oe_now ev) ?key hash out (op_rows s) else None) of
                None \<Rightarrow> ((s, w2), JSON 500 (error_body ''could not persist order''))
              | Some rows' \<Rightarrow>
                  (let answer = out\<lparr>pay_CreatedAt := rfc3339nano (oe_now ev)\<rparr>;
                       (rows, resp) = end_tx (oe_commit ev) (payment_answer answer) (op_rows s) rows';
                       s1 = s\<lparr>op_rows := rows\<rparr>
                   in ((if reported_ok (oe_commit ev)
                        then s1\<lparr>op_metrics := Count (pay_Status answer = ''SUCCEEDED'') (oe_latency ev) (op_metrics s)\<rparr>
                        else s1, w2), resp))) = ((s', w'), resp)"
            using def db None res debtor ask Inr by simp
          show thesis
          proof (cases "if oe_write ev then insert_order cfg (oe_now ev) ?key hash out (op_rows s) else None")
            case None
            with def1 \<open>order_by_key ?key (op_rows s) = None\<close> show thesis by (intro refused) auto
          next
            case (Some rows1)
            obtain rows a where e: "end_tx (oe_commit ev) (payment_answer (out\<lparr>pay_CreatedAt := rfc3339nano (oe_now ev)\<rparr>))
                (op_rows s) rows1 = (rows, a)" by fastforce
            from def1 [unfolded Some, simplified, unfolded e Let_def, simplified]
            have "op_rows s' = rows" "w' = w2" "resp = a" by (auto split: if_splits)
            with e Checked None res debtor ask Inr Some \<open>order_by_key ?key (op_rows s) = None\<close> show thesis
              by (intro placed [where rows' = rows1]) (auto split: if_splits)
          qed
        qed
      qed
    qed
  qed
qed

section \<open>What a creation does to the table\<close>

lemma pending_update:
  assumes "orders_inv rows" "row \<in> set rows" "\<not> terminal (ord_status row)"
    "rows' = update_where (\<lambda>r. ord_id r = ord_id row) (put_view uuid p) rows"
  shows "orders_evolve rows rows'" "orders_inv rows'"
  using assms update_pending_evolves [OF assms(1-3)] orders_inv_update [OF assms(1), of "put_view uuid p"] by auto

lemma replay_order_table:
  assumes "replay_order cfg ev trace key row rows w = (w', rows', resp)" "orders_inv rows" "row \<in> set rows"
  shows "orders_evolve rows rows' \<and> orders_inv rows'"
  using assms(1)
proof (cases rule: replay_order_cases)
  case lost
  with pending_update assms(2,3) show ?thesis by blast
next
  case (refreshed uuid p)
  with pending_update assms(2,3) show ?thesis by blast
qed (use assms(2) in auto)

lemma create_orders:
  assumes "create cfg ev r s w = ((s', w'), resp)" "orders_inv (op_rows s)"
  shows "orders_evolve (op_rows s) (op_rows s')" "orders_inv (op_rows s')"
proof -
  from assms(1) have "orders_evolve (op_rows s) (op_rows s') \<and> orders_inv (op_rows s')"
  proof (cases rule: order_cases)
    case (replayed hash req row)
    from replay_order_table [OF replayed(4) assms(2)] order_by_keyD [OF replayed(2)] show ?thesis by blast
  next
    case (placed hash req debtor w1 out rows')
    from insert_order_evolves [OF placed(5)] insert_order_inv [OF placed(5) assms(2)] ask_router_Inr [OF placed(4)]
      end_tx_cases [OF placed(6)] assms(2) show ?thesis by auto
  qed (use assms(2) in auto)
  then show "orders_evolve (op_rows s) (op_rows s')" "orders_inv (op_rows s')" by auto
qed

text \<open>What an answer shows is what the row holds.\<close>

definition order_shows :: "order_row \<Rightarrow> PaymentResponse \<Rightarrow> bool" where
  "order_shows row p \<longleftrightarrow> pay_IdempotencyKey p = ord_key row \<and> pay_Status p = ord_status row \<and>
     pay_Gateway p = coalesce (ord_gateway row) \<and> pay_ProviderRef p = coalesce (ord_provider_ref row) \<and>
     pay_Error p = coalesce (ord_error row) \<and> pay_CreatedAt p = rfc3339nano (ord_created_at row)"

lemma http_status_payment_answer [simp]: "http_status (payment_answer p) = StatusCode (pay_Status p)"
  by (simp add: payment_answer_def)

lemma StatusCode_decided: "StatusCode st = 200 \<or> StatusCode st = 422 \<Longrightarrow> terminal st"
  by (auto simp: StatusCode_def terminal_def split: if_splits)

lemma replay_order_decided:
  assumes "replay_order cfg ev trace key row rows w = (w', rows', resp)" "orders_inv rows"
    "order_by_key key rows = Some row" "http_status resp = 200 \<or> http_status resp = 422"
  shows "\<exists>row' p. order_by_key key rows' = Some row' \<and> resp = payment_answer p \<and> order_shows row' p \<and> terminal (ord_status row')"
  using assms(1)
proof (cases rule: replay_order_cases)
  case stored
  with assms(4) StatusCode_decided [of "NormalizeStatus (ord_status row)"] have "terminal (ord_status row)" by simp
  with stored assms(3) show ?thesis
    by (auto simp: order_shows_def order_response_def)
next
  case (refreshed uuid p)
  with assms(4) have t: "terminal (pay_Status p)" using StatusCode_decided [of "pay_Status p"] by simp
  have "order_by_key key rows' = Some (put_view uuid p row)"
    using refreshed(5) assms(3) by (simp add: order_by_key_update)
  moreover have "order_shows (put_view uuid p row) (p\<lparr>pay_CreatedAt := rfc3339nano (ord_created_at row)\<rparr>)"
    using refreshed(4) t order_by_keyD [OF assms(3)] by (simp add: order_shows_def put_view_def coalesce_def)
  ultimately show ?thesis using refreshed(6) t by auto
qed (use assms(4) in auto)

lemma create_order_decided:
  assumes "create cfg ev r s w = ((s', w'), resp)" "orders_inv (op_rows s)"
    "http_status resp = 200 \<or> http_status resp = 422"
  shows "\<exists>row p. order_by_key (order_key r) (op_rows s') = Some row \<and> resp = payment_answer p \<and>
    order_shows row p \<and> terminal (ord_status row)"
  using assms(1)
proof (cases rule: order_cases)
  case (replayed hash req row)
  from replay_order_decided [OF replayed(4) assms(2) replayed(2) assms(3)] show ?thesis .
next
  case (placed hash req debtor w1 out rows')
  let ?p = "out\<lparr>pay_CreatedAt := rfc3339nano (oe_now ev)\<rparr>"
  from end_tx_cases [OF placed(6)] assms(3) have e: "resp = payment_answer ?p" "op_rows s' = rows'" by auto
  with assms(3) have t: "terminal (pay_Status out)" using StatusCode_decided [of "pay_Status out"] by simp
  from insert_order_Some [OF placed(5)] obtain row where "rows' = op_rows s @ [row]" "ord_key row = order_key r"
    "ord_status row = pay_Status out" "order_shows row ?p"
    using ask_router_Inr [OF placed(4)] by (auto simp: order_shows_def coalesce_def)
  with e t placed(2) show ?thesis by (auto simp: order_by_key_def find_append)
qed (use assms(3) in auto)

text \<open>A replay of a decided order answers from the table, without the network.\<close>

lemma replay_decided_order:
  assumes "terminal (ord_status row)" "reported_ok (oe_commit ev)"
  shows "replay_order cfg ev trace key row rows w = (w, rows, payment_answer
    ((order_response row)\<lparr>pay_CreatedAt := rfc3339nano (ord_created_at row)\<rparr>))"
proof -
  have "ord_status row \<noteq> ''PENDING''" using assms(1) by auto
  moreover have "end_tx (oe_commit ev) a rows rows = (rows, a)" for a
    using assms(2) by (simp add: end_tx_def)
  ultimately show ?thesis using assms(1) by (simp add: replay_order_def Let_def order_response_def)
qed

text \<open>A new order stands for two active participants in their roles.\<close>

lemma create_new_order:
  assumes "create cfg ev r s w = ((s', w'), resp)" "order_by_key (order_key r) (op_rows s) = None"
    "order_by_key (order_key r) (op_rows s') = Some row"
  shows "\<exists>req w1 w2 debtor creditor. Decode decode_public r = Some req \<and> ValidateRequest req = None \<and>
    participant cfg (TraceHeaders r) (pub_DebtorParticipantID req) w = (w1, Inr debtor) \<and>
    participant cfg (TraceHeaders r) (pub_CreditorParticipantID req) w1 = (w2, Inr creditor) \<and>
    part_Active debtor \<and> part_Active creditor \<and>
    hasRole (part_Roles debtor) RoleDebtor \<and> hasRole (part_Roles creditor) RoleCreditor \<and>
    ord_hash row = RequestHash (oc_sha cfg) (encode_public req)"
  using assms(1)
proof (cases rule: order_cases)
  case (placed hash req debtor w1 out rows')
  from order_checks_Checked [OF placed(1)] resolve_participants_Inr [OF placed(3)] insert_order_Some [OF placed(5)]
    end_tx_cases [OF placed(6)] assms(2,3) show ?thesis
    by (auto simp: order_by_key_def find_append)
qed (use assms(2,3) in auto)

section \<open>Reading an order\<close>

text \<open>\<open>get\<close> keeps the table well formed, but it writes the view it fetched over any status.\<close>

lemma reconcile_keeps:
  assumes "orders_inv rows" "pay_Status p \<in> {''PENDING'', ''SUCCEEDED'', ''FAILED''}"
  shows "orders_inv (reconcile_order upd oid p rows)"
proof -
  let ?f = "\<lambda>r. r\<lparr>ord_status := pay_Status p, ord_gateway := Some (pay_Gateway p),
    ord_provider_ref := Some (pay_ProviderRef p), ord_error := Some (pay_Error p)\<rparr>"
  have "orders_inv (update_where (\<lambda>r. ord_id r = oid) ?f rows)"
    using assms by (intro orders_inv_update) (simp_all add: order_identity_def order_row_ok_def)
  with assms(1) show ?thesis by (simp add: reconcile_order_def)
qed

lemma get_orders_inv:
  assumes "get cfg ev r s w = ((s', w'), resp)" "orders_inv (op_rows s)"
  shows "orders_inv (op_rows s')"
  using assms
  by (auto simp: get_def Let_def reconcile_keeps NormalizeStatus_def split: if_splits option.splits prod.splits)

section \<open>Sequences of creates\<close>

text \<open>The orders are a ledger: a decided order is final.\<close>

interpretation orders: ledger order_by_key "\<lambda>r. terminal (ord_status r)" orders_evolve
proof unfold_locales
  show "orders_evolve d e \<Longrightarrow> orders_evolve e f \<Longrightarrow> orders_evolve d f" for d e f by (rule orders_evolve_trans)
qed (auto simp: orders_evolve_def order_evolves_def)

fun create_all ::
  "'w operator_config \<Rightarrow> (operator_event \<times> http_request) list \<Rightarrow> operator \<times> 'w \<Rightarrow> (operator \<times> 'w) \<times> (string \<times> http_response) list" where
  "create_all cfg [] st = (st, [])"
| "create_all cfg ((ev, r) # rs) st =
     (let (st1, resp) = Operator.create cfg ev r (fst st) (snd st); (st2, as) = create_all cfg rs st1
      in (st2, (order_key r, resp) # as))"

lemma create_all_evolves:
  "create_all cfg rs (s, w) = ((s', w'), as) \<Longrightarrow> orders_inv (op_rows s) \<Longrightarrow>
   orders_evolve (op_rows s) (op_rows s') \<and> orders_inv (op_rows s')"
proof (induction rs arbitrary: s w as)
  case (Cons x rs)
  obtain ev r where x: "x = (ev, r)" by fastforce
  obtain s1 w1 resp where c: "Operator.create cfg ev r s w = ((s1, w1), resp)" by (metis prod.collapse)
  obtain as1 where rest: "create_all cfg rs (s1, w1) = ((s', w'), as1)"
    using Cons.prems(1) c x by (auto split: prod.splits)
  from create_orders [OF c Cons.prems(2)] Cons.IH [OF rest] orders.evolves_trans show ?case by blast
qed simp

lemma create_all_decided:
  "create_all cfg rs (s, w) = ((s', w'), as) \<Longrightarrow> orders_inv (op_rows s) \<Longrightarrow> (key, resp) \<in> set as \<Longrightarrow>
   http_status resp = 200 \<or> http_status resp = 422 \<Longrightarrow>
   \<exists>row p. order_by_key key (op_rows s') = Some row \<and> terminal (ord_status row) \<and> resp = payment_answer p \<and> order_shows row p"
proof (induction rs arbitrary: s w as)
  case (Cons x rs)
  obtain ev r where x: "x = (ev, r)" by fastforce
  obtain s1 w1 resp1 where c: "Operator.create cfg ev r s w = ((s1, w1), resp1)" by (metis prod.collapse)
  obtain as1 where rest: "create_all cfg rs (s1, w1) = ((s', w'), as1)" and as: "as = (order_key r, resp1) # as1"
    using Cons.prems(1) c x by (auto split: prod.splits)
  have inv1: "orders_inv (op_rows s1)" using create_orders(2) [OF c] Cons.prems(2) by simp
  show ?case
  proof (cases "(key, resp) \<in> set as1")
    case True
    then show ?thesis by (rule Cons.IH [OF rest inv1 _ Cons.prems(4)])
  next
    case False
    with as Cons.prems(3) have "key = order_key r" "resp = resp1" by auto
    with create_order_decided [OF c Cons.prems(2)] Cons.prems(4) obtain row p where
      "order_by_key key (op_rows s1) = Some row" "terminal (ord_status row)" "resp = payment_answer p" "order_shows row p" by blast
    moreover from create_all_evolves [OF rest inv1] have "orders_evolve (op_rows s1) (op_rows s')" by simp
    ultimately show ?thesis using orders.final by blast
  qed
qed simp

lemma order_shows_agree: "order_shows row p \<Longrightarrow> order_shows row q \<Longrightarrow> p\<lparr>pay_ID := i\<rparr> = q\<lparr>pay_ID := i\<rparr>"
  by (cases p; cases q) (simp add: order_shows_def)

end
