(* ===== verification/Participant_Manager.thy ===== *)
theory Participant_Manager
  imports Database
begin

text \<open>
  \<open>cmd/participant-manager/main.go\<close>: the directory of participants. The table is a list of
  rows with a unique id; the roles column holds a JSON value. A request comes with what the
  environment decides: whether the database answers the query, how the write ends, the
  latency.
\<close>

section \<open>State\<close>

record participant_row =
  prow_id :: string
  prow_instrument :: string
  prow_gateway :: string
  prow_roles :: json
  prow_active :: bool

record manager =
  m_rows :: "participant_row list"
  m_metrics :: Metrics

record manager_event =
  me_query :: bool     \<comment> \<open>the database answers (a ping, a SELECT)\<close>
  me_write :: outcome  \<comment> \<open>how the INSERT ends\<close>
  me_latency :: int

section \<open>Handlers\<close>

definition encode_roles :: "string list \<Rightarrow> json" where
  "encode_roles roles = JArr (map JStr roles)"

text \<open>The three rows of \<open>seed\<close>; \<open>EXCLUDED.roles\<close> replaces the roles of a row that has none.\<close>

definition seed_rows :: "participant_row list" where
  "seed_rows =
     (let roles = encode_roles [RoleDebtor, RoleCreditor] in
      [\<lparr>prow_id = ''participant-card'', prow_instrument = ''card'', prow_gateway = ''gateway-card'',
         prow_roles = roles, prow_active = True\<rparr>,
       \<lparr>prow_id = ''participant-bank'', prow_instrument = ''bank_transfer'', prow_gateway = ''gateway-bank'',
         prow_roles = roles, prow_active = True\<rparr>,
       \<lparr>prow_id = ''participant-wallet'', prow_instrument = ''wallet'', prow_gateway = ''gateway-card'',
         prow_roles = roles, prow_active = True\<rparr>])"

definition seed_conflict :: "participant_row \<Rightarrow> participant_row \<Rightarrow> participant_row" where
  "seed_conflict excluded r =
     r\<lparr>prow_roles := (if prow_roles r = JArr [] then prow_roles excluded else prow_roles r)\<rparr>"

definition seed :: "participant_row list \<Rightarrow> participant_row list" where
  "seed rows = foldl (\<lambda>rs row. upsert prow_id (seed_conflict row) row rs) rows seed_rows"

definition status_body :: "string \<Rightarrow> json" where
  "status_body s = JObj [(''status'', JStr s)]"

definition manager_health :: "manager \<Rightarrow> manager \<times> http_response" where
  "manager_health m = (m, JSON 200 (status_body ''ok''))"

definition manager_ready :: "manager_event \<Rightarrow> manager \<Rightarrow> manager \<times> http_response" where
  "manager_ready ev m =
     (if \<not> me_query ev then (m, JSON 503 (status_body ''not_ready''))
      else (m, JSON 200 (status_body ''ready'')))"

text \<open>\<open>SELECT ... FROM participants WHERE id=$1\<close>: an error, no row, or the row.\<close>

definition select_participant :: "bool \<Rightarrow> string \<Rightarrow> participant_row list \<Rightarrow> participant_row option option" where
  "select_participant db pid rows =
     (if db \<and> pg_text pid then Some (find (\<lambda>r. prow_id r = pid) rows) else None)"

text \<open>\<open>json.Unmarshal(roles, &p.Roles)\<close>; a JSON null leaves the slice nil, written as null.\<close>

definition row_participant :: "participant_row \<Rightarrow> Participant option" where
  "row_participant row =
     set_strings (\<lambda>ss p. p\<lparr>part_Roles := ss\<rparr>) (prow_roles row)
       \<lparr>part_ID = prow_id row, part_Instrument = prow_instrument row, part_Gateway = prow_gateway row,
        part_Roles = [], part_Active = prow_active row\<rparr>"

definition encode_row :: "participant_row \<Rightarrow> Participant \<Rightarrow> json" where
  "encode_row row p =
     (if prow_roles row = JNull
      then JObj (str_member ''id'' (part_ID p) @ str_member ''instrument'' (part_Instrument p)
             @ str_member ''gateway'' (part_Gateway p)
             @ [(''roles'', JNull), (''active'', JBool (part_Active p))])
      else encode_participant p)"

definition routing :: "manager_event \<Rightarrow> http_request \<Rightarrow> manager \<Rightarrow> manager \<times> http_response" where
  "routing ev r m =
     (let pid = trim_prefix ''/v1/participants/'' (req_path r) in
      if req_method r \<noteq> ''GET'' \<or> pid = [] then (m, JSON 405 (error_body ''method not allowed''))
      else case select_participant (me_query ev) pid (m_rows m) of
        None \<Rightarrow> (m, JSON 503 (error_body ''participant database unavailable''))
      | Some None \<Rightarrow> (m, JSON 404 (error_body ''participant not found''))
      | Some (Some row) \<Rightarrow>
          (case row_participant row of
             None \<Rightarrow> (m, JSON 503 (error_body ''participant data unavailable''))
           | Some p \<Rightarrow>
               if \<not> part_Active p then (m, JSON 409 (error_body ''participant inactive''))
               else (m\<lparr>m_metrics := Count True (me_latency ev) (m_metrics m)\<rparr>, JSON 200 (encode_row row p))))"

definition create_row :: "Participant \<Rightarrow> participant_row" where
  "create_row p = \<lparr>prow_id = part_ID p, prow_instrument = part_Instrument p, prow_gateway = part_Gateway p,
     prow_roles = encode_roles (part_Roles p), prow_active = part_Active p\<rparr>"

definition create_conflict :: "participant_row \<Rightarrow> participant_row \<Rightarrow> participant_row" where
  "create_conflict excluded r = r\<lparr>prow_instrument := prow_instrument excluded,
     prow_gateway := prow_gateway excluded, prow_roles := prow_roles excluded,
     prow_active := prow_active excluded\<rparr>"

definition normalize_participant :: "Participant \<Rightarrow> Participant" where
  "normalize_participant p =
     (let p = p\<lparr>part_ID := trim_space (part_ID p)\<rparr>;
          p = p\<lparr>part_Instrument := to_lower (trim_space (part_Instrument p))\<rparr>;
          p = p\<lparr>part_Gateway := trim_space (part_Gateway p)\<rparr>
      in p\<lparr>part_Roles := NormalizeRoles (part_Roles p)\<rparr>)"

text \<open>The INSERT: how it ends, given the texts it carries.\<close>

definition save_participant :: "outcome \<Rightarrow> Participant \<Rightarrow> participant_row list \<Rightarrow> bool \<times> participant_row list" where
  "save_participant w p rows =
     (if \<not> (pg_text (part_ID p) \<and> pg_text (part_Instrument p) \<and> pg_text (part_Gateway p)) then (False, rows)
      else (reported_ok w,
            if takes_effect w then upsert prow_id (create_conflict (create_row p)) (create_row p) rows else rows))"

definition create :: "manager_event \<Rightarrow> http_request \<Rightarrow> manager \<Rightarrow> manager \<times> http_response" where
  "create ev r m =
     (if req_method r \<noteq> ''POST'' then (m, JSON 405 (error_body ''method not allowed''))
      else case Decode decode_participant r of
        None \<Rightarrow> (m, JSON 400 (error_body ''invalid JSON''))
      | Some p0 \<Rightarrow>
          (let p = normalize_participant p0 in
           case ValidateParticipant p of
             Some e \<Rightarrow> (m, JSON 400 (error_body e))
           | None \<Rightarrow>
               (let (ok, rows) = save_participant (me_write ev) p (m_rows m);
                    m' = m\<lparr>m_rows := rows\<rparr>
                in if \<not> ok then (m', JSON 500 (error_body ''could not save participant''))
                   else (m', JSON 201 (encode_participant p)))))"

definition metrics_response :: "Metrics \<Rightarrow> http_response" where
  "metrics_response ms = \<lparr>http_status = 200, http_body = Handler ms\<rparr>"

definition not_found :: http_response where
  "not_found = \<lparr>http_status = 404, http_body = ''404 page not found'' @ [CHR 0x0A]\<rparr>"

text \<open>The mux of \<open>main\<close>, on the cleaned paths it matches.\<close>

definition manager_serve :: "manager_event \<Rightarrow> http_request \<Rightarrow> manager \<Rightarrow> manager \<times> http_response" where
  "manager_serve ev r m =
     (if req_path r = ''/healthz'' then manager_health m
      else if req_path r = ''/readyz'' then manager_ready ev m
      else if req_path r = ''/metrics'' then (m, metrics_response (m_metrics m))
      else if prefix ''/v1/participants/'' (req_path r) then routing ev r m
      else if req_path r = ''/v1/participants'' then create ev r m
      else (m, not_found))"

section \<open>Every row is a valid participant\<close>

definition row_ok :: "participant_row \<Rightarrow> bool" where
  "row_ok row \<longleftrightarrow> trimmed (prow_id row) \<and> prow_id row \<noteq> [] \<and> ValidInstrument (prow_instrument row) \<and>
     trimmed (prow_gateway row) \<and> prow_gateway row \<noteq> [] \<and>
     (\<exists>roles. prow_roles row = encode_roles roles \<and> roles \<noteq> [] \<and> distinct roles \<and> set roles \<subseteq> validRoles)"

definition manager_inv :: "participant_row list \<Rightarrow> bool" where
  "manager_inv rows \<longleftrightarrow> distinct (map prow_id rows) \<and> (\<forall>row \<in> set rows. row_ok row)"

lemma normalize_participant_simps [simp]:
  "part_ID (normalize_participant p) = trim_space (part_ID p)"
  "part_Instrument (normalize_participant p) = to_lower (trim_space (part_Instrument p))"
  "part_Gateway (normalize_participant p) = trim_space (part_Gateway p)"
  "part_Roles (normalize_participant p) = NormalizeRoles (part_Roles p)"
  "part_Active (normalize_participant p) = part_Active p"
  by (simp_all add: normalize_participant_def)

lemma create_row_ok:
  assumes "ValidateParticipant (normalize_participant p) = None"
  shows "row_ok (create_row (normalize_participant p))"
proof -
  let ?roles = "NormalizeRoles (part_Roles p)"
  from assms have "trim_space (part_ID p) \<noteq> []" "ValidInstrument (to_lower (trim_space (part_Instrument p)))"
    "trim_space (part_Gateway p) \<noteq> []" "NormalizeRoles ?roles \<noteq> []" "set (NormalizeRoles ?roles) \<subseteq> validRoles"
    by (auto simp: ValidateParticipant_def Let_def trim_space_idem unsupported_role_None split: if_splits)
  moreover from this(4,5) have "set ?roles \<subseteq> validRoles" "?roles \<noteq> []"
    using set_NormalizeRoles_twice [of "part_Roles p"] by (auto simp flip: set_empty2)
  ultimately show ?thesis
    by (auto simp: row_ok_def create_row_def encode_roles_def distinct_NormalizeRoles)
qed

lemma create_conflict_id [simp]: "prow_id (create_conflict x r) = prow_id r"
  by (simp add: create_conflict_def)

lemma seed_conflict_id [simp]: "prow_id (seed_conflict x r) = prow_id r"
  by (simp add: seed_conflict_def)

lemma create_row_id [simp]: "prow_id (create_row p) = part_ID p"
  by (simp add: create_row_def)

lemma create_conflict_eq: "prow_id r = prow_id x \<Longrightarrow> create_conflict x r = x"
  by (cases r; cases x) (simp add: create_conflict_def)

lemma seed_conflict_ok: "row_ok row \<Longrightarrow> row_ok r \<Longrightarrow> row_ok (seed_conflict row r)"
  by (auto simp: seed_conflict_def row_ok_def encode_roles_def)

text \<open>The upserts keep the table well formed.\<close>

lemma manager_inv_seed_1:
  "row_ok row \<Longrightarrow> manager_inv rows \<Longrightarrow> manager_inv (upsert prow_id (seed_conflict row) row rows)"
  using set_upsert [of prow_id "seed_conflict row" row rows]
  by (auto simp: manager_inv_def upsert_distinct seed_conflict_ok dest!: subsetD)

lemma seed_rows_ok: "row \<in> set seed_rows \<Longrightarrow> row_ok row"
proof -
  have "list_all trimmed (map prow_id seed_rows @ map prow_gateway seed_rows)" by code_simp
  then show "row \<in> set seed_rows \<Longrightarrow> row_ok row"
    by (auto simp: seed_rows_def row_ok_def ValidInstrument_iff Let_def validRoles_def
        RoleDebtor_def RoleCreditor_def intro!: exI [of _ "[''debtor'', ''creditor'']"])
qed

lemma manager_inv_foldl:
  "(\<And>row. row \<in> set ss \<Longrightarrow> row_ok row) \<Longrightarrow> manager_inv rows \<Longrightarrow>
   manager_inv (foldl (\<lambda>rs row. upsert prow_id (seed_conflict row) row rs) rows ss)"
  by (induction ss arbitrary: rows) (auto intro: manager_inv_seed_1)

lemma manager_inv_seed: "manager_inv rows \<Longrightarrow> manager_inv (seed rows)"
  unfolding seed_def by (rule manager_inv_foldl [OF seed_rows_ok])

lemma manager_inv_upsert:
  assumes "manager_inv rows" "row_ok row"
  shows "manager_inv (upsert prow_id (create_conflict row) row rows)"
proof -
  have "r = row" if "r \<in> set (upsert prow_id (create_conflict row) row rows)" "prow_id r = prow_id row" for r
    using that create_conflict_eq [of _ row]
    by (auto simp: upsert_def set_update_where list_ex_iff split: if_splits)
  moreover have "r \<in> set rows" if "r \<in> set (upsert prow_id (create_conflict row) row rows)" "prow_id r \<noteq> prow_id row" for r
    using that by (auto simp: upsert_def set_update_where split: if_splits)
  ultimately show ?thesis
    using assms by (auto simp: manager_inv_def upsert_distinct)
qed

lemma manager_inv_create:
  "manager_inv (m_rows m) \<Longrightarrow> manager_inv (m_rows (fst (create ev r m)))"
  by (auto simp: create_def save_participant_def Let_def create_row_ok manager_inv_upsert split: option.splits)

lemma routing_rows [simp]: "m_rows (fst (routing ev r m)) = m_rows m"
  by (simp add: routing_def Let_def split: option.splits)

lemma manager_inv_serve: "manager_inv (m_rows m) \<Longrightarrow> manager_inv (m_rows (fst (manager_serve ev r m)))"
  by (simp add: manager_serve_def manager_health_def manager_ready_def manager_inv_create)

section \<open>What a lookup returns\<close>

lemma encode_create_row:
  "row_participant (create_row p) = Some p" "encode_row (create_row p) p = encode_participant p"
  by (simp_all add: row_participant_def create_row_def encode_roles_def set_strings_def encode_row_def)

lemma create_201:
  assumes "create ev r m = (m', resp)" "http_status resp = 201"
  shows "\<exists>p0. Decode decode_participant r = Some p0 \<and> resp = JSON 201 (encode_participant (normalize_participant p0)) \<and>
    ValidateParticipant (normalize_participant p0) = None \<and> pg_text (trim_space (part_ID p0)) \<and>
    m_rows m' = upsert prow_id (create_conflict (create_row (normalize_participant p0)))
      (create_row (normalize_participant p0)) (m_rows m)"
  using assms reported_ok_takes_effect
  by (auto simp: create_def save_participant_def Let_def split: if_splits option.splits)

lemma find_created:
  "find (\<lambda>r. prow_id r = j) (upsert prow_id (create_conflict (create_row p)) (create_row p) rows) =
   (if j = part_ID p then Some (create_row p) else find (\<lambda>r. prow_id r = j) rows)"
  by (auto simp: find_upsert create_conflict_eq dest: find_SomeD split: option.splits)

lemma routing_select:
  assumes "req_method g = ''GET''" "req_path g = ''/v1/participants/'' @ j" "j \<noteq> []" "pg_text j" "me_query ev"
  shows "snd (routing ev g m) = (case find (\<lambda>r. prow_id r = j) (m_rows m) of
      None \<Rightarrow> JSON 404 (error_body ''participant not found'')
    | Some row \<Rightarrow> (case row_participant row of
          None \<Rightarrow> JSON 503 (error_body ''participant data unavailable'')
        | Some p \<Rightarrow> if part_Active p then JSON 200 (encode_row row p)
                   else JSON 409 (error_body ''participant inactive'')))"
proof -
  have "trim_prefix ''/v1/participants/'' (req_path g) = j" unfolding assms(2) by (rule trim_prefix_append)
  with assms show ?thesis
    by (auto simp: routing_def Let_def select_participant_def split: option.splits)
qed

end
