(* ===== verification/Mesh.thy ===== *)
theory Mesh
  imports Router_Providers Operator_Facts Participant_Manager
begin

text \<open>
  The services together: the operator calls the participant manager and the router over a
  network that may lose a request, or the answer of a request that took effect; the router
  calls its providers. What the operator records of a payment is what the router records,
  and that is what the provider has on its books.
\<close>

section \<open>What the operator reads of the router's answers\<close>

lemma router_lookup_find [simp]:
  "find_field router_lookup_fields ''id'' = Some (set_string (\<lambda>s. on_payment (\<lambda>r. r\<lparr>pay_ID := s\<rparr>)))"
  "find_field router_lookup_fields ''idempotency_key'' = Some (set_string (\<lambda>s. on_payment (\<lambda>r. r\<lparr>pay_IdempotencyKey := s\<rparr>)))"
  "find_field router_lookup_fields ''status'' = Some (set_string (\<lambda>s. on_payment (\<lambda>r. r\<lparr>pay_Status := s\<rparr>)))"
  "find_field router_lookup_fields ''gateway'' = Some (set_string (\<lambda>s. on_payment (\<lambda>r. r\<lparr>pay_Gateway := s\<rparr>)))"
  "find_field router_lookup_fields ''provider_ref'' = Some (set_string (\<lambda>s. on_payment (\<lambda>r. r\<lparr>pay_ProviderRef := s\<rparr>)))"
  "find_field router_lookup_fields ''error'' = Some (set_string (\<lambda>s. on_payment (\<lambda>r. r\<lparr>pay_Error := s\<rparr>)))"
  "find_field router_lookup_fields ''created_at'' = Some (set_string (\<lambda>s. on_payment (\<lambda>r. r\<lparr>pay_CreatedAt := s\<rparr>)))"
  "find_field router_lookup_fields ''debtor_participant_id'' = Some (set_string (\<lambda>s. on_request (\<lambda>r. r\<lparr>rtr_DebtorParticipantID := s\<rparr>)))"
  "find_field router_lookup_fields ''creditor_participant_id'' = Some (set_string (\<lambda>s. on_request (\<lambda>r. r\<lparr>rtr_CreditorParticipantID := s\<rparr>)))"
  "find_field router_lookup_fields ''amount_minor'' = Some (set_int64 (\<lambda>i. on_request (\<lambda>r. r\<lparr>rtr_AmountMinor := i\<rparr>)))"
  "find_field router_lookup_fields ''currency'' = Some (set_string (\<lambda>s. on_request (\<lambda>r. r\<lparr>rtr_Currency := s\<rparr>)))"
  "find_field router_lookup_fields ''reference'' = Some (set_string (\<lambda>s. on_request (\<lambda>r. r\<lparr>rtr_Reference := s\<rparr>)))"
  "find_field router_lookup_fields ''instrument'' = Some (set_string (\<lambda>s. on_request (\<lambda>r. r\<lparr>rtr_Instrument := s\<rparr>)))"
  by (simp_all add: router_lookup_fields_def equal_fold_member_names)

lemma decode_lookup_payment: "decode_lookup (encode_payment p) = Some \<lparr>rl_payment = p, rl_request = zero_router\<rparr>"
  by (cases p) (simp add: decode_lookup_def decode_struct_def encode_payment_def payment_members_def
      assign_append zero_payment_def on_payment_def)

lemma decode_lookup_both:
  "in_int64 (rtr_AmountMinor (lookup_request l)) \<Longrightarrow>
   decode_lookup (encode_lookup l) = Some \<lparr>rl_payment = lookup_payment l, rl_request = lookup_request l\<rparr>"
  by (cases "lookup_payment l"; cases "lookup_request l")
    (simp add: decode_lookup_def decode_struct_def encode_lookup_def payment_members_def router_members_def
      assign_append zero_payment_def zero_router_def on_payment_def on_request_def)

lemma decode_error_answer:
  "decode_payment (error_body m) = Some (zero_payment\<lparr>pay_Error := m\<rparr>)"
  "decode_lookup (error_body m) = Some \<lparr>rl_payment = zero_payment\<lparr>pay_Error := m\<rparr>, rl_request = zero_router\<rparr>"
  by (simp_all add: decode_payment_def decode_lookup_def decode_struct_def error_body_def str_member_def [symmetric]
      on_payment_def)

lemma json_ok_encode_lookup:
  "payment_text (lookup_payment l) \<Longrightarrow> router_text (lookup_request l) \<Longrightarrow> json_ok (encode_lookup l)"
  using json_ok_encode_payment [of "lookup_payment l"] json_ok_encode_router [of "lookup_request l"]
  by (simp add: encode_lookup_def encode_payment_def encode_router_def list_all_append)

lemma read_body_JSON [simp]: "json_ok v \<Longrightarrow> read_body dec (http_body (JSON st v)) = dec v"
  by (simp add: read_body_def)

section \<open>The services behind the operator\<close>

record leg =
  leg_router :: router_event
  leg_db :: bool
  leg_manager :: manager_event

text \<open>A request is lost, or takes effect with its answer lost, or is answered.\<close>

datatype hop = Unreached | Unheard leg | Heard leg

record 'w backend =
  bk_hops :: "hop list"
  bk_router :: router
  bk_manager :: manager
  bk_world :: 'w

definition backend_serve ::
  "(string \<Rightarrow> string) \<Rightarrow> 'w router_config \<Rightarrow> leg \<Rightarrow> http_request \<Rightarrow> 'w backend \<Rightarrow> 'w backend \<times> http_response option" where
  "backend_serve env cfg leg r b =
     (if prefix (participants_url env) (req_path r) then
        (let (m, resp) = manager_serve (leg_manager leg)
               (r\<lparr>req_path := trim_prefix (participants_url env) (req_path r)\<rparr>) (bk_manager b)
         in (b\<lparr>bk_manager := m\<rparr>, Some resp))
      else if prefix (router_url env) (req_path r) then
        (let ((s, w), resp) = router_serve cfg (leg_router leg) (leg_db leg)
               (r\<lparr>req_path := trim_prefix (router_url env) (req_path r)\<rparr>) (bk_router b) (bk_world b)
         in (b\<lparr>bk_router := s, bk_world := w\<rparr>, resp))
      else (b, None))"

definition backend_send ::
  "(string \<Rightarrow> string) \<Rightarrow> 'w router_config \<Rightarrow> http_request \<Rightarrow> 'w backend \<Rightarrow> 'w backend \<times> (string + http_response)" where
  "backend_send env cfg r b =
     (case bk_hops b of
        [] \<Rightarrow> (b, Inl ''connection refused'')
      | Unreached # hs \<Rightarrow> (b\<lparr>bk_hops := hs\<rparr>, Inl ''request lost'')
      | Unheard leg # hs \<Rightarrow> ((fst (backend_serve env cfg leg r b))\<lparr>bk_hops := hs\<rparr>, Inl ''answer lost'')
      | Heard leg # hs \<Rightarrow>
          (let (b', resp) = backend_serve env cfg leg r b
           in (b'\<lparr>bk_hops := hs\<rparr>, case resp of Some a \<Rightarrow> Inr a | None \<Rightarrow> Inl ''connection closed'')))"

definition backend_net :: "(string \<Rightarrow> string) \<Rightarrow> 'w router_config \<Rightarrow> 'w backend network" where
  "backend_net env cfg = \<lparr>net_url_error = (\<lambda>_. None), net_send = backend_send env cfg\<rparr>"

text \<open>The configuration of an operator on this network, with one reading of UUIDs.\<close>

definition mesh_operator ::
  "(string \<Rightarrow> string) \<Rightarrow> 'w router_config \<Rightarrow> 'w backend operator_config" where
  "mesh_operator env cfg = \<lparr>oc_sha = rc_sha cfg, oc_uuid_in = rc_uuid_in cfg, oc_env = env, oc_net = backend_net env cfg\<rparr>"

lemma mesh_operator_simps [simp]:
  "oc_uuid_in (mesh_operator env cfg) = rc_uuid_in cfg" "oc_env (mesh_operator env cfg) = env"
  "oc_net (mesh_operator env cfg) = backend_net env cfg" "net_send (backend_net env cfg) = backend_send env cfg"
  "net_url_error (backend_net env cfg) u = None" "oc_sha (mesh_operator env cfg) = rc_sha cfg"
  by (simp_all add: mesh_operator_def backend_net_def)

section \<open>Identifiers\<close>

lemma hex_char_ascii:
  assumes "n < 16" shows "ascii [hex_char n] \<and> hex_char n \<noteq> CHR ''/''"
proof -
  have "byte_val (hex_char n) = (if n < 10 then 48 + n else 87 + n)" using assms by (simp add: hex_char_def)
  moreover have "byte_val (CHR ''/'') = 47" by code_simp
  ultimately show ?thesis using assms by (auto simp: ascii_def split: if_splits)
qed

lemma hex_bytes_chars:
  assumes "c \<in> set (concat (map hex_byte bs))" shows "ascii [c] \<and> c \<noteq> CHR ''/''"
proof -
  have "unat b div 16 < 16" "unat b mod 16 < 16" for b :: "8 word"
  proof -
    have "unat b < 2 ^ LENGTH(8)" by (rule unsigned_less)
    then show "unat b div 16 < 16" "unat b mod 16 < 16" by simp_all
  qed
  with assms hex_char_ascii show ?thesis by (auto simp: hex_byte_def)
qed

lemma newUUID_chars: "c \<in> set (newUUID bytes) \<Longrightarrow> ascii [c] \<and> c \<noteq> CHR ''/''"
proof -
  assume "c \<in> set (newUUID bytes)"
  moreover have "x = CHR ''-'' \<or> x \<in> set h" if "x \<in> set (take 8 h @ ''-'' @ take 4 (drop 8 h) @ ''-'' @
      take 4 (drop 12 h) @ ''-'' @ take 4 (drop 16 h) @ ''-'' @ drop 20 h)" for x and h :: string
    using that by (auto dest!: in_set_takeD in_set_dropD)
  ultimately have "c = CHR ''-'' \<or> (\<exists>bs. c \<in> set (concat (map hex_byte bs)))"
    unfolding newUUID_def Let_def by blast
  moreover have "ascii ''-''" by code_simp
  ultimately show ?thesis using hex_bytes_chars by auto
qed

lemma newUUID_text: "utf8_valid (newUUID bytes)"
  using newUUID_chars by (intro utf8_valid_ascii) (auto simp: ascii_def list_all_iff)

text \<open>A name that PostgreSQL reads back as itself and that is one segment of a path.\<close>

definition known_id :: "(string \<Rightarrow> string option) \<Rightarrow> string \<Rightarrow> bool" where
  "known_id uuid_in s \<longleftrightarrow> uuid_in s = Some s \<and> s \<noteq> [] \<and> CHR ''/'' \<notin> set s"

definition leg_ok :: "(string \<Rightarrow> string option) \<Rightarrow> leg \<Rightarrow> bool" where
  "leg_ok uuid_in leg \<longleftrightarrow> known_id uuid_in (newUUID (re_random (leg_router leg)))"

definition hop_ok :: "(string \<Rightarrow> string option) \<Rightarrow> hop \<Rightarrow> bool" where
  "hop_ok uuid_in h = (case h of Unreached \<Rightarrow> True | Unheard leg \<Rightarrow> leg_ok uuid_in leg | Heard leg \<Rightarrow> leg_ok uuid_in leg)"

definition backend_good ::
  "(string \<Rightarrow> string option) \<Rightarrow> ('w \<Rightarrow> bool) \<Rightarrow> ('w \<Rightarrow> string \<Rightarrow> string \<Rightarrow> string \<Rightarrow> string \<Rightarrow> bool) \<Rightarrow>
   'w backend \<Rightarrow> bool" where
  "backend_good uuid_in sound evidence b \<longleftrightarrow> sound (bk_world b) \<and> list_all (hop_ok uuid_in) (bk_hops b) \<and>
     rows_good (known_id uuid_in) (evidence (bk_world b)) (r_rows (bk_router b))"

abbreviation bk_rows :: "'w backend \<Rightarrow> payment_row list" where
  "bk_rows b \<equiv> r_rows (bk_router b)"

lemma get_rows [simp]: "bk_rows (b\<lparr>bk_hops := hs\<rparr>) = bk_rows b" "bk_world (b\<lparr>bk_hops := hs\<rparr>) = bk_world b"
  by simp_all

text \<open>What a request to the router's own pages does to its payments: only \<open>create\<close> changes them.\<close>

lemma router_serve_create:
  assumes "router_serve cfg ev db r s w = ((s', w'), resp)"
  shows "(s' = s \<and> w' = w) \<or> Router.create cfg ev r s w = ((s', w'), resp)"
  using assms by (auto simp: router_serve_def split: if_splits)

context providers
begin

lemma router_serve_keeps:
  assumes "router_serve cfg ev db r s w = ((s', w'), resp)" "rc_adapters cfg = call" "sound w"
    "rows_good known (evidence w) (r_rows s)" "known (newUUID (re_random ev))"
  shows "sound w' \<and> rows_good known (evidence w') (r_rows s') \<and> table_evolves (r_rows s) (r_rows s')"
  using router_serve_create [OF assms(1)]
proof
  assume "Router.create cfg ev r s w = ((s', w'), resp)"
  from create_keeps [OF this assms(2-5) newUUID_text] create_evolves(1) [OF this] show ?thesis by simp
qed (use assms in simp)

lemma backend_serve_keeps:
  assumes "backend_serve env cfg leg r b = (b', resp)" "rc_adapters cfg = call" "leg_ok (rc_uuid_in cfg) leg"
    "backend_good (rc_uuid_in cfg) sound evidence b"
  shows "backend_good (rc_uuid_in cfg) sound evidence b' \<and> table_evolves (bk_rows b) (bk_rows b') \<and> bk_hops b' = bk_hops b"
proof -
  have b: "sound (bk_world b)" "rows_good (known_id (rc_uuid_in cfg)) (evidence (bk_world b)) (bk_rows b)"
    "list_all (hop_ok (rc_uuid_in cfg)) (bk_hops b)" using assms(4) by (simp_all add: backend_good_def)
  show ?thesis
    using assms(1,4) b router_serve_keeps [OF _ assms(2) b(1,2) assms(3) [unfolded leg_ok_def]]
    by (auto simp: backend_serve_def backend_good_def Let_def split: if_splits prod.splits)
qed

lemma backend_send_keeps:
  assumes "backend_send env cfg r b = (b', ans)" "rc_adapters cfg = call"
    "backend_good (rc_uuid_in cfg) sound evidence b"
  shows "backend_good (rc_uuid_in cfg) sound evidence b' \<and> table_evolves (bk_rows b) (bk_rows b')"
proof (cases "bk_hops b")
  case (Cons h hs)
  have hs: "hop_ok (rc_uuid_in cfg) h" "list_all (hop_ok (rc_uuid_in cfg)) hs"
    using assms(3) Cons by (simp_all add: backend_good_def)
  show ?thesis
  proof (cases h)
    case Unreached
    with assms Cons hs show ?thesis by (auto simp: backend_send_def backend_good_def)
  next
    case (Unheard leg)
    obtain b1 resp where s: "backend_serve env cfg leg r b = (b1, resp)" by fastforce
    with backend_serve_keeps [OF s assms(2) _ assms(3)] assms(1) Cons Unheard hs show ?thesis
      by (auto simp: backend_send_def backend_good_def hop_ok_def)
  next
    case (Heard leg)
    obtain b1 resp where s: "backend_serve env cfg leg r b = (b1, resp)" by fastforce
    with backend_serve_keeps [OF s assms(2) _ assms(3)] assms(1) Cons Heard hs show ?thesis
      by (auto simp: backend_send_def backend_good_def hop_ok_def)
  qed
qed (use assms in \<open>simp add: backend_send_def\<close>)

end

text \<open>An answer that is heard is the answer of the service.\<close>

lemma backend_send_heard:
  assumes "backend_send env cfg r b = (b', Inr resp)"
  obtains leg hs b1 where "bk_hops b = Heard leg # hs" "backend_serve env cfg leg r b = (b1, Some resp)" "b' = b1\<lparr>bk_hops := hs\<rparr>"
  using assms that
  by (auto simp: backend_send_def Let_def split: list.splits hop.splits prod.splits option.splits)

text \<open>The two services have addresses of their own.\<close>

definition addresses_apart :: "(string \<Rightarrow> string) \<Rightarrow> bool" where
  "addresses_apart env \<longleftrightarrow> (\<forall>path. \<not> prefix (participants_url env) (router_url env @ path))"

lemma backend_serve_router:
  "addresses_apart env \<Longrightarrow> req_path r = router_url env @ path \<Longrightarrow>
   backend_serve env cfg leg r b =
     (let ((s, w), resp) = router_serve cfg (leg_router leg) (leg_db leg) (r\<lparr>req_path := path\<rparr>) (bk_router b) (bk_world b)
      in (b\<lparr>bk_router := s, bk_world := w\<rparr>, resp))"
  by (simp add: backend_serve_def addresses_apart_def)

end
