(* ===== verification/Mesh_Orders.thy ===== *)
theory Mesh_Orders
  imports Mesh
begin

text \<open>
  Orders against payments: whatever the operator learns from the router over the network is
  vouched for by the router's row of the key, so every order on record stays linked to its
  payment, and a decided order says what the decided payment says.
\<close>

section \<open>Vouched views\<close>

definition shows_row :: "payment_row \<Rightarrow> PaymentResponse \<Rightarrow> bool" where
  "shows_row row p \<longleftrightarrow> pay_Status p = row_status row \<and> pay_Gateway p = row_gateway row \<and>
     pay_ProviderRef p = coalesce (row_provider_ref row) \<and> pay_Error p = coalesce (row_error row)"

definition vouched :: "payment_row list \<Rightarrow> string \<Rightarrow> PaymentResponse \<Rightarrow> bool" where
  "vouched rows key p \<longleftrightarrow> (\<exists>row. select_by_key key rows = Some row \<and> row_id row = pay_ID p \<and>
     (terminal (pay_Status p) \<longrightarrow> terminal (row_status row) \<and> shows_row row p))"

lemma vouched_mono: "table_evolves rows rows' \<Longrightarrow> vouched rows key p \<Longrightarrow> vouched rows' key p"
proof -
  assume ev: "table_evolves rows rows'" and v: "vouched rows key p"
  then obtain row where row: "select_by_key key rows = Some row" "row_id row = pay_ID p"
    "terminal (pay_Status p) \<longrightarrow> terminal (row_status row) \<and> shows_row row p" by (auto simp: vouched_def)
  obtain row' where "select_by_key key rows' = Some row'" "row_id row' = row_id row" "terminal (row_status row) \<longrightarrow> row' = row"
    using evolves_row [OF ev row(1)] by metis
  with row(2,3) show ?thesis unfolding vouched_def by (intro exI [of _ row']) auto
qed

lemma vouched_cong:
  "vouched rows key p \<Longrightarrow> pay_ID q = pay_ID p \<Longrightarrow> pay_Status q = NormalizeStatus (pay_Status p) \<Longrightarrow>
   pay_Gateway q = pay_Gateway p \<Longrightarrow> pay_ProviderRef q = pay_ProviderRef p \<Longrightarrow> pay_Error q = pay_Error p \<Longrightarrow>
   vouched rows key q"
  unfolding vouched_def shows_row_def by (auto simp: NormalizeStatus_terminal)

lemma answer_of_simps [simp]:
  "pay_ID (answer_of row) = row_id row" "pay_Status (answer_of row) = NormalizeStatus (row_status row)"
  "pay_Gateway (answer_of row) = row_gateway row" "pay_ProviderRef (answer_of row) = coalesce (row_provider_ref row)"
  "pay_Error (answer_of row) = coalesce (row_error row)"
  by (simp_all add: answer_of_def with_created_def normalized_def existing_of_def)

lemma vouched_answer:
  "select_by_key key rows = Some row \<Longrightarrow> row_id row = pay_ID p \<Longrightarrow>
   (terminal (pay_Status p) \<Longrightarrow> terminal (row_status row) \<and> p = answer_of row) \<Longrightarrow> vouched rows key p"
  unfolding vouched_def by (intro exI [of _ row]) (auto simp: shows_row_def NormalizeStatus_terminal)

section \<open>Reading an answer\<close>

lemma request_key_assigned:
  assumes "trace_only trace" "trimmed key"
  shows "request_key (payment_request_to_router env key trace req) = key"
    "request_key \<lparr>req_method = m, req_path = path, req_header = header_add_all
        (header_set (header_set Map.empty ''Content-Type'' ''application/json'') ''Idempotency-Key'' key) trace,
        req_body = body\<rparr> = key"
proof -
  have n: "''Idempotency-Key'' \<notin> dom trace" using assms(1) by (auto simp: trace_only_def)
  then show "request_key (payment_request_to_router env key trace req) = key"
    using assms(2) by (simp add: request_key_def payment_request_to_router_def header_get_assign_all canonical_trace_keys)
  have "header_get (header_add_all h trace) ''Idempotency-Key'' = header_get h ''Idempotency-Key''" for h
    using n by (auto simp: header_get_def header_add_all_def canonical_trace_keys dom_def)
  then show "request_key \<lparr>req_method = m, req_path = path, req_header = header_add_all
      (header_set (header_set Map.empty ''Content-Type'' ''application/json'') ''Idempotency-Key'' key) trace,
      req_body = body\<rparr> = key"
    using assms(2) by (simp add: request_key_def)
qed

text \<open>What can be read of an answer to a POST: a payment that is vouched for, or no identifier.\<close>

lemma answer_ok_read:
  assumes "answer_ok rows key resp"
  shows "read_body decode_payment (http_body resp) = Some p \<Longrightarrow> trim_space (pay_ID p) \<noteq> [] \<Longrightarrow> vouched rows key p"
    "read_body decode_lookup (http_body resp) = Some l \<Longrightarrow> trim_space (pay_ID (rl_payment l)) \<noteq> [] \<Longrightarrow>
       vouched rows key (rl_payment l)"
proof -
  have "(\<exists>m. utf8_valid m \<and> (\<exists>st. resp = JSON st (error_body m))) \<or>
    (\<exists>q st. resp = JSON st (encode_payment q) \<and> payment_text q \<and> vouched rows key q)"
    using assms vouched_answer unfolding answer_ok_def by blast
  then show "read_body decode_payment (http_body resp) = Some p \<Longrightarrow> trim_space (pay_ID p) \<noteq> [] \<Longrightarrow> vouched rows key p"
    "read_body decode_lookup (http_body resp) = Some l \<Longrightarrow> trim_space (pay_ID (rl_payment l)) \<noteq> [] \<Longrightarrow>
       vouched rows key (rl_payment l)"
    by (auto simp: json_ok_encode_payment decode_encode_payment decode_lookup_payment decode_error_answer zero_payment_def)
qed

lemma router_serve_post:
  "router_serve cfg ev db (r\<lparr>req_path := ''/internal/v1/payments''\<rparr>) s w = Router.create cfg ev (r\<lparr>req_path := ''/internal/v1/payments''\<rparr>) s w"
  by (simp add: router_serve_def)

lemma request_key_path [simp]: "request_key (r\<lparr>req_path := path\<rparr>) = request_key r"
  by (simp add: request_key_def)

lemma trim_space_Nil_id [simp]: "trim_space (pay_ID zero_payment) = []"
  by (simp add: zero_payment_def)

context providers
begin

text \<open>The answer to a POST to the router.\<close>

lemma post_heard:
  assumes "backend_send env cfg r b = (b', Inr resp)" "req_path r = router_url env @ ''/internal/v1/payments''"
    "addresses_apart env" "rc_adapters cfg = call" "backend_good (rc_uuid_in cfg) sound evidence b"
  shows "answer_ok (bk_rows b') (request_key r) resp"
proof -
  obtain leg hs b1 where h: "bk_hops b = Heard leg # hs" "backend_serve env cfg leg r b = (b1, Some resp)"
    "b' = b1\<lparr>bk_hops := hs\<rparr>" using backend_send_heard [OF assms(1)] .
  obtain s' w' where c: "Router.create cfg (leg_router leg) (r\<lparr>req_path := ''/internal/v1/payments''\<rparr>) (bk_router b) (bk_world b)
      = ((s', w'), Some resp)" "bk_rows b1 = r_rows s'"
    using h(2) unfolding backend_serve_router [OF assms(3,2)] router_serve_post
    by (auto simp: Let_def split: prod.splits)
  have "sound (bk_world b)" "rows_good (known_id (rc_uuid_in cfg)) (evidence (bk_world b)) (bk_rows b)"
    "leg_ok (rc_uuid_in cfg) leg" using assms(5) h(1) by (simp_all add: backend_good_def hop_ok_def)
  with create_keeps [OF c(1) assms(4) _ _ _ newUUID_text] have "answer_ok (r_rows s') (request_key r) resp"
    by (simp add: leg_ok_def)
  with c(2) h(3) show ?thesis by simp
qed

lemma ask_router_vouched:
  assumes "ask_router (mesh_operator env cfg) key trace req b = (b', answer)" "addresses_apart env" "rc_adapters cfg = call"
    "backend_good (rc_uuid_in cfg) sound evidence b" "trace_only trace" "trimmed key"
  shows "backend_good (rc_uuid_in cfg) sound evidence b' \<and> table_evolves (bk_rows b) (bk_rows b') \<and>
    (\<forall>out. answer = Inr out \<longrightarrow> vouched (bk_rows b') key out)"
proof -
  let ?r = "payment_request_to_router env key trace req"
  obtain ans where s: "backend_send env cfg ?r b = (b', ans)"
    using assms(1) by (auto simp: ask_router_def Let_def split: prod.splits)
  have "vouched (bk_rows b') key out" if inr: "answer = Inr out" for out
  proof -
    obtain resp p where p: "ans = Inr resp" "read_body decode_payment (http_body resp) = Some p" "trim_space (pay_ID p) \<noteq> []"
      "out = p\<lparr>pay_IdempotencyKey := key, pay_Status := NormalizeStatus (pay_Status p)\<rparr>"
      using assms(1) inr s by (auto simp: ask_router_def Let_def split: prod.splits sum.splits option.splits if_splits)
    have "answer_ok (bk_rows b') (request_key ?r) resp"
      by (rule post_heard [OF s [unfolded p(1)] _ assms(2-4)]) (simp add: payment_request_to_router_def)
    then have "vouched (bk_rows b') key p"
      using answer_ok_read(1) [OF _ p(2,3)] request_key_assigned(1) [OF assms(5,6)] by simp
    then show ?thesis by (rule vouched_cong) (simp_all add: p(4))
  qed
  with backend_send_keeps [OF s assms(3,4)] show ?thesis by blast
qed

lemma retryPending_vouched:
  assumes "retryPending (mesh_operator env cfg) req key trace b = (b', answer)" "addresses_apart env" "rc_adapters cfg = call"
    "backend_good (rc_uuid_in cfg) sound evidence b" "trace_only trace" "trimmed key"
  shows "backend_good (rc_uuid_in cfg) sound evidence b' \<and> table_evolves (bk_rows b) (bk_rows b') \<and>
    (\<forall>l. answer = Some l \<longrightarrow> vouched (bk_rows b') key (rl_payment l))"
proof -
  let ?r = "\<lparr>req_method = ''POST'', req_path = router_url env @ ''/internal/v1/payments'', req_header = header_add_all
        (header_set (header_set Map.empty ''Content-Type'' ''application/json'') ''Idempotency-Key'' key) trace,
        req_body = json_text (encode_router req)\<rparr>"
  obtain ans where s: "backend_send env cfg ?r b = (b', ans)"
    using assms(1) by (auto simp: retryPending_def send_request_def Let_def split: prod.splits)
  have "vouched (bk_rows b') key (rl_payment l)" if inr: "answer = Some l" for l
  proof -
    obtain resp p where p: "ans = Inr resp" "read_body decode_lookup (http_body resp) = Some p" "trim_space (pay_ID (rl_payment p)) \<noteq> []"
      "rl_payment l = (rl_payment p)\<lparr>pay_Status := NormalizeStatus (pay_Status (rl_payment p)), pay_IdempotencyKey := key\<rparr>"
      using assms(1) inr s
      by (auto simp: retryPending_def send_request_def Let_def on_payment_def split: prod.splits sum.splits option.splits if_splits)
    have "answer_ok (bk_rows b') (request_key ?r) resp"
      by (rule post_heard [OF s [unfolded p(1)] _ assms(2-4)]) simp
    then have "vouched (bk_rows b') key (rl_payment p)"
      using answer_ok_read(2) [OF _ p(2,3)] unfolding request_key_assigned(2) [OF assms(5,6)] by blast
    then show ?thesis by (rule vouched_cong) (simp_all add: p(4))
  qed
  with backend_send_keeps [OF s assms(3,4)] show ?thesis by blast
qed

end

section \<open>Reading a payment by its name\<close>

lemma get_answer:
  assumes "known_id (rc_uuid_in cfg) oid" "req_method r = ''GET''"
  shows "Router.get cfg db (r\<lparr>req_path := ''/v1/payments/'' @ oid\<rparr>) s =
    (if \<not> db then JSON 500 (error_body ''database read failed'')
     else case select_by_id oid (r_rows s) of
       None \<Rightarrow> JSON 404 (error_body ''payment not found'')
     | Some row \<Rightarrow> JSON (StatusCode (pay_Status (lookup_payment (lookup_of row)))) (encode_lookup (lookup_of row)))"
  using assms trim_prefix_append [of "''/v1/payments/''" oid]
  by (simp add: Router.get_def known_id_def contains_single Let_def split: option.splits)

lemma router_serve_get:
  "router_serve cfg ev db (r\<lparr>req_path := ''/v1/payments/'' @ oid\<rparr>) s w =
   ((s, w), Some (Router.get cfg db (r\<lparr>req_path := ''/v1/payments/'' @ oid\<rparr>) s))"
  by (simp add: router_serve_def)

lemma lookup_of_answer: "lookup_payment (lookup_of row) = answer_of row" "lookup_request (lookup_of row) = request_of row"
  by (simp_all add: lookup_of_def answer_of_def request_of_def)

lemma lookup_read:
  assumes "rows_good known evidence rows" "row \<in> set rows"
  shows "read_body decode_lookup (http_body (JSON st (encode_lookup (lookup_of row)))) =
    Some \<lparr>rl_payment = answer_of row, rl_request = request_of row\<rparr>"
proof -
  have row: "row_good known evidence row" "payment_row_ok row" using assms by (auto simp: rows_good_def payments_inv_def)
  have "router_text (request_of row)" using canonical_request_of [OF row(2)] by (simp add: canonical_def)
  then have "json_ok (encode_lookup (lookup_of row))" "in_int64 (rtr_AmountMinor (lookup_request (lookup_of row)))"
    using answer_of_text [OF row] by (auto intro: json_ok_encode_lookup simp: lookup_of_answer router_text_def)
  then show ?thesis by (simp add: decode_lookup_both lookup_of_answer)
qed

lemma error_unread:
  "m \<in> set router_errors \<Longrightarrow> read_body decode_lookup (http_body (JSON st (error_body m))) = Some l \<Longrightarrow>
   trim_space (pay_ID (rl_payment l)) = []"
  by (auto simp: router_error_text decode_error_answer zero_payment_def)

context providers
begin

lemma fetchRouter_reads:
  assumes "fetchRouter (mesh_operator env cfg) oid trace b = (b', answer)" "addresses_apart env" "rc_adapters cfg = call"
    "backend_good (rc_uuid_in cfg) sound evidence b" "known_id (rc_uuid_in cfg) oid"
  shows "backend_good (rc_uuid_in cfg) sound evidence b' \<and> table_evolves (bk_rows b) (bk_rows b') \<and>
    (\<forall>l. answer = Some l \<longrightarrow> (\<exists>row \<in> set (bk_rows b'). row_id row = oid \<and>
       rl_payment l = answer_of row \<and> rl_request l = request_of row))"
proof -
  let ?r = "\<lparr>req_method = ''GET'', req_path = router_url env @ ''/v1/payments/'' @ oid,
     req_header = header_add_all Map.empty trace, req_body = []\<rparr>"
  obtain ans where s: "backend_send env cfg ?r b = (b', ans)"
    using assms(1) by (auto simp: fetchRouter_def send_request_def Let_def split: prod.splits)
  have "\<exists>row \<in> set (bk_rows b'). row_id row = oid \<and> rl_payment l = answer_of row \<and> rl_request l = request_of row"
    if inr: "answer = Some l" for l
  proof -
    obtain resp p where p: "ans = Inr resp" "read_body decode_lookup (http_body resp) = Some p" "trim_space (pay_ID (rl_payment p)) \<noteq> []"
      "l = on_payment (\<lambda>p. p\<lparr>pay_Status := NormalizeStatus (pay_Status p)\<rparr>) p"
      using assms(1) inr s
      by (auto simp: fetchRouter_def send_request_def Let_def split: prod.splits sum.splits option.splits if_splits)
    obtain leg hs b1 where h: "bk_hops b = Heard leg # hs" "backend_serve env cfg leg ?r b = (b1, Some resp)"
      "b' = b1\<lparr>bk_hops := hs\<rparr>" using backend_send_heard [OF s [unfolded p(1)]] .
    have path: "req_path ?r = router_url env @ (''/v1/payments/'' @ oid)" by simp
    have r: "resp = Router.get cfg (leg_db leg) (?r\<lparr>req_path := ''/v1/payments/'' @ oid\<rparr>) (bk_router b)" "bk_rows b1 = bk_rows b"
      using h(2) unfolding backend_serve_router [OF assms(2) path] router_serve_get by auto
    have good: "rows_good (known_id (rc_uuid_in cfg)) (evidence (bk_world b)) (bk_rows b)" using assms(4) by (simp add: backend_good_def)
    obtain row where row: "select_by_id oid (bk_rows b) = Some row"
      "resp = JSON (StatusCode (pay_Status (lookup_payment (lookup_of row)))) (encode_lookup (lookup_of row))"
      using r(1) p(2,3) error_unread [of "''database read failed''"] error_unread [of "''payment not found''"] get_answer [OF assms(5), of ?r "leg_db leg" "bk_router b"]
      by (auto split: if_splits option.splits)
    from row(1) have mem: "row \<in> set (bk_rows b)" "row_id row = oid" by (auto simp: select_by_id_def dest: find_SomeD)
    from lookup_read [OF good mem(1)] p(2) row(2) have "p = \<lparr>rl_payment = answer_of row, rl_request = request_of row\<rparr>" by simp
    moreover have "(answer_of row)\<lparr>pay_Status := NormalizeStatus (row_status row)\<rparr> = answer_of row"
      by (simp add: answer_of_def with_created_def normalized_def existing_of_def)
    ultimately show ?thesis
      using p(4) mem r(2) h(3) by (intro bexI [of _ row]) (simp_all add: on_payment_def)
  qed
  with backend_send_keeps [OF s assms(3,4)] show ?thesis by blast
qed

text \<open>What a replay of a PENDING order shows.\<close>

lemma refreshed_view_vouched:
  assumes "refreshed_view (mesh_operator env cfg) trace key oid b = (b', answer)" "addresses_apart env" "rc_adapters cfg = call"
    "backend_good (rc_uuid_in cfg) sound evidence b" "trace_only trace" "trimmed key"
    "select_by_key key (bk_rows b) = Some row" "row_id row = oid"
  shows "backend_good (rc_uuid_in cfg) sound evidence b' \<and> table_evolves (bk_rows b) (bk_rows b') \<and>
    (\<forall>p. answer = Some p \<longrightarrow> vouched (bk_rows b') key p)"
proof -
  have known: "known_id (rc_uuid_in cfg) oid"
    using assms(4,7,8) select_by_keyD by (auto simp: backend_good_def rows_good_def row_good_def)
  obtain b1 fetched where f: "fetchRouter (mesh_operator env cfg) oid trace b = (b1, fetched)" by fastforce
  note 1 = fetchRouter_reads [OF f assms(2-4) known]
  show ?thesis
  proof (cases fetched)
    case None
    with f assms(1) have "b' = b1" "answer = None" by (simp_all add: refreshed_view_def)
    with 1 show ?thesis by simp
  next
    case (Some l)
    with 1 obtain q where q: "q \<in> set (bk_rows b1)" "row_id q = oid" "rl_payment l = answer_of q" by blast
    from 1 evolves_row [OF _ assms(7)] obtain row' where row': "select_by_key key (bk_rows b1) = Some row'" "row_id row' = oid"
      using assms(8) by metis
    have "row' = q" using 1 q(1,2) row' select_by_keyD
      by (auto simp: backend_good_def rows_good_def payments_inv_def dest: distinct_key_eq [of row_id])
    with q row' have v: "vouched (bk_rows b1) key (rl_payment l)"
      by (intro vouched_answer [of _ _ row']) (auto simp: NormalizeStatus_def terminal_def split: if_splits)
    show ?thesis
    proof (cases "pay_Status (rl_payment l) = ''PENDING'' \<and> rtr_Instrument (rl_request l) \<noteq> []")
      case False
      with f Some assms(1) have "b' = b1" and a: "answer = Some ((rl_payment l)\<lparr>pay_IdempotencyKey := key,
          pay_Status := NormalizeStatus (pay_Status (rl_payment l))\<rparr>)"
        by (auto simp: refreshed_view_def Let_def)
      moreover have "vouched (bk_rows b1) key p" if "answer = Some p" for p
        using that a by (intro vouched_cong [OF v]) auto
      ultimately show ?thesis using 1 by simp
    next
      case True
      obtain b2 retried where r: "retryPending (mesh_operator env cfg) (rl_request l) key trace b1 = (b2, retried)" by fastforce
      note 2 = retryPending_vouched [OF r assms(2,3) _ assms(5,6)]
      define latest where "latest = (case retried of Some l' \<Rightarrow> l' | None \<Rightarrow> l)"
      have "b' = b2" and a: "answer = Some ((rl_payment latest)\<lparr>pay_IdempotencyKey := key,
          pay_Status := NormalizeStatus (pay_Status (rl_payment latest))\<rparr>)"
        using f Some r True assms(1) by (auto simp: refreshed_view_def Let_def latest_def split: option.splits)
      moreover have "vouched (bk_rows b2) key (rl_payment latest)"
        using 1 2 v vouched_mono by (auto simp: latest_def split: option.splits)
      then have "vouched (bk_rows b2) key p" if "answer = Some p" for p
        using that a by (elim vouched_cong) auto
      ultimately show ?thesis using 1 2 table_evolves_trans by blast
    qed
  qed
qed

end

end
