(* ===== verification/Mesh_Runs.thy ===== *)
theory Mesh_Runs
  imports Mesh_Orders
begin

text \<open>
  Runs of the whole mesh: any list of public requests, with any losses on the way. Every
  order stays linked to the payment of its key, so a decided order repeats a decided payment,
  for which the provider has given evidence.
\<close>

section \<open>Linked orders\<close>

definition order_linked :: "payment_row list \<Rightarrow> order_row \<Rightarrow> bool" where
  "order_linked rows o' \<longleftrightarrow> ord_payment_id o' = Some (ord_id o') \<and> trimmed (ord_key o') \<and>
     vouched rows (ord_key o') (order_response o')"

definition orders_linked :: "payment_row list \<Rightarrow> order_row list \<Rightarrow> bool" where
  "orders_linked rows ords \<longleftrightarrow> orders_inv ords \<and> (\<forall>o' \<in> set ords. order_linked rows o')"

lemma order_response_simps [simp]:
  "pay_ID (order_response o') = ord_id o'" "pay_Status (order_response o') = ord_status o'"
  "pay_Gateway (order_response o') = coalesce (ord_gateway o')"
  "pay_ProviderRef (order_response o') = coalesce (ord_provider_ref o')" "pay_Error (order_response o') = coalesce (ord_error o')"
  by (simp_all add: order_response_def)

lemma orders_linked_mono: "table_evolves rows rows' \<Longrightarrow> orders_linked rows ords \<Longrightarrow> orders_linked rows' ords"
  using vouched_mono by (auto simp: orders_linked_def order_linked_def)

lemma vouched_same_row:
  "vouched rows key p \<Longrightarrow> vouched rows key q \<Longrightarrow> pay_ID p = pay_ID q"
  by (auto simp: vouched_def)

lemma vouched_known:
  "vouched rows key p \<Longrightarrow> rows_good known evidence rows \<Longrightarrow> known (pay_ID p)"
  using select_by_keyD by (fastforce simp: vouched_def rows_good_def row_good_def)

lemma put_view_linked:
  assumes "order_linked rows o'" "vouched rows (ord_key o') p" "pay_Status p = NormalizeStatus (pay_Status p)"
    "rows_good (known_id uuid_in) evidence rows" "uuid_in (pay_ID p) = Some uuid"
  shows "order_linked rows (put_view uuid p o')"
proof -
  have id: "pay_ID p = ord_id o'" using vouched_same_row [OF assms(2), of "order_response o'"] assms(1) by (simp add: order_linked_def)
  have "uuid = pay_ID p" using vouched_known [OF assms(2,4)] assms(5) by (simp add: known_id_def)
  moreover have "vouched rows (ord_key o') (order_response (put_view uuid p o'))"
    by (rule vouched_cong [OF assms(2)]) (simp_all add: put_view_def id coalesce_def)
  ultimately show ?thesis using assms(1) id by (simp add: order_linked_def) (simp add: put_view_def)
qed

lemma orders_linked_update:
  assumes "orders_linked rows ords" "\<And>o'. o' \<in> set ords \<Longrightarrow> p o' \<Longrightarrow> order_linked rows (f o')"
    "orders_inv (update_where p f ords)"
  shows "orders_linked rows (update_where p f ords)"
  using assms by (auto simp: orders_linked_def set_update_where)

section \<open>What a request to the operator does to the world\<close>

lemma replay_order_view:
  assumes "replay_order cfg ev trace key row rows w = (w', rows', resp)"
  obtains (local) "w' = w" "rows' = rows"
  | (viewed) answer where "refreshed_view cfg trace key (ord_id row) w = (w', answer)"
      "rows' = rows \<or> (\<exists>p uuid. answer = Some p \<and> oc_uuid_in cfg (pay_ID p) = Some uuid \<and>
         rows' = update_where (\<lambda>r. ord_id r = ord_id row) (put_view uuid p) rows)"
proof (cases "NormalizeStatus (ord_status row) = ''PENDING''")
  case False
  with assms have "w' = w" "rows' = rows"
    by (auto simp: replay_order_def Let_def end_tx_def)
  then show thesis by (rule local)
next
  case True
  obtain w1 answer where v: "refreshed_view cfg trace key (ord_id row) w = (w1, answer)" by fastforce
  show thesis
  proof (cases answer)
    case None
    with assms True v have "w' = w1" "rows' = rows" by (auto simp: replay_order_def Let_def end_tx_def)
    with v show thesis by (intro viewed) auto
  next
    case (Some p)
    show thesis
    proof (cases "updateOrderTx cfg (oe_write ev) (ord_id row) p rows")
      case None
      with assms True v Some have "w' = w1" "rows' = rows" by (auto simp: replay_order_def Let_def)
      with v show thesis by (intro viewed) auto
    next
      case upd: (Some rows1)
      with assms True v Some have "w' = w1" "rows' = rows \<or> rows' = rows1"
        by (auto simp: replay_order_def Let_def end_tx_def split: if_splits)
      with v Some updateOrderTx_Some [OF upd] show thesis by (intro viewed) auto
    qed
  qed
qed

lemma create_world:
  assumes "Operator.create cfg ev r s w = ((s', w'), resp)"
  obtains (same) "op_rows s' = op_rows s" "w' = w"
  | (replayed) row where "order_by_key (order_key r) (op_rows s) = Some row"
      "replay_order cfg ev (TraceHeaders r) (order_key r) row (op_rows s) w = (w', op_rows s', resp)"
  | (unresolved) req res where "resolve_participants cfg (TraceHeaders r) req w = (w', res)" "op_rows s' = op_rows s"
  | (asked) req debtor w1 answer where "resolve_participants cfg (TraceHeaders r) req w = (w1, Inr debtor)"
      "ask_router cfg (order_key r) (TraceHeaders r) (internal_request req debtor) w1 = (w', answer)"
      "op_rows s' = op_rows s \<or> (\<exists>out hash. answer = Inr out \<and>
         insert_order cfg (oe_now ev) (order_key r) hash out (op_rows s) = Some (op_rows s'))"
proof (cases "order_checks (oc_sha cfg) r")
  case (Rejected st m)
  with assms have "op_rows s' = op_rows s" "w' = w" by (auto simp: Operator.create_def)
  then show thesis by (rule same)
next
  case (Checked key hash req)
  have key: "key = order_key r" using order_checks_Checked [OF Checked] by simp
  show thesis
  proof (cases "oe_begin ev \<and> oe_lock ev \<and> pg_text key \<and> oe_select ev")
    case False
    with assms Checked have "op_rows s' = op_rows s" "w' = w" by (auto simp: Operator.create_def split: if_splits)
    then show thesis by (rule same)
  next
    case ok: True
    show thesis
    proof (cases "order_by_key key (op_rows s)")
      case (Some row)
      show thesis
      proof (cases "ord_hash row = hash")
        case True
        with assms Checked ok Some key show thesis
          by (intro replayed [of row]) (auto simp: Operator.create_def split: prod.splits)
      next
        case False
        with assms Checked ok Some have "op_rows s' = op_rows s" "w' = w" by (auto simp: Operator.create_def)
        then show thesis by (rule same)
      qed
    next
      case None
      obtain w1 res where res: "resolve_participants cfg (TraceHeaders r) req w = (w1, res)" by fastforce
      show thesis
      proof (cases res)
        case (Inl e)
        with assms Checked ok None res show thesis
          by (intro unresolved [of req res]) (auto simp: Operator.create_def split: prod.splits)
      next
        case (Inr debtor)
        obtain w2 answer where a: "ask_router cfg key (TraceHeaders r) (internal_request req debtor) w1 = (w2, answer)" by fastforce
        have "w' = w2 \<and> (op_rows s' = op_rows s \<or> (\<exists>out. answer = Inr out \<and>
            insert_order cfg (oe_now ev) key hash out (op_rows s) = Some (op_rows s')))"
          using assms Checked ok None res Inr a
          by (auto simp: Operator.create_def end_tx_def Let_def split: sum.splits prod.splits option.splits if_splits)
        with res Inr a key show thesis by (intro asked) auto
      qed
    qed
  qed
qed

lemma get_world:
  assumes "Operator.get cfg ev r s w = ((s', w'), resp)"
  obtains (same) "op_rows s' = op_rows s" "w' = w"
  | (read) uuid row answer where "order_by_id uuid (op_rows s) = Some row"
      "fetchRouter cfg (coalesce (ord_payment_id row)) (TraceHeaders r) w = (w', answer)"
      "op_rows s' = op_rows s \<or> (\<exists>l created. answer = Some l \<and> op_rows s' = reconcile_order (oe_update ev) uuid
         ((rl_payment l)\<lparr>pay_IdempotencyKey := ord_key row,
            pay_Status := NormalizeStatus (pay_Status (rl_payment l)), pay_CreatedAt := created\<rparr>) (op_rows s))"
proof (cases "req_method r = ''GET'' \<and> oe_select ev")
  case False
  with assms have "op_rows s' = op_rows s" "w' = w" by (auto simp: Operator.get_def Let_def split: if_splits)
  then show thesis by (rule same)
next
  case ok: True
  show thesis
  proof (cases "Option.bind (oc_uuid_in cfg (trim_prefix ''/v1/payments/'' (req_path r))) (\<lambda>u. order_by_id u (op_rows s))")
    case None
    with assms ok have "op_rows s' = op_rows s" "w' = w"
      by (auto simp: Operator.get_def Let_def split: option.splits bind_splits)
    then show thesis by (rule same)
  next
    case (Some row)
    then obtain uuid where uuid: "oc_uuid_in cfg (trim_prefix ''/v1/payments/'' (req_path r)) = Some uuid"
      "order_by_id uuid (op_rows s) = Some row" by (auto simp: bind_eq_Some_conv)
    let ?pid = "coalesce (ord_payment_id row)"
    show thesis
    proof (cases "?pid = []")
      case True
      with assms ok uuid have "op_rows s' = op_rows s" "w' = w"
        by (auto simp: Operator.get_def Let_def local_view_def)
      then show thesis by (rule same)
    next
      case False
      obtain w1 answer where f: "fetchRouter cfg ?pid (TraceHeaders r) w = (w1, answer)" by fastforce
      show thesis
      proof (cases answer)
        case None
        with assms ok uuid False f have "op_rows s' = op_rows s" "w' = w1"
          by (auto simp: Operator.get_def Let_def local_view_def)
        with uuid f show thesis by (intro read) auto
      next
        case (Some l)
        let ?p = "(rl_payment l)\<lparr>pay_IdempotencyKey := ord_key row, pay_Status := NormalizeStatus (pay_Status (rl_payment l))\<rparr>"
        define created where "created = (if pay_CreatedAt (rl_payment l) = [] then rfc3339nano (ord_created_at row)
           else pay_CreatedAt (rl_payment l))"
        have "(if pay_CreatedAt ?p = [] then ?p\<lparr>pay_CreatedAt := pay_CreatedAt (local_view row)\<rparr> else ?p) =
            ?p\<lparr>pay_CreatedAt := created\<rparr>"
          by (simp add: created_def local_view_def)
        with assms ok uuid False f Some have "op_rows s' = reconcile_order (oe_update ev) uuid (?p\<lparr>pay_CreatedAt := created\<rparr>) (op_rows s)"
            "w' = w1"
          by (auto simp: Operator.get_def Let_def local_view_def [of row] simp del: PaymentResponse.update_convs)
        with uuid f Some show thesis by (intro read) auto
      qed
    qed
  qed
qed

section \<open>The mesh keeps orders and payments together\<close>

lemma order_key_trimmed: "trimmed (order_key r)"
  by (simp add: order_key_def)

text \<open>A step of the network: the backend stays good, payments evolve.\<close>

definition bk_step ::
  "(string \<Rightarrow> string option) \<Rightarrow> ('w \<Rightarrow> bool) \<Rightarrow> ('w \<Rightarrow> string \<Rightarrow> string \<Rightarrow> string \<Rightarrow> string \<Rightarrow> bool) \<Rightarrow>
   'w backend \<Rightarrow> 'w backend \<Rightarrow> bool" where
  "bk_step uuid_in sound evidence b b' \<longleftrightarrow>
     backend_good uuid_in sound evidence b' \<and> table_evolves (bk_rows b) (bk_rows b')"

lemma bk_step_trans: "bk_step u so e a b \<Longrightarrow> bk_step u so e b c \<Longrightarrow> bk_step u so e a c"
  unfolding bk_step_def using table_evolves_trans by blast

context providers
begin

lemma participant_step:
  assumes "participant (mesh_operator env cfg) trace pid b = (b', res)" "rc_adapters cfg = call"
    "backend_good (rc_uuid_in cfg) sound evidence b"
  shows "bk_step (rc_uuid_in cfg) sound evidence b b'"
proof -
  obtain r ans where "backend_send env cfg r b = (b', ans)"
    using assms(1) by (auto simp: participant_def send_request_def Let_def split: prod.splits)
  from backend_send_keeps [OF this assms(2,3)] show ?thesis by (simp add: bk_step_def)
qed

lemma resolve_step:
  assumes "resolve_participants (mesh_operator env cfg) trace req b = (b', res)" "rc_adapters cfg = call"
    "backend_good (rc_uuid_in cfg) sound evidence b"
  shows "bk_step (rc_uuid_in cfg) sound evidence b b'"
proof -
  obtain b1 d where d: "participant (mesh_operator env cfg) trace (pub_DebtorParticipantID req) b = (b1, d)" by fastforce
  note 1 = participant_step [OF d assms(2,3)]
  show ?thesis
  proof (cases d)
    case (Inl e)
    with assms(1) d have "b' = b1" by (simp add: resolve_participants_def)
    with 1 show ?thesis by simp
  next
    case (Inr debtor)
    obtain b2 c where c: "participant (mesh_operator env cfg) trace (pub_CreditorParticipantID req) b1 = (b2, c)" by fastforce
    with assms(1) d Inr have "b' = b2" by (auto simp: resolve_participants_def split: sum.splits)
    with participant_step [OF c assms(2)] 1 have "bk_step (rc_uuid_in cfg) sound evidence b1 b'" by (simp add: bk_step_def)
    with 1 show ?thesis by (rule bk_step_trans)
  qed
qed

lemma replay_step:
  assumes "replay_order (mesh_operator env cfg) ev trace key row ords b = (b', ords', resp)"
    "addresses_apart env" "rc_adapters cfg = call" "backend_good (rc_uuid_in cfg) sound evidence b"
    "trace_only trace" "trimmed key" "orders_linked (bk_rows b) ords" "order_by_key key ords = Some row"
  shows "bk_step (rc_uuid_in cfg) sound evidence b b' \<and> orders_linked (bk_rows b') ords'"
proof -
  from order_by_keyD [OF assms(8)] have row: "row \<in> set ords" "ord_key row = key" by auto
  have inv: "orders_inv ords" using assms(7) by (simp add: orders_linked_def)
  then have inv': "orders_inv ords'" using replay_order_table [OF assms(1) _ row(1)] by blast
  from assms(1) show ?thesis
  proof (cases rule: replay_order_view)
    case local
    with assms(4,7) show ?thesis by (simp add: bk_step_def)
  next
    case (viewed answer)
    have "order_linked (bk_rows b) row" using assms(7) row(1) by (simp add: orders_linked_def)
    then obtain pay where pay: "select_by_key key (bk_rows b) = Some pay" "row_id pay = ord_id row"
      using row(2) by (auto simp: order_linked_def vouched_def)
    from refreshed_view_vouched [OF viewed(1) assms(2-6) pay]
    have st: "bk_step (rc_uuid_in cfg) sound evidence b b'" and v: "\<And>p. answer = Some p \<Longrightarrow> vouched (bk_rows b') key p"
      by (auto simp: bk_step_def)
    have linked: "orders_linked (bk_rows b') ords" using st assms(7) orders_linked_mono by (auto simp: bk_step_def)
    from viewed(2) have "orders_linked (bk_rows b') ords'"
    proof
      assume "\<exists>p uuid. answer = Some p \<and> oc_uuid_in (mesh_operator env cfg) (pay_ID p) = Some uuid \<and>
        ords' = update_where (\<lambda>r. ord_id r = ord_id row) (put_view uuid p) ords"
      then obtain p uuid where p: "answer = Some p" "rc_uuid_in cfg (pay_ID p) = Some uuid"
        "ords' = update_where (\<lambda>r. ord_id r = ord_id row) (put_view uuid p) ords" by auto
      have "pay_Status p = NormalizeStatus (pay_Status p)"
        using refreshed_view_status [OF viewed(1) [unfolded p(1)]] by (auto simp: NormalizeStatus_def)
      moreover have "order_linked (bk_rows b') (put_view uuid p o')" if "o' \<in> set ords" "ord_id o' = ord_id row" for o'
      proof -
        have "o' = row" using inv that row(1) by (auto simp: orders_inv_def dest: distinct_key_eq [of ord_id])
        moreover have "rows_good (known_id (rc_uuid_in cfg)) (evidence (bk_world b')) (bk_rows b')"
          using st by (simp add: bk_step_def backend_good_def)
        ultimately show ?thesis
          using linked v [OF p(1)] row p(2) \<open>pay_Status p = NormalizeStatus (pay_Status p)\<close>
          by (intro put_view_linked [of _ _ _ "rc_uuid_in cfg" "evidence (bk_world b')"]) (auto simp: orders_linked_def)
      qed
      ultimately show ?thesis using orders_linked_update [OF linked] inv' p(3) by auto
    qed (use linked in simp)
    with st show ?thesis ..
  qed
qed

lemma insert_linked:
  assumes "insert_order (mesh_operator env cfg) now key hash out ords = Some ords'" "vouched (bk_rows b) key out"
    "trimmed key" "backend_good (rc_uuid_in cfg) sound evidence b" "orders_linked (bk_rows b) ords" "orders_inv ords'"
  shows "orders_linked (bk_rows b) ords'"
proof -
  obtain row where row: "ords' = ords @ [row]" "rc_uuid_in cfg (pay_ID out) = Some (ord_id row)" "ord_key row = key"
    "ord_payment_id row = Some (ord_id row)" "ord_status row = pay_Status out" "ord_gateway row = Some (pay_Gateway out)"
    "ord_provider_ref row = Some (pay_ProviderRef out)" "ord_error row = Some (pay_Error out)"
    using insert_order_Some [OF assms(1)] by auto
  have "known_id (rc_uuid_in cfg) (pay_ID out)" using vouched_known [OF assms(2)] assms(4) by (auto simp: backend_good_def)
  with row(2) have id: "ord_id row = pay_ID out" by (simp add: known_id_def)
  have "vouched (bk_rows b) key (order_response row)"
    using assms(2) unfolding vouched_def shows_row_def by (simp add: id row(5-8) coalesce_def)
  with row id assms(3,5,6) show ?thesis by (auto simp: orders_linked_def order_linked_def)
qed

lemma create_step:
  assumes "Operator.create (mesh_operator env cfg) ev r s b = ((s', b'), resp)"
    "addresses_apart env" "rc_adapters cfg = call" "backend_good (rc_uuid_in cfg) sound evidence b"
    "orders_linked (bk_rows b) (op_rows s)"
  shows "bk_step (rc_uuid_in cfg) sound evidence b b' \<and> orders_linked (bk_rows b') (op_rows s')"
proof -
  have inv': "orders_inv (op_rows s')" using create_orders(2) [OF assms(1)] assms(5) by (simp add: orders_linked_def)
  from assms(1) show ?thesis
  proof (cases rule: create_world)
    case same
    with assms(4,5) show ?thesis by (simp add: bk_step_def)
  next
    case (replayed row)
    from replay_step [OF replayed(2) assms(2-4) trace_only_TraceHeaders order_key_trimmed assms(5) replayed(1)]
    show ?thesis .
  next
    case (unresolved req res)
    from resolve_step [OF unresolved(1) assms(3,4)] unresolved(2) assms(5) orders_linked_mono show ?thesis
      by (auto simp: bk_step_def)
  next
    case (asked req debtor w1 answer)
    note 1 = resolve_step [OF asked(1) assms(3,4)]
    then have g1: "backend_good (rc_uuid_in cfg) sound evidence w1" by (simp add: bk_step_def)
    note 2 = ask_router_vouched [OF asked(2) assms(2,3) g1 trace_only_TraceHeaders order_key_trimmed]
    have st: "bk_step (rc_uuid_in cfg) sound evidence b b'" using 1 2 table_evolves_trans by (auto simp: bk_step_def)
    have linked: "orders_linked (bk_rows b') (op_rows s)" using st assms(5) orders_linked_mono by (auto simp: bk_step_def)
    from asked(3) show ?thesis
    proof
      assume "\<exists>out hash. answer = Inr out \<and> insert_order (mesh_operator env cfg) (oe_now ev) (order_key r) hash out (op_rows s) = Some (op_rows s')"
      then obtain out hash where out: "answer = Inr out"
        "insert_order (mesh_operator env cfg) (oe_now ev) (order_key r) hash out (op_rows s) = Some (op_rows s')" by blast
      with 2 linked insert_linked [OF out(2) _ order_key_trimmed _ linked inv'] st show ?thesis by blast
    qed (use st linked in simp)
  qed
qed

text \<open>What \<open>get\<close> reads through is the payment of the order.\<close>

lemma get_reads:
  assumes "order_by_id uuid ords = Some row" "fetchRouter (mesh_operator env cfg) (coalesce (ord_payment_id row)) trace b = (b', answer)"
    "addresses_apart env" "rc_adapters cfg = call" "backend_good (rc_uuid_in cfg) sound evidence b"
    "orders_linked (bk_rows b) ords"
  shows "bk_step (rc_uuid_in cfg) sound evidence b b'" "orders_linked (bk_rows b') ords"
    "row \<in> set ords" "ord_id row = uuid" "order_linked (bk_rows b') row"
    "answer = Some l \<Longrightarrow> \<exists>q. select_by_key (ord_key row) (bk_rows b') = Some q \<and> row_id q = uuid \<and> rl_payment l = answer_of q"
proof -
  show row: "row \<in> set ords" "ord_id row = uuid" using assms(1) by (auto simp: order_by_id_def dest: find_SomeD)
  have linked: "order_linked (bk_rows b) row" using assms(6) row(1) by (simp add: orders_linked_def)
  then obtain pay where pay: "select_by_key (ord_key row) (bk_rows b) = Some pay" "row_id pay = uuid"
    and pid: "coalesce (ord_payment_id row) = uuid"
    using row(2) by (auto simp: order_linked_def vouched_def coalesce_def)
  have known: "known_id (rc_uuid_in cfg) uuid"
    using assms(5) pay select_by_keyD by (auto simp: backend_good_def rows_good_def row_good_def)
  note f = fetchRouter_reads [OF assms(2-5)]
  from f known pid show st: "bk_step (rc_uuid_in cfg) sound evidence b b'" by (simp add: bk_step_def)
  then show "orders_linked (bk_rows b') ords" using assms(6) orders_linked_mono by (auto simp: bk_step_def)
  then show "order_linked (bk_rows b') row" using row(1) by (simp add: orders_linked_def)
  assume l: "answer = Some l"
  obtain q where q: "q \<in> set (bk_rows b')" "row_id q = uuid" "rl_payment l = answer_of q"
    using f known pid l by blast
  obtain pay' where pay': "select_by_key (ord_key row) (bk_rows b') = Some pay'" "row_id pay' = uuid"
    using st evolves_row [OF _ pay(1)] pay(2) unfolding bk_step_def by metis
  have "pay' = q" using st q(1,2) pay' select_by_keyD
    by (auto simp: bk_step_def backend_good_def rows_good_def payments_inv_def dest: distinct_key_eq [of row_id])
  with q pay' show "\<exists>q. select_by_key (ord_key row) (bk_rows b') = Some q \<and> row_id q = uuid \<and> rl_payment l = answer_of q" by blast
qed

lemma get_step:
  assumes "Operator.get (mesh_operator env cfg) ev r s b = ((s', b'), resp)"
    "addresses_apart env" "rc_adapters cfg = call" "backend_good (rc_uuid_in cfg) sound evidence b"
    "orders_linked (bk_rows b) (op_rows s)"
  shows "bk_step (rc_uuid_in cfg) sound evidence b b' \<and> orders_linked (bk_rows b') (op_rows s')"
  using assms(1)
proof (cases rule: get_world)
  case same
  with assms(4,5) show ?thesis by (simp add: bk_step_def)
next
  case (read uuid row answer)
  note reads = get_reads [OF read(1,2) assms(2-5)]
  have inv: "orders_inv (op_rows s)" using assms(5) by (simp add: orders_linked_def)
  have inv': "orders_inv (op_rows s')" using get_orders_inv [OF assms(1)] inv by simp
  from read(3) have "orders_linked (bk_rows b') (op_rows s')"
  proof
    assume "\<exists>l created. answer = Some l \<and> op_rows s' = reconcile_order (oe_update ev) uuid
         ((rl_payment l)\<lparr>pay_IdempotencyKey := ord_key row,
            pay_Status := NormalizeStatus (pay_Status (rl_payment l)), pay_CreatedAt := created\<rparr>) (op_rows s)"
    then obtain l created where l: "answer = Some l" "op_rows s' = reconcile_order (oe_update ev) uuid
         ((rl_payment l)\<lparr>pay_IdempotencyKey := ord_key row,
            pay_Status := NormalizeStatus (pay_Status (rl_payment l)), pay_CreatedAt := created\<rparr>) (op_rows s)" by blast
    from reads(6) [OF l(1)] obtain q where q: "select_by_key (ord_key row) (bk_rows b') = Some q" "row_id q = uuid"
      "rl_payment l = answer_of q" by blast
    then have v: "vouched (bk_rows b') (ord_key row) (rl_payment l)"
      by (intro vouched_answer [of _ _ q]) (auto simp: NormalizeStatus_def terminal_def split: if_splits)
    let ?p = "(rl_payment l)\<lparr>pay_IdempotencyKey := ord_key row, pay_Status := NormalizeStatus (pay_Status (rl_payment l)),
       pay_CreatedAt := created\<rparr>"
    let ?f = "\<lambda>r. r\<lparr>ord_status := pay_Status ?p, ord_gateway := Some (pay_Gateway ?p),
       ord_provider_ref := Some (pay_ProviderRef ?p), ord_error := Some (pay_Error ?p)\<rparr>"
    have "order_linked (bk_rows b') (?f o')" if "o' \<in> set (op_rows s)" "ord_id o' = uuid" for o'
    proof -
      have "o' = row" using inv that reads(3,4) by (auto simp: orders_inv_def dest: distinct_key_eq [of ord_id])
      moreover have "vouched (bk_rows b') (ord_key row) (order_response (?f row))"
        by (rule vouched_cong [OF v]) (simp_all add: coalesce_def q(2,3) reads(4))
      ultimately show ?thesis using reads(5) by (simp add: order_linked_def)
    qed
    with reads(2) inv' l(2) show ?thesis
      using orders_linked_update [OF reads(2), of "\<lambda>r. ord_id r = uuid" ?f] by (auto simp: reconcile_order_def split: if_splits)
  qed (use reads(2) in simp)
  with reads(1) show ?thesis ..
qed

text \<open>A decided order stays as it is: what \<open>get\<close> writes over it is what it already says.\<close>

lemma get_keeps_decided:
  assumes "Operator.get (mesh_operator env cfg) ev r s b = ((s', b'), resp)"
    "addresses_apart env" "rc_adapters cfg = call" "backend_good (rc_uuid_in cfg) sound evidence b"
    "orders_linked (bk_rows b) (op_rows s)" "order_by_key key (op_rows s) = Some o'" "terminal (ord_status o')"
  shows "\<exists>o''. order_by_key key (op_rows s') = Some o'' \<and> order_response o'' = order_response o'"
  using assms(1)
proof (cases rule: get_world)
  case same
  with assms(6) show ?thesis by simp
next
  case (read uuid row answer)
  note reads = get_reads [OF read(1,2) assms(2-5)]
  from order_by_keyD [OF assms(6)] have o': "o' \<in> set (op_rows s)" "ord_key o' = key" by auto
  from read(3) show ?thesis
  proof
    assume "\<exists>l created. answer = Some l \<and> op_rows s' = reconcile_order (oe_update ev) uuid
         ((rl_payment l)\<lparr>pay_IdempotencyKey := ord_key row,
            pay_Status := NormalizeStatus (pay_Status (rl_payment l)), pay_CreatedAt := created\<rparr>) (op_rows s)"
    then obtain l created where l: "answer = Some l" "op_rows s' = reconcile_order (oe_update ev) uuid
         ((rl_payment l)\<lparr>pay_IdempotencyKey := ord_key row,
            pay_Status := NormalizeStatus (pay_Status (rl_payment l)), pay_CreatedAt := created\<rparr>) (op_rows s)" by blast
    let ?p = "(rl_payment l)\<lparr>pay_IdempotencyKey := ord_key row, pay_Status := NormalizeStatus (pay_Status (rl_payment l)),
       pay_CreatedAt := created\<rparr>"
    let ?f = "\<lambda>r. r\<lparr>ord_status := pay_Status ?p, ord_gateway := Some (pay_Gateway ?p),
       ord_provider_ref := Some (pay_ProviderRef ?p), ord_error := Some (pay_Error ?p)\<rparr>"
    have "order_response (?f o') = order_response o'" if "ord_id o' = uuid"
    proof -
      have "o' = row" using assms(5) o'(1) that reads(3,4)
        by (auto simp: orders_linked_def orders_inv_def dest: distinct_key_eq [of ord_id])
      from reads(6) [OF l(1)] obtain q where q: "select_by_key (ord_key row) (bk_rows b') = Some q"
        "rl_payment l = answer_of q" by blast
      have "shows_row q (order_response o')" "terminal (row_status q)"
        using reads(5) q(1) assms(7) unfolding \<open>o' = row\<close> by (auto simp: order_linked_def vouched_def)
      then have "pay_Status ?p = ord_status o'" "pay_Gateway ?p = coalesce (ord_gateway o')"
        "pay_ProviderRef ?p = coalesce (ord_provider_ref o')" "pay_Error ?p = coalesce (ord_error o')"
        by (simp_all add: q(2) shows_row_def answer_of_def with_created_def normalized_def existing_of_def)
      then show ?thesis unfolding order_response_def by (simp add: coalesce_def)
    qed
    moreover have "order_by_key key (update_where (\<lambda>r. ord_id r = uuid) ?f (op_rows s)) =
        Some (if ord_id o' = uuid then ?f o' else o')"
      using order_by_key_update [of ?f key "\<lambda>r. ord_id r = uuid" "op_rows s"] assms(6) by simp
    ultimately show ?thesis using l(2) assms(6) by (auto simp: reconcile_order_def)
  qed (use assms(6) in simp)
qed

text \<open>One request, and a run of requests.\<close>

lemma serve_step:
  assumes "operator_serve (mesh_operator env cfg) ev r s b = ((s', b'), resp)"
    "addresses_apart env" "rc_adapters cfg = call" "backend_good (rc_uuid_in cfg) sound evidence b"
    "orders_linked (bk_rows b) (op_rows s)"
  shows "bk_step (rc_uuid_in cfg) sound evidence b b' \<and> orders_linked (bk_rows b') (op_rows s')"
proof (cases "(s' = s \<and> b' = b) \<or> Operator.create (mesh_operator env cfg) ev r s b = ((s', b'), resp)
    \<or> Operator.get (mesh_operator env cfg) ev r s b = ((s', b'), resp)")
  case True
  with create_step [OF _ assms(2-5)] get_step [OF _ assms(2-5)] assms(4,5) show ?thesis by (auto simp: bk_step_def)
next
  case False
  with assms(1) show ?thesis by (auto simp: operator_serve_def split: if_splits)
qed

end

fun mesh_run ::
  "(string \<Rightarrow> string) \<Rightarrow> 'w router_config \<Rightarrow> (operator_event \<times> http_request) list \<Rightarrow> operator \<times> 'w backend \<Rightarrow>
   (operator \<times> 'w backend) \<times> http_response list" where
  "mesh_run env cfg [] st = (st, [])"
| "mesh_run env cfg ((ev, r) # rs) st =
     (let (st1, resp) = operator_serve (mesh_operator env cfg) ev r (fst st) (snd st);
          (st2, resps) = mesh_run env cfg rs st1
      in (st2, resp # resps))"

context providers
begin

lemma mesh_run_linked:
  assumes "mesh_run env cfg rs (s, b) = ((s', b'), resps)"
    "addresses_apart env" "rc_adapters cfg = call" "backend_good (rc_uuid_in cfg) sound evidence b"
    "orders_linked (bk_rows b) (op_rows s)"
  shows "bk_step (rc_uuid_in cfg) sound evidence b b' \<and> orders_linked (bk_rows b') (op_rows s')"
  using assms(1,4,5)
proof (induction rs arbitrary: s b resps)
  case Nil
  then show ?case by (simp add: bk_step_def)
next
  case (Cons x rs)
  obtain ev r where x: "x = (ev, r)" by fastforce
  obtain s1 b1 resp where o1: "operator_serve (mesh_operator env cfg) ev r s b = ((s1, b1), resp)" by (metis prod.collapse)
  obtain resps1 where rest: "mesh_run env cfg rs (s1, b1) = ((s', b'), resps1)"
    using Cons.prems(1) o1 x by (auto split: prod.splits)
  from serve_step [OF o1 assms(2,3) Cons.prems(2,3)]
  have 1: "bk_step (rc_uuid_in cfg) sound evidence b b1" "orders_linked (bk_rows b1) (op_rows s1)" by auto
  with Cons.IH [OF rest] bk_step_trans [OF 1(1)] show ?case by (auto simp: bk_step_def)
qed

lemma serve_keeps_decided:
  assumes "operator_serve (mesh_operator env cfg) ev r s b = ((s', b'), resp)"
    "addresses_apart env" "rc_adapters cfg = call" "backend_good (rc_uuid_in cfg) sound evidence b"
    "orders_linked (bk_rows b) (op_rows s)" "order_by_key key (op_rows s) = Some o'" "terminal (ord_status o')"
  shows "\<exists>o''. order_by_key key (op_rows s') = Some o'' \<and> order_response o'' = order_response o'"
proof -
  have inv: "orders_inv (op_rows s)" using assms(5) by (simp add: orders_linked_def)
  consider "s' = s" | "Operator.create (mesh_operator env cfg) ev r s b = ((s', b'), resp)"
    | "Operator.get (mesh_operator env cfg) ev r s b = ((s', b'), resp)"
    using assms(1) by (auto simp: operator_serve_def split: if_splits)
  then show ?thesis
  proof cases
    case 2
    from create_orders(1) [OF this inv] assms(6,7) show ?thesis by (auto simp: orders_evolve_def order_evolves_def)
  next
    case 3
    then show ?thesis by (rule get_keeps_decided [OF _ assms(2-7)])
  qed (use assms(6) in simp)
qed

lemma mesh_run_keeps_decided:
  assumes "mesh_run env cfg rs (s, b) = ((s', b'), resps)"
    "addresses_apart env" "rc_adapters cfg = call" "backend_good (rc_uuid_in cfg) sound evidence b"
    "orders_linked (bk_rows b) (op_rows s)" "order_by_key key (op_rows s) = Some o'" "terminal (ord_status o')"
  shows "\<exists>o''. order_by_key key (op_rows s') = Some o'' \<and> order_response o'' = order_response o'"
  using assms(1,4-7)
proof (induction rs arbitrary: s b o' resps)
  case (Cons x rs)
  obtain ev r where x: "x = (ev, r)" by fastforce
  obtain s1 b1 resp where o1: "operator_serve (mesh_operator env cfg) ev r s b = ((s1, b1), resp)" by (metis prod.collapse)
  obtain resps1 where rest: "mesh_run env cfg rs (s1, b1) = ((s', b'), resps1)"
    using Cons.prems(1) o1 x by (auto split: prod.splits)
  from serve_step [OF o1 assms(2,3) Cons.prems(2,3)]
  have good: "backend_good (rc_uuid_in cfg) sound evidence b1" "orders_linked (bk_rows b1) (op_rows s1)"
    by (auto simp: bk_step_def)
  from serve_keeps_decided [OF o1 assms(2,3) Cons.prems(2-5)] obtain o1 where
    o1: "order_by_key key (op_rows s1) = Some o1" "order_response o1 = order_response o'" by blast
  then have "terminal (ord_status o1)" using Cons.prems(5) by (metis order_response_simps(2))
  with Cons.IH [OF rest good o1(1)] o1(2) show ?case by auto
qed simp

text \<open>What a decided order is worth.\<close>

lemma decided_order_backed:
  assumes "orders_linked (bk_rows b) ords" "backend_good uuid_in sound evidence b" "order_by_key key ords = Some o'"
    "terminal (ord_status o')"
  shows "\<exists>row. select_by_key key (bk_rows b) = Some row \<and> row_status row = ord_status o' \<and> row_id row = ord_id o' \<and>
    coalesce (row_provider_ref row) = coalesce (ord_provider_ref o') \<and>
    evidence (bk_world b) (row_gateway row) key (ord_status o') (coalesce (ord_provider_ref o'))"
proof -
  from order_by_keyD [OF assms(3)] assms(1) have "order_linked (bk_rows b) o'" "ord_key o' = key"
    by (auto simp: orders_linked_def)
  with assms(4) obtain row where row: "select_by_key key (bk_rows b) = Some row" "row_id row = ord_id o'"
    "terminal (row_status row)" "shows_row row (order_response o')" by (auto simp: order_linked_def vouched_def)
  from select_by_keyD [OF row(1)] assms(2) have "row_good (known_id uuid_in) (evidence (bk_world b)) row" "row_key row = key"
    by (auto simp: backend_good_def rows_good_def)
  with row show ?thesis by (intro exI [of _ row]) (auto simp: row_good_def shows_row_def)
qed

end

end
