(* ===== verification/Operator_Runs.thy ===== *)
theory Operator_Runs
  imports Mesh_Runs
begin

text \<open>
  Requests to the operator that overtake each other. A \<open>create\<close> is a transaction with calls of
  the participant manager and of the router between its SELECT and its INSERT or UPDATE; a
  \<open>get\<close> selects an order, asks the router and then writes what it heard, without a transaction.
  Between any two of these steps other requests, of this process or of another replica, take
  theirs. A request under way is a task that remembers what the handler holds in its
  variables. The advisory lock of a key is not needed for what is shown here, so steps are
  allowed that it would delay.
\<close>

section \<open>Tasks\<close>

datatype task =
    Resolving string string header PublicPaymentRequest
  | Debtor_known string string header PublicPaymentRequest Participant
  | Asking string string header RouterPaymentRequest
  | Inserting string string PaymentResponse
  | Fetching string order_row header
  | Retrying string order_row header routerPaymentLookup
  | Updating string order_row PaymentResponse
  | Reading order_row header
  | Reconciling string PaymentResponse

text \<open>What a replay takes from the router: the payment under the key of the order.\<close>

definition seen_payment :: "string \<Rightarrow> routerPaymentLookup \<Rightarrow> PaymentResponse" where
  "seen_payment key l = (rl_payment l)\<lparr>pay_IdempotencyKey := key, pay_Status := NormalizeStatus (pay_Status (rl_payment l))\<rparr>"

text \<open>What a read takes from it.\<close>

definition read_payment :: "order_row \<Rightarrow> routerPaymentLookup \<Rightarrow> PaymentResponse" where
  "read_payment row l =
     (let p = seen_payment (ord_key row) l
      in if pay_CreatedAt p = [] then p\<lparr>pay_CreatedAt := pay_CreatedAt (local_view row)\<rparr> else p)"

text \<open>A request arrives: what is left to do after its SELECT, if anything.\<close>

definition arrive_create :: "'w operator_config \<Rightarrow> operator_event \<Rightarrow> http_request \<Rightarrow> order_row list \<Rightarrow> task list" where
  "arrive_create cfg ev r ords =
     (case order_checks (oc_sha cfg) r of
        Rejected st m \<Rightarrow> []
      | Checked key hash req \<Rightarrow>
          if \<not> oe_begin ev \<or> \<not> (oe_lock ev \<and> pg_text key) \<or> \<not> oe_select ev then []
          else case order_by_key key ords of
              Some row \<Rightarrow> if ord_hash row = hash \<and> NormalizeStatus (ord_status row) = ''PENDING''
                then [Fetching key row (TraceHeaders r)] else []
            | None \<Rightarrow> [Resolving key hash (TraceHeaders r) req])"

definition arrive_get :: "'w operator_config \<Rightarrow> operator_event \<Rightarrow> http_request \<Rightarrow> order_row list \<Rightarrow> task list" where
  "arrive_get cfg ev r ords =
     (if req_method r \<noteq> ''GET'' then []
      else case (if oe_select ev then oc_uuid_in cfg (trim_prefix ''/v1/payments/'' (req_path r)) else None) of
           None \<Rightarrow> []
         | Some uuid \<Rightarrow>
             (case order_by_id uuid ords of
                None \<Rightarrow> []
              | Some row \<Rightarrow> if coalesce (ord_payment_id row) = [] then [] else [Reading row (TraceHeaders r)]))"

definition arrive :: "'w operator_config \<Rightarrow> operator_event \<Rightarrow> http_request \<Rightarrow> order_row list \<Rightarrow> task list" where
  "arrive cfg ev r ords =
     (if req_path r = ''/v1/payments'' then arrive_create cfg ev r ords
      else if prefix ''/v1/payments/'' (req_path r) then arrive_get cfg ev r ords
      else [])"

text \<open>A transaction ends: its rows, if the COMMIT takes effect.\<close>

definition commit_orders :: "outcome \<Rightarrow> order_row list \<Rightarrow> order_row list option \<Rightarrow> order_row list" where
  "commit_orders out ords written = (case written of Some ords' \<Rightarrow> if takes_effect out then ords' else ords | None \<Rightarrow> ords)"

text \<open>One call, or the write at the end, and what is left to do after it.\<close>

fun advance ::
  "'w operator_config \<Rightarrow> operator_event \<Rightarrow> task \<Rightarrow> order_row list \<Rightarrow> 'w \<Rightarrow> order_row list \<times> 'w \<times> task list" where
  "advance cfg ev (Resolving key hash trace req) ords w =
     (let (w', res) = participant cfg trace (pub_DebtorParticipantID req) w
      in (ords, w', case res of Inl e \<Rightarrow> [] | Inr debtor \<Rightarrow> [Debtor_known key hash trace req debtor]))"
| "advance cfg ev (Debtor_known key hash trace req debtor) ords w =
     (let (w', res) = participant cfg trace (pub_CreditorParticipantID req) w
      in (ords, w', case res of Inl e \<Rightarrow> []
        | Inr creditor \<Rightarrow>
            if \<not> part_Active debtor \<or> \<not> part_Active creditor then []
            else if \<not> hasRole (part_Roles debtor) RoleDebtor \<or> \<not> hasRole (part_Roles creditor) RoleCreditor then []
            else [Asking key hash trace (internal_request req debtor)]))"
| "advance cfg ev (Asking key hash trace internal) ords w =
     (let (w', res) = ask_router cfg key trace internal w
      in (ords, w', case res of Inl e \<Rightarrow> [] | Inr out \<Rightarrow> [Inserting key hash out]))"
| "advance cfg ev (Inserting key hash out) ords w =
     (commit_orders (oe_commit ev) ords (if oe_write ev then insert_order cfg (oe_now ev) key hash out ords else None), w, [])"
| "advance cfg ev (Fetching key row trace) ords w =
     (let (w', res) = fetchRouter cfg (ord_id row) trace w
      in (ords, w', case res of None \<Rightarrow> []
        | Some l \<Rightarrow> if pay_Status (rl_payment l) = ''PENDING'' \<and> rtr_Instrument (rl_request l) \<noteq> []
            then [Retrying key row trace l] else [Updating key row (seen_payment key l)]))"
| "advance cfg ev (Retrying key row trace l) ords w =
     (let (w', res) = retryPending cfg (rl_request l) key trace w
      in (ords, w', [Updating key row (seen_payment key (case res of Some l' \<Rightarrow> l' | None \<Rightarrow> l))]))"
| "advance cfg ev (Updating key row p) ords w =
     (commit_orders (oe_commit ev) ords (updateOrderTx cfg (oe_write ev) (ord_id row) p ords), w, [])"
| "advance cfg ev (Reading row trace) ords w =
     (let (w', res) = fetchRouter cfg (coalesce (ord_payment_id row)) trace w
      in (ords, w', case res of None \<Rightarrow> [] | Some l \<Rightarrow> [Reconciling (ord_id row) (read_payment row l)]))"
| "advance cfg ev (Reconciling uuid p) ords w = (reconcile_order (oe_update ev) uuid p ords, w, [])"

section \<open>Runs\<close>

text \<open>
  Any request may arrive, any task may take its next step, and any task may be gone: its
  client went away, its process died, its session was lost.
\<close>

type_synonym 'w op_state = "order_row list \<times> 'w \<times> task list"

inductive op_step :: "'w operator_config \<Rightarrow> 'w op_state \<Rightarrow> 'w op_state \<Rightarrow> bool" for cfg :: "'w operator_config" where
  op_arrive: "op_step cfg (ords, w, ts) (ords, w, arrive cfg ev r ords @ ts)"
| op_advance: "t \<in> set ts \<Longrightarrow> advance cfg ev t ords w = (ords', w', new) \<Longrightarrow>
    op_step cfg (ords, w, ts) (ords', w', new @ remove1 t ts)"
| op_gone: "op_step cfg (ords, w, ts) (ords, w, remove1 t ts)"

inductive op_run :: "'w operator_config \<Rightarrow> 'w op_state \<Rightarrow> 'w op_state \<Rightarrow> bool" for cfg :: "'w operator_config" where
  op_start: "op_run cfg st st"
| op_next: "op_run cfg st st' \<Longrightarrow> op_step cfg st' st'' \<Longrightarrow> op_run cfg st st''"

lemma op_run_trans: "op_run cfg b c \<Longrightarrow> op_run cfg a b \<Longrightarrow> op_run cfg a c"
  by (induction rule: op_run.induct) (auto intro: op_next)

text \<open>A request that nobody overtakes: at most four steps after its SELECT.\<close>

fun alone :: "nat \<Rightarrow> 'w operator_config \<Rightarrow> operator_event \<Rightarrow> task list \<Rightarrow> order_row list \<Rightarrow> 'w \<Rightarrow> order_row list \<times> 'w" where
  "alone (Suc n) cfg ev (t # _) ords w = (let (ords', w', new) = advance cfg ev t ords w in alone n cfg ev new ords' w')"
| "alone 0 cfg ev ts ords w = (ords, w)"
| "alone n cfg ev [] ords w = (ords, w)"

lemma alone_Nil [simp]: "alone n cfg ev [] ords w = (ords, w)"
  by (cases n) simp_all

lemma advance_one: "advance cfg ev t ords w = (ords', w', new) \<Longrightarrow> length new \<le> 1"
  by (cases t) (auto simp: Let_def split: prod.splits sum.splits option.splits if_splits)

lemma alone_run: "alone n cfg ev tsk ords w = (ords', w') \<Longrightarrow> length tsk \<le> 1 \<Longrightarrow>
   op_run cfg (ords, w, tsk @ ts) (ords', w', ts)"
proof (induction n cfg ev tsk ords w rule: alone.induct)
  case (1 n cfg ev t tsk ords w)
  obtain ords1 w1 new where a: "advance cfg ev t ords w = (ords1, w1, new)" by (metis prod.collapse)
  have step: "op_step cfg (ords, w, t # ts) (ords1, w1, new @ ts)" using op_advance [OF _ a, of "t # ts"] by simp
  have "op_run cfg (ords1, w1, new @ ts) (ords', w', ts)"
    using 1(1) [OF a [symmetric] refl refl] 1(2) a advance_one [OF a] by simp
  from op_run_trans [OF this op_next [OF op_start step]] 1(3) show ?case by (cases tsk) simp_all
next
  case (2 cfg ev tsk ords w)
  have "op_run cfg (ords, w, a # ts) (ords, w, ts)" for a
    using op_next [OF op_start op_gone [of cfg ords w "a # ts" a]] by simp
  with 2 show ?case by (cases tsk) (auto intro: op_start)
qed (auto intro: op_start)

text \<open>The handlers are their tasks, run to the end.\<close>

lemma commit_end_tx: "fst (end_tx out resp ords ords') = commit_orders out ords (Some ords')"
  by (simp add: end_tx_def commit_orders_def)

lemma replay_alone:
  assumes "replay_order cfg ev trace key row ords w = (w', ords', resp)" "NormalizeStatus (ord_status row) = ''PENDING''"
  shows "alone 4 cfg ev [Fetching key row trace] ords w = (ords', w')"
proof -
  obtain w1 f where f: "fetchRouter cfg (ord_id row) trace w = (w1, f)" by fastforce
  show ?thesis
  proof (cases f)
    case None
    with assms f show ?thesis
      by (auto simp: replay_order_def refreshed_view_def Let_def end_tx_def numeral_eq_Suc)
  next
    case (Some l)
    obtain w2 re where re: "retryPending cfg (rl_request l) key trace w1 = (w2, re)" by fastforce
    show ?thesis
      using assms f Some re
      by (auto simp: replay_order_def refreshed_view_def Let_def end_tx_def commit_orders_def seen_payment_def numeral_eq_Suc
          split: option.splits if_splits)
  qed
qed

lemma placing_alone:
  assumes "order_checks (oc_sha cfg) r = Checked key hash req" "oe_begin ev" "oe_lock ev" "pg_text key" "oe_select ev"
    "order_by_key key (op_rows s) = None" "Operator.create cfg ev r s w = ((s', w'), resp)"
  shows "alone 4 cfg ev [Resolving key hash (TraceHeaders r) req] (op_rows s) w = (op_rows s', w')"
proof -
  note def = assms(7) [unfolded Operator.create_def assms(1) checked.case]
  obtain w1 d where d: "participant cfg (TraceHeaders r) (pub_DebtorParticipantID req) w = (w1, d)" by fastforce
  show ?thesis
  proof (cases d)
    case (Inl e)
    with def assms d show ?thesis by (auto simp: resolve_participants_def numeral_eq_Suc)
  next
    case debtor: (Inr debtor)
    obtain w2 c where c: "participant cfg (TraceHeaders r) (pub_CreditorParticipantID req) w1 = (w2, c)" by fastforce
    show ?thesis
    proof (cases "\<exists>creditor. c = Inr creditor \<and> part_Active debtor \<and> part_Active creditor \<and>
        hasRole (part_Roles debtor) RoleDebtor \<and> hasRole (part_Roles creditor) RoleCreditor")
      case False
      then have "\<exists>e. resolve_participants cfg (TraceHeaders r) req w = (w2, Inl e)"
        "advance cfg ev (Debtor_known key hash (TraceHeaders r) req debtor) ords w1 = (ords, w2, [])" for ords
        using d debtor c by (auto simp: resolve_participants_def split: sum.splits)
      with def assms d debtor show ?thesis by (auto simp: numeral_eq_Suc simp del: advance.simps(2))
    next
      case True
      then obtain creditor where ok: "c = Inr creditor" "part_Active debtor" "part_Active creditor"
        "hasRole (part_Roles debtor) RoleDebtor" "hasRole (part_Roles creditor) RoleCreditor" by blast
      obtain w3 a where a: "ask_router cfg key (TraceHeaders r) (internal_request req debtor) w2 = (w3, a)" by fastforce
      have res: "resolve_participants cfg (TraceHeaders r) req w = (w2, Inr debtor)"
        using d debtor c ok by (simp add: resolve_participants_def)
      show ?thesis
        using def assms d debtor c ok a res
        by (auto simp: Let_def numeral_eq_Suc commit_orders_def end_tx_def split: sum.splits option.splits if_splits)
    qed
  qed
qed

lemma create_alone:
  assumes "Operator.create cfg ev r s w = ((s', w'), resp)" "req_path r = ''/v1/payments''"
  shows "alone 4 cfg ev (arrive cfg ev r (op_rows s)) (op_rows s) w = (op_rows s', w')"
proof (cases "order_checks (oc_sha cfg) r")
  case (Rejected st m)
  with assms show ?thesis by (auto simp: arrive_def arrive_create_def Operator.create_def)
next
  case checked: (Checked key hash req)
  show ?thesis
  proof (cases "oe_begin ev \<and> oe_lock ev \<and> pg_text key \<and> oe_select ev")
    case False
    with assms checked show ?thesis by (auto simp: arrive_def arrive_create_def Operator.create_def split: if_splits)
  next
    case db: True
    show ?thesis
    proof (cases "order_by_key key (op_rows s)")
      case None
      with assms checked db placing_alone [OF checked _ _ _ _ None assms(1)] show ?thesis by (simp add: arrive_def arrive_create_def)
    next
      case (Some row)
      note def = assms(1) [unfolded Operator.create_def checked checked.case]
      obtain w1 rows a where rep: "replay_order cfg ev (TraceHeaders r) key row (op_rows s) w = (w1, rows, a)"
        by (metis prod.collapse)
      have same: "w1 = w \<and> rows = op_rows s" if "NormalizeStatus (ord_status row) \<noteq> ''PENDING''"
        using rep that by (auto simp: replay_order_def Let_def end_tx_def)
      show ?thesis
        using def assms(2) checked db Some rep same replay_alone [OF rep] by (auto simp: arrive_def arrive_create_def split: if_splits)
    qed
  qed
qed

lemma get_alone:
  assumes "Operator.get cfg ev r s w = ((s', w'), resp)" "prefix ''/v1/payments/'' (req_path r)"
  shows "alone 4 cfg ev (arrive cfg ev r (op_rows s)) (op_rows s) w = (op_rows s', w')"
proof -
  have path: "req_path r \<noteq> ''/v1/payments''" using assms(2) by auto
  show ?thesis
  proof (cases "req_method r = ''GET'' \<and> oe_select ev")
    case False
    with assms path show ?thesis by (auto simp: arrive_def arrive_get_def Operator.get_def Let_def split: if_splits)
  next
    case ok: True
    show ?thesis
    proof (cases "Option.bind (oc_uuid_in cfg (trim_prefix ''/v1/payments/'' (req_path r))) (\<lambda>u. order_by_id u (op_rows s))")
      case None
      with assms ok path show ?thesis by (auto simp: arrive_def arrive_get_def Operator.get_def Let_def split: option.splits bind_splits)
    next
      case (Some row)
      then obtain uuid where uuid: "oc_uuid_in cfg (trim_prefix ''/v1/payments/'' (req_path r)) = Some uuid"
        "order_by_id uuid (op_rows s) = Some row" by (auto simp: bind_eq_Some_conv)
      then have id: "ord_id row = uuid" by (auto simp: order_by_id_def dest: find_SomeD)
      obtain w1 f where f: "fetchRouter cfg (coalesce (ord_payment_id row)) (TraceHeaders r) w = (w1, f)" by fastforce
      show ?thesis
        using assms ok path uuid id f
        by (cases f) (auto simp: arrive_def arrive_get_def Operator.get_def Let_def local_view_def read_payment_def seen_payment_def numeral_eq_Suc
            split: if_splits)
    qed
  qed
qed

lemma serve_alone:
  assumes "operator_serve cfg ev r s w = ((s', w'), resp)"
  shows "alone 4 cfg ev (arrive cfg ev r (op_rows s)) (op_rows s) w = (op_rows s', w')"
proof -
  consider (create) "req_path r = ''/v1/payments''" "Operator.create cfg ev r s w = ((s', w'), resp)"
    | (get) "prefix ''/v1/payments/'' (req_path r)" "Operator.get cfg ev r s w = ((s', w'), resp)"
    | (other) "s' = s" "w' = w" "arrive cfg ev r (op_rows s) = []"
    using assms by (auto simp: operator_serve_def arrive_def split: if_splits)
  then show ?thesis
  proof cases
    case create
    from create_alone [OF create(2,1)] show ?thesis .
  next
    case get
    from get_alone [OF get(2,1)] show ?thesis .
  qed simp
qed

lemma arrive_one: "length (arrive cfg ev r ords) \<le> 1"
  by (auto simp: arrive_def arrive_create_def arrive_get_def split: checked.splits option.splits)

lemma serve_run:
  assumes "operator_serve cfg ev r s w = ((s', w'), resp)"
  shows "op_run cfg (op_rows s, w, ts) (op_rows s', w', ts)"
  using op_run_trans [OF alone_run [OF serve_alone [OF assms] arrive_one] op_next [OF op_start op_arrive]] .

section \<open>Orders keep their names\<close>

definition keeps_orders :: "order_row list \<Rightarrow> order_row list \<Rightarrow> bool" where
  "keeps_orders ords ords' \<longleftrightarrow> (\<forall>key row. order_by_key key ords = Some row \<longrightarrow>
     (\<exists>row'. order_by_key key ords' = Some row' \<and> ord_id row' = ord_id row))"

lemma keeps_orders_refl [simp]: "keeps_orders ords ords"
  by (simp add: keeps_orders_def)

lemma orders_evolve_keeps: "orders_evolve ords ords' \<Longrightarrow> keeps_orders ords ords'"
  unfolding keeps_orders_def orders_evolve_def by (fastforce simp: order_evolves_def order_identity_def)

lemma reconcile_keeps_orders: "keeps_orders ords (reconcile_order upd uuid p ords)"
  by (auto simp: keeps_orders_def reconcile_order_def order_by_key_update)

lemma put_view_keeps_orders: "keeps_orders ords (update_where q (put_view uuid p) ords)"
  by (auto simp: keeps_orders_def order_by_key_update)

section \<open>What a task holds\<close>

text \<open>The order of a key, the payment of a key, and a view that may be written over the order.\<close>

definition named :: "order_row list \<Rightarrow> string \<Rightarrow> string \<Rightarrow> bool" where
  "named ords key oid \<longleftrightarrow> (\<exists>row. order_by_key key ords = Some row \<and> ord_id row = oid)"

definition paid :: "payment_row list \<Rightarrow> string \<Rightarrow> string \<Rightarrow> bool" where
  "paid rows key oid \<longleftrightarrow> (\<exists>pay. select_by_key key rows = Some pay \<and> row_id pay = oid)"

definition good_view :: "payment_row list \<Rightarrow> string \<Rightarrow> PaymentResponse \<Rightarrow> bool" where
  "good_view rows key p \<longleftrightarrow> vouched rows key p \<and> pay_Status p \<in> {''PENDING'', ''SUCCEEDED'', ''FAILED''}"

fun task_ok :: "payment_row list \<Rightarrow> order_row list \<Rightarrow> task \<Rightarrow> bool" where
  "task_ok rows ords (Resolving key hash trace req) \<longleftrightarrow> trimmed key \<and> trace_only trace"
| "task_ok rows ords (Debtor_known key hash trace req debtor) \<longleftrightarrow> trimmed key \<and> trace_only trace"
| "task_ok rows ords (Asking key hash trace internal) \<longleftrightarrow> trimmed key \<and> trace_only trace"
| "task_ok rows ords (Inserting key hash out) \<longleftrightarrow> trimmed key \<and> good_view rows key out"
| "task_ok rows ords (Fetching key row trace) \<longleftrightarrow>
     trimmed key \<and> trace_only trace \<and> named ords key (ord_id row) \<and> paid rows key (ord_id row)"
| "task_ok rows ords (Retrying key row trace l) \<longleftrightarrow>
     trimmed key \<and> trace_only trace \<and> named ords key (ord_id row) \<and> vouched rows key (rl_payment l)"
| "task_ok rows ords (Updating key row p) \<longleftrightarrow> named ords key (ord_id row) \<and> good_view rows key p"
| "task_ok rows ords (Reading row trace) \<longleftrightarrow> named ords (ord_key row) (ord_id row) \<and>
     paid rows (ord_key row) (ord_id row) \<and> ord_payment_id row = Some (ord_id row)"
| "task_ok rows ords (Reconciling oid p) \<longleftrightarrow> (\<exists>key. named ords key oid \<and> good_view rows key p)"

lemma named_mono: "named ords key oid \<Longrightarrow> keeps_orders ords ords' \<Longrightarrow> named ords' key oid"
  by (auto simp: named_def keeps_orders_def)

lemma paid_mono: "paid rows key oid \<Longrightarrow> table_evolves rows rows' \<Longrightarrow> paid rows' key oid"
  unfolding paid_def using evolves_row by metis

lemma good_view_mono: "good_view rows key p \<Longrightarrow> table_evolves rows rows' \<Longrightarrow> good_view rows' key p"
  by (simp add: good_view_def vouched_mono)

lemma task_ok_mono:
  "task_ok rows ords t \<Longrightarrow> table_evolves rows rows' \<Longrightarrow> keeps_orders ords ords' \<Longrightarrow> task_ok rows' ords' t"
  by (cases t) (auto intro: named_mono paid_mono good_view_mono vouched_mono)

lemma seen_payment_good: "vouched rows key (rl_payment l) \<Longrightarrow> good_view rows key (seen_payment key l)"
  unfolding good_view_def seen_payment_def using NormalizeStatus_cases
  by (auto elim!: vouched_cong)

lemma good_view_created: "good_view rows key p \<Longrightarrow> good_view rows key (p\<lparr>pay_CreatedAt := t\<rparr>)"
  by (auto simp: good_view_def vouched_def shows_row_def)

lemma read_payment_good: "vouched rows (ord_key row) (rl_payment l) \<Longrightarrow> good_view rows (ord_key row) (read_payment row l)"
  by (simp add: read_payment_def Let_def seen_payment_good good_view_created)

section \<open>Writing a view\<close>

lemma named_only:
  assumes "orders_inv ords" "order_by_key key ords = Some row" "o' \<in> set ords" "ord_id o' = ord_id row"
  shows "o' = row"
  using assms order_by_keyD [OF assms(2)] by (auto simp: orders_inv_def dest: distinct_key_eq [of ord_id])

lemma update_linked:
  assumes "orders_linked rows ords" "named ords key oid" "good_view rows key p"
    "rows_good (known_id uuid_in) evidence rows" "uuid_in (pay_ID p) = Some uuid"
  shows "orders_linked rows (update_where (\<lambda>r. ord_id r = oid) (put_view uuid p) ords)"
proof -
  obtain row where row: "order_by_key key ords = Some row" "ord_id row = oid" using assms(2) by (auto simp: named_def)
  from order_by_keyD [OF row(1)] have mem: "row \<in> set ords" "ord_key row = key" by auto
  have inv: "orders_inv ords" and link: "order_linked rows row" using assms(1) mem(1) by (auto simp: orders_linked_def)
  have "pay_Status p = NormalizeStatus (pay_Status p)" using assms(3) by (auto simp: good_view_def)
  then have "order_linked rows (put_view uuid p row)"
    using link mem(2) assms(3-5) by (intro put_view_linked [of _ _ _ uuid_in evidence]) (auto simp: good_view_def)
  then show ?thesis
    using named_only [OF inv row(1)] row(2) orders_inv_update [OF inv, of "put_view uuid p"]
    by (intro orders_linked_update [OF assms(1)]) auto
qed

lemma reconcile_linked:
  assumes "orders_linked rows ords" "named ords key oid" "good_view rows key p"
  shows "orders_linked rows (reconcile_order upd oid p ords)"
proof -
  obtain row where row: "order_by_key key ords = Some row" "ord_id row = oid" using assms(2) by (auto simp: named_def)
  from order_by_keyD [OF row(1)] have mem: "row \<in> set ords" "ord_key row = key" by auto
  have inv: "orders_inv ords" and link: "order_linked rows row" using assms(1) mem(1) by (auto simp: orders_linked_def)
  have v: "vouched rows key p" and st: "pay_Status p \<in> {''PENDING'', ''SUCCEEDED'', ''FAILED''}"
    using assms(3) by (auto simp: good_view_def)
  have id: "pay_ID p = oid"
    using vouched_same_row [OF v, of "order_response row"] link mem(2) row(2) by (simp add: order_linked_def)
  let ?f = "\<lambda>r. r\<lparr>ord_status := pay_Status p, ord_gateway := Some (pay_Gateway p),
     ord_provider_ref := Some (pay_ProviderRef p), ord_error := Some (pay_Error p)\<rparr>"
  have "vouched rows key (order_response (?f row))"
    by (rule vouched_cong [OF v]) (use st in \<open>auto simp: coalesce_def id row(2)\<close>)
  then have "order_linked rows (?f row)" using link mem(2) by (simp add: order_linked_def)
  then show ?thesis
    using orders_linked_update [OF assms(1), of "\<lambda>r. ord_id r = oid" ?f] reconcile_keeps [OF inv st, of upd oid] assms(1)
      named_only [OF inv row(1)] row(2)
    by (auto simp: reconcile_order_def split: if_splits)
qed

section \<open>The invariant of all interleavings\<close>

lemma linked_named: "orders_linked rows ords \<Longrightarrow> row \<in> set ords \<Longrightarrow> order_by_key (ord_key row) ords = Some row"
  by (auto simp: orders_linked_def orders_inv_def order_by_key_def find_key_iff)

lemma linked_paid:
  assumes "orders_linked rows ords" "row \<in> set ords"
  shows "paid rows (ord_key row) (ord_id row) \<and> ord_payment_id row = Some (ord_id row)"
  using assms by (auto simp: orders_linked_def order_linked_def paid_def vouched_def)

lemma arrive_ok:
  assumes "orders_linked rows ords" "t \<in> set (arrive cfg ev r ords)"
  shows "task_ok rows ords t"
proof -
  have checked: "trimmed key" if "order_checks (oc_sha cfg) r = Checked key hash req" for key hash req
    using order_checks_Checked [OF that] order_key_trimmed by simp
  have known: "named ords (ord_key row) (ord_id row) \<and> paid rows (ord_key row) (ord_id row) \<and> ord_payment_id row = Some (ord_id row)"
    if "row \<in> set ords" for row
    using linked_named [OF assms(1) that] linked_paid [OF assms(1) that] by (auto simp: named_def)
  have by_key: "row \<in> set ords \<and> ord_key row = key" if "order_by_key key ords = Some row" for key row
    using order_by_keyD [OF that] by blast
  have by_id: "row \<in> set ords" if "order_by_id uuid ords = Some row" for uuid row
    using that by (auto simp: order_by_id_def dest: find_SomeD)
  consider (resolving) key hash req where "order_checks (oc_sha cfg) r = Checked key hash req" "t = Resolving key hash (TraceHeaders r) req"
    | (fetching) key hash req row where "order_checks (oc_sha cfg) r = Checked key hash req" "order_by_key key ords = Some row"
        "t = Fetching key row (TraceHeaders r)"
    | (reading) uuid row where "order_by_id uuid ords = Some row" "t = Reading row (TraceHeaders r)"
  proof -
    have "t \<in> set (arrive_create cfg ev r ords) \<or> t \<in> set (arrive_get cfg ev r ords)"
      using assms(2) by (simp add: arrive_def split: if_splits)
    then show thesis
    proof
      assume t: "t \<in> set (arrive_create cfg ev r ords)"
      then obtain key hash req where c: "order_checks (oc_sha cfg) r = Checked key hash req"
        by (cases "order_checks (oc_sha cfg) r") (simp_all add: arrive_create_def)
      with t show thesis
        by (cases "order_by_key key ords") (auto simp: arrive_create_def split: if_splits intro: resolving fetching)
    next
      assume "t \<in> set (arrive_get cfg ev r ords)"
      then show thesis by (auto simp: arrive_get_def split: if_splits option.splits intro: reading [OF sym])
    qed
  qed
  then show ?thesis
  proof cases
    case resolving
    with checked trace_only_TraceHeaders show ?thesis by simp
  next
    case fetching
    with checked [OF fetching(1)] by_key [OF fetching(2)] known [of row] trace_only_TraceHeaders show ?thesis by auto
  next
    case reading
    with known [OF by_id [OF reading(1)]] show ?thesis by simp
  qed
qed

definition ops_inv ::
  "(string \<Rightarrow> string option) \<Rightarrow> ('w \<Rightarrow> bool) \<Rightarrow> ('w \<Rightarrow> string \<Rightarrow> string \<Rightarrow> string \<Rightarrow> string \<Rightarrow> bool) \<Rightarrow>
   'w backend op_state \<Rightarrow> bool" where
  "ops_inv uuid_in sound evidence = (\<lambda>(ords, b, ts). backend_good uuid_in sound evidence b \<and>
     orders_linked (bk_rows b) ords \<and> (\<forall>t \<in> set ts. task_ok (bk_rows b) ords t))"

text \<open>What a step of one task promises to the others.\<close>

definition task_step ::
  "(string \<Rightarrow> string option) \<Rightarrow> ('w \<Rightarrow> bool) \<Rightarrow> ('w \<Rightarrow> string \<Rightarrow> string \<Rightarrow> string \<Rightarrow> string \<Rightarrow> bool) \<Rightarrow>
   order_row list \<Rightarrow> 'w backend \<Rightarrow> order_row list \<Rightarrow> 'w backend \<Rightarrow> task list \<Rightarrow> bool" where
  "task_step u so e ords b ords' b' new \<longleftrightarrow> bk_step u so e b b' \<and> keeps_orders ords ords' \<and>
     orders_linked (bk_rows b') ords' \<and> (\<forall>t \<in> set new. task_ok (bk_rows b') ords' t)"

lemma task_step_call:
  assumes "bk_step u so e b b'" "orders_linked (bk_rows b) ords" "\<And>t. t \<in> set new \<Longrightarrow> task_ok (bk_rows b') ords t"
  shows "task_step u so e ords b ords b' new"
  using assms orders_linked_mono by (auto simp: task_step_def bk_step_def)

lemma task_step_write:
  assumes "backend_good u so e b" "orders_linked (bk_rows b) ords'" "keeps_orders ords ords'"
  shows "task_step u so e ords b ords' b []"
  using assms by (simp add: task_step_def bk_step_def)

lemma ops_inv_step:
  assumes "ops_inv u so e (ords, b, ts)" "task_step u so e ords b ords' b' new" "set rest \<subseteq> set ts"
  shows "ops_inv u so e (ords', b', new @ rest)"
  using assms task_ok_mono unfolding ops_inv_def task_step_def bk_step_def by fastforce

context providers
begin

lemma fetched_vouched:
  assumes "fetchRouter (mesh_operator env cfg) oid trace b = (b', answer)" "addresses_apart env" "rc_adapters cfg = call"
    "backend_good (rc_uuid_in cfg) sound evidence b" "paid (bk_rows b) key oid"
  shows "bk_step (rc_uuid_in cfg) sound evidence b b'" "answer = Some l \<Longrightarrow> vouched (bk_rows b') key (rl_payment l)"
proof -
  obtain pay where pay: "select_by_key key (bk_rows b) = Some pay" "row_id pay = oid" using assms(5) by (auto simp: paid_def)
  then have known: "known_id (rc_uuid_in cfg) oid"
    using assms(4) select_by_keyD by (auto simp: backend_good_def rows_good_def row_good_def)
  note f = fetchRouter_reads [OF assms(1-4) known]
  then show "bk_step (rc_uuid_in cfg) sound evidence b b'" by (simp add: bk_step_def)
  assume "answer = Some l"
  with f obtain q where q: "q \<in> set (bk_rows b')" "row_id q = oid" "rl_payment l = answer_of q" by blast
  obtain row' where row': "select_by_key key (bk_rows b') = Some row'" "row_id row' = oid"
    using f evolves_row [OF _ pay(1)] pay(2) by metis
  have "row' = q" using f q(1,2) row' select_by_keyD
    by (auto simp: backend_good_def rows_good_def payments_inv_def dest: distinct_key_eq [of row_id])
  with q row' show "vouched (bk_rows b') key (rl_payment l)"
    by (intro vouched_answer [of _ _ row']) (auto simp: NormalizeStatus_def terminal_def split: if_splits)
qed

lemma advance_ok:
  assumes adv: "advance (mesh_operator env cfg) ev t ords b = (ords', b', new)"
    and apart: "addresses_apart env" and call: "rc_adapters cfg = call"
    and good: "backend_good (rc_uuid_in cfg) sound evidence b" and linked: "orders_linked (bk_rows b) ords"
    and ok: "task_ok (bk_rows b) ords t"
  shows "task_step (rc_uuid_in cfg) sound evidence ords b ords' b' new"
proof (cases t)
  case (Resolving key hash trace req)
  obtain w res where p: "participant (mesh_operator env cfg) trace (pub_DebtorParticipantID req) b = (w, res)" by fastforce
  from participant_step [OF p call good] show ?thesis
    using adv ok p linked unfolding Resolving by (auto intro!: task_step_call split: sum.splits)
next
  case (Debtor_known key hash trace req debtor)
  obtain w res where p: "participant (mesh_operator env cfg) trace (pub_CreditorParticipantID req) b = (w, res)" by fastforce
  from participant_step [OF p call good] show ?thesis
    using adv ok p linked unfolding Debtor_known by (auto intro!: task_step_call split: sum.splits if_splits)
next
  case (Asking key hash trace internal)
  obtain w res where a: "ask_router (mesh_operator env cfg) key trace internal b = (w, res)" by fastforce
  from ok have "trace_only trace" "trimmed key" by (simp_all add: Asking)
  from ask_router_vouched [OF a apart call good this] ask_router_Inr [of "mesh_operator env cfg" key trace internal b w]
  show ?thesis
    using adv ok a linked unfolding Asking
    by (auto intro!: task_step_call simp: bk_step_def good_view_def split: sum.splits)
next
  case (Inserting key hash out)
  have "task_step (rc_uuid_in cfg) sound evidence ords b ords1 b []"
    if "insert_order (mesh_operator env cfg) (oe_now ev) key hash out ords = Some ords1" for ords1
  proof (rule task_step_write [OF good])
    have "orders_inv ords1" using insert_order_inv [OF that] linked ok by (auto simp: Inserting orders_linked_def good_view_def)
    then show "orders_linked (bk_rows b) ords1"
      using insert_linked [OF that _ _ good linked] ok by (simp add: Inserting good_view_def)
    show "keeps_orders ords ords1" using insert_order_evolves [OF that] by (rule orders_evolve_keeps)
  qed
  then show ?thesis
    using adv task_step_write [OF good linked keeps_orders_refl] unfolding Inserting
    by (auto simp: commit_orders_def split: option.splits if_splits)
next
  case (Fetching key row trace)
  obtain w res where f: "fetchRouter (mesh_operator env cfg) (ord_id row) trace b = (w, res)" by fastforce
  from ok have p: "paid (bk_rows b) key (ord_id row)" by (simp add: Fetching)
  note fv = fetched_vouched [OF f apart call good p]
  show ?thesis
    using adv ok f linked fv seen_payment_good unfolding Fetching
    by (auto intro!: task_step_call simp: Let_def split: option.splits if_splits)
next
  case (Retrying key row trace l)
  obtain w res where r: "retryPending (mesh_operator env cfg) (rl_request l) key trace b = (w, res)" by fastforce
  from ok have t: "trace_only trace" "trimmed key" by (simp_all add: Retrying)
  note rv = retryPending_vouched [OF r apart call good t]
  have "vouched (bk_rows w) key (rl_payment (case res of Some l' \<Rightarrow> l' | None \<Rightarrow> l))"
    using rv ok vouched_mono by (auto simp: Retrying split: option.splits)
  then show ?thesis
    using adv ok r linked rv seen_payment_good unfolding Retrying
    by (auto intro!: task_step_call simp: bk_step_def)
next
  case (Updating key row p)
  have "task_step (rc_uuid_in cfg) sound evidence ords b ords1 b []"
    if upd: "updateOrderTx (mesh_operator env cfg) (oe_write ev) (ord_id row) p ords = Some ords1" for ords1
  proof -
    obtain uuid where u: "oc_uuid_in (mesh_operator env cfg) (pay_ID p) = Some uuid"
      "ords1 = update_where (\<lambda>r. ord_id r = ord_id row) (put_view uuid p) ords" using updateOrderTx_Some [OF upd] by metis
    have g: "rows_good (known_id (rc_uuid_in cfg)) (evidence (bk_world b)) (bk_rows b)" using good by (simp add: backend_good_def)
    show "task_step (rc_uuid_in cfg) sound evidence ords b ords1 b []"
      using update_linked [OF linked _ _ g, of key "ord_id row" p uuid] ok u put_view_keeps_orders
      by (intro task_step_write [OF good]) (auto simp: Updating)
  qed
  then show ?thesis
    using adv task_step_write [OF good linked keeps_orders_refl] unfolding Updating
    by (auto simp: commit_orders_def split: option.splits if_splits)
next
  case (Reading row trace)
  obtain w res where f: "fetchRouter (mesh_operator env cfg) (ord_id row) trace b = (w, res)" by fastforce
  from ok have p: "paid (bk_rows b) (ord_key row) (ord_id row)" by (simp add: Reading)
  note fv = fetched_vouched [OF f apart call good p]
  show ?thesis
    using adv ok f linked fv read_payment_good unfolding Reading
    by (auto intro!: task_step_call exI [of _ "ord_key row"] simp: coalesce_def split: option.splits)
next
  case (Reconciling oid p)
  with ok obtain key where "named ords key oid" "good_view (bk_rows b) key p" by auto
  from task_step_write [OF good reconcile_linked [OF linked this] reconcile_keeps_orders] show ?thesis
    using adv unfolding Reconciling by auto
qed

lemma op_step_inv:
  assumes "op_step (mesh_operator env cfg) st st'" "addresses_apart env" "rc_adapters cfg = call"
    "ops_inv (rc_uuid_in cfg) sound evidence st"
  shows "ops_inv (rc_uuid_in cfg) sound evidence st'"
  using assms(1)
proof cases
  case (op_arrive ords b ts ev r)
  then show ?thesis using assms(4) arrive_ok by (auto simp: ops_inv_def)
next
  case (op_advance t ts ev ords b ords' b' new)
  have inv: "ops_inv (rc_uuid_in cfg) sound evidence (ords, b, ts)" using assms(4) op_advance(1) by simp
  then have "task_step (rc_uuid_in cfg) sound evidence ords b ords' b' new"
    using advance_ok [OF op_advance(4) assms(2,3)] op_advance(3) by (auto simp: ops_inv_def)
  from ops_inv_step [OF inv this] show ?thesis unfolding op_advance(2) by (simp add: set_remove1_subset)
next
  case (op_gone ords b ts t)
  then show ?thesis using assms(4) set_remove1_subset [of t ts] by (auto simp: ops_inv_def)
qed

lemma op_run_inv:
  assumes "op_run (mesh_operator env cfg) st st'" "addresses_apart env" "rc_adapters cfg = call"
    "ops_inv (rc_uuid_in cfg) sound evidence st"
  shows "ops_inv (rc_uuid_in cfg) sound evidence st'"
  using assms by (induction rule: op_run.induct) (auto intro: op_step_inv)

end

end
