(* ===== verification/Samples.thy ===== *)
theory Samples
  imports Router_Facts
begin

text \<open>
  Concrete requests, events and configurations, at which the witnesses of the properties
  evaluate the handlers. The stand-in for SHA-256 is the identity, which has no collisions.
\<close>

section \<open>Router\<close>

definition sample_request :: RouterPaymentRequest where
  "sample_request = \<lparr>rtr_DebtorParticipantID = ''d'', rtr_CreditorParticipantID = ''c'', rtr_AmountMinor = 5,
     rtr_Currency = ''COP'', rtr_Reference = ''r'', rtr_Instrument = ''card''\<rparr>"

definition key_header :: "string \<Rightarrow> header" where
  "key_header k = header_set Map.empty ''Idempotency-Key'' k"

definition router_post :: "string \<Rightarrow> RouterPaymentRequest \<Rightarrow> http_request" where
  "router_post k req = \<lparr>req_method = ''POST'', req_path = ''/internal/v1/payments'', req_header = key_header k,
     req_body = json_text (encode_router req)\<rparr>"

definition good_event :: router_event where
  "good_event = \<lparr>re_conn = True, re_lock = True, re_begin = True, re_select = True, re_claim = True,
     re_insert = True, re_commit = Ok, re_persist = Ok, re_now = 0, re_clock = 0, re_persist_now = 1,
     re_random = replicate 16 0, re_allow_at = 0, re_failure_at = 0, re_latency = 7\<rparr>"

text \<open>A provider that counts its calls and answers with a fixed result.\<close>

definition counting_charger :: "ProviderResult \<Rightarrow> nat charger" where
  "counting_charger result trace req key w = (Suc w, result)"

definition sample_config :: "ProviderResult \<Rightarrow> nat router_config" where
  "sample_config result = \<lparr>rc_sha = (\<lambda>s. s), rc_uuid_in = (\<lambda>s. Some s), rc_env = (\<lambda>_. []),
     rc_adapters = [''gateway-card'' \<mapsto> counting_charger result], rc_breakerEnabled = True\<rparr>"

definition empty_router :: router where
  "empty_router = \<lparr>r_rows = [], r_circuits = main_circuits, r_metrics = zero_metrics\<rparr>"

definition paid :: ProviderResult where
  "paid = provider_result ''SUCCEEDED'' ''ref-1'' []"

lemma payments_inv_empty [simp]: "payments_inv (r_rows empty_router)"
  by (simp add: empty_router_def payments_inv_def)

text \<open>The row a first request leaves, and its answer.\<close>

definition sample_row :: payment_row where
  "sample_row = \<lparr>row_id = newUUID (replicate 16 0), row_key = ''k'', row_hash = json_text (encode_router sample_request),
     row_amount_minor = 5, row_currency = ''COP'', row_instrument = ''card'', row_participant_id = ''d'',
     row_debtor = ''d'', row_creditor = ''c'', row_reference = ''r'', row_status = ''SUCCEEDED'',
     row_gateway = ''gateway-card'', row_provider_ref = Some ''ref-1'', row_error = Some [],
     row_created_at = 0, row_updated_at = 1\<rparr>"

lemma header_get_key [simp]: "header_get (key_header k) ''Idempotency-Key'' = k"
  by (simp add: key_header_def)

lemma sample_canonical [simp]: "canonical sample_request"
proof -
  have "list_all ascii [''d'', ''c'', ''COP'', ''r'', ''card'']" by code_simp
  then have "router_text sample_request"
    by (simp add: router_text_def sample_request_def utf8_valid_ascii in_int64_def int64_min_def int64_max_def)
  moreover have "list_all is_upper ''COP''" "trimmed ''COP''" by code_simp+
  ultimately show ?thesis by (simp add: canonical_def sample_request_def ValidInstrument_iff)
qed

lemma sample_prologue [simp]:
  "create_prologue sha (router_post ''k'' sample_request) = Accept ''k'' (request_hashes sha sample_request) sample_request"
proof -
  have t: "trim_space ''k'' = ''k''" "trim_space ''d'' = ''d''" "trim_space ''c'' = ''c''" "trim_space ''r'' = ''r''" by code_simp+
  have "Decode decode_router (router_post ''k'' sample_request) = Some sample_request"
    using sample_canonical by (intro Decode_router) (simp_all add: canonical_def router_post_def)
  moreover have "ValidateRouterRequest sample_request = None"
    using t by (intro canonical_valid) (simp_all, simp_all add: sample_request_def)
  ultimately show ?thesis
    using canonical_fixed [OF sample_canonical] t(1)
    by (simp add: create_prologue_def router_post_def Let_def)
qed

lemma sample_events [simp]:
  "create_acquire good_event ''k'' = None"
  by code_simp

lemma sample_pg [simp]: "list_all pg_text [''k'', ''COP'', ''card'', ''d'', ''c'', ''r'', ''ref-1'', []]"
  by code_simp
lemma sample_up [simp]: "upper_byte CHR ''C'' = CHR ''C''" "upper_byte CHR ''O'' = CHR ''O''"
  "upper_byte CHR ''P'' = CHR ''P''" "gatewayFor ''card'' = ''gateway-card''"
  by code_simp+

definition sample_pending :: payment_row where
  "sample_pending = sample_row\<lparr>row_status := ''PENDING'', row_provider_ref := None, row_error := None, row_updated_at := 0\<rparr>"

lemma sample_reserve:
  "reserve recovery good_event ''k'' (request_hashes (\<lambda>s. s) sample_request) sample_request [] =
   (Reserved (newUUID (replicate 16 0)) ''gateway-card'' 0 0, [sample_pending])"
  using sample_pg canonical_fixed [OF sample_canonical]
  by (simp add: reserve_def request_hashes_def RequestHash_def Let_def)
    (simp add: good_event_def sample_request_def select_by_key_def insert_payment_def
      committed_def sample_row_def sample_pending_def Let_def)

lemma sample_charge:
  "charge (sample_config paid) good_event r sample_request ''k'' ''gateway-card''
     (empty_router\<lparr>r_rows := rows\<rparr>) w =
   ((empty_router\<lparr>r_rows := rows, r_circuits := r_circuits empty_router\<rparr>, Suc w),
    Some (zero_payment\<lparr>pay_Status := ''SUCCEEDED'', pay_ProviderRef := ''ref-1''\<rparr>))"
  by (simp add: charge_def sample_config_def charge_admit_def empty_router_def main_circuits_def Allow_def
      NewCircuit_def good_event_def Let_def counting_charger_def charge_report_def paid_def Success_def
      zero_payment_def) (simp add: fun_eq_iff)

lemma sample_persist:
  "persistResultConn good_event (newUUID (replicate 16 0))
     (zero_payment\<lparr>pay_Status := ''SUCCEEDED'', pay_ProviderRef := ''ref-1''\<rparr>) 0 [sample_pending] = (True, [sample_row])"
  using sample_pg
  by (simp add: persistResultConn_def good_event_def count_where_def lease_held_def update_result_def sample_pending_def
      sample_row_def update_where_def settle_def normalized_def zero_payment_def)

lemma sample_create:
  "create (sample_config paid) good_event (router_post ''k'' sample_request) empty_router 0 =
    ((empty_router\<lparr>r_rows := [sample_row], r_metrics := Count True 7 zero_metrics\<rparr>, 1),
     Some (JSON 200 (encode_payment (answer_of sample_row))))"
proof -
  let ?p = "zero_payment\<lparr>pay_Status := ''SUCCEEDED'', pay_ProviderRef := ''ref-1''\<rparr>"
  have n: "normalized ?p = ?p" by (simp add: normalized_def)
  have cfg: "rc_sha (sample_config paid) = (\<lambda>s. s)" by (simp add: sample_config_def)
  have "create_charge (sample_config paid) good_event (router_post ''k'' sample_request) sample_request ''k''
      (newUUID (replicate 16 0)) ''gateway-card'' 0 0 (empty_router\<lparr>r_rows := [sample_pending]\<rparr>) 0 =
    ((empty_router\<lparr>r_rows := [sample_row], r_metrics := Count True 7 zero_metrics\<rparr>, 1),
     Some (JSON 200 (encode_payment (answer_of sample_row))))"
    by (subst create_charge_eq [OF sample_charge])
     (simp_all add: n sample_persist, simp_all add: announced_def n StatusCode_def good_event_def empty_router_def
        finish_def answer_of_def with_created_def sample_row_def existing_of_def coalesce_def normalized_def zero_payment_def)
  then show ?thesis
    by (simp add: create_def sample_reserve cfg sample_prologue sample_events empty_router_def)
qed
end
