(* ===== verification/Mesh_Liveness.thy ===== *)
theory Mesh_Liveness
  imports Mesh_Runs Samples
begin

text \<open>
  When everything is up, a payment is made: each service answers, the gateway charges, and
  the operator answers SUCCEEDED. The last section runs the whole mesh on one request.
\<close>

section \<open>A healthy gateway authorizes\<close>

definition gateway_up :: "gateway_event \<Rightarrow> gateway \<Rightarrow> bool" where
  "gateway_up ev g \<longleftrightarrow> \<not> ge_cancelled ev \<and> ge_disk ev \<and> in_int64 (ge_nanos ev) \<and>
     getenv (g_env g) ''GATEWAY_BEHAVIOR'' ''success'' \<notin> {''error'', ''decline''}"

lemma card_commit_up:
  assumes "gateway_up ev g" "g_card g k = None" "g_env h = g_env g"
  shows "\<exists>g'. card_commit (read_behavior h ev) k g = (g', Answer (authorized_card (ge_nanos ev)))"
  using assms
  by (auto simp: card_commit_def read_behavior_def gateway_up_def persistStateLocked_def authorized_card_def Let_def)

lemma cardAuthorization_up:
  assumes "gateway_up ev g" "g_card g k = None" "req_method r = ''POST''" "Decode decode_card_request r = Some c"
    "cr_RequestID c = k" "k \<noteq> []"
  shows "\<exists>g'. cardAuthorization ev r g = (g', Some (JSON 200 (encode_card (authorized_card (ge_nanos ev)))))"
proof -
  have up: "gateway_up ev (count_attempt g)" "g_card (count_attempt g) k = None"
    using assms(1,2) by (simp_all add: gateway_up_def)
  from card_commit_up [OF up, of "count_attempt g"] obtain g' where
    "card_commit (read_behavior (count_attempt g) ev) k (count_attempt g) = (g', Answer (authorized_card (ge_nanos ev)))" by auto
  with assms show ?thesis
    by (simp add: cardAuthorization_def card_lookup_def waitProvider_def gateway_up_def reply_response_def Let_def)
qed

lemma card_Charge_up:
  assumes "base = trim_right_chars ''/'' (card_BaseURL a)" "gateway_up ev g" "g_card g k = None"
    "accepts_token g (card_AuthToken a)" "trace_only trace" "router_text req" "utf8_valid k" "k \<noteq> []"
  shows "\<exists>g'. card_Charge (link base) a trace req k (Delivered ev # ds, g) =
    ((ds, g'), provider_result ''SUCCEEDED'' (card_AuthorizationID (authorized_card (ge_nanos ev))) [])"
proof -
  let ?r = "provider_request (card_AuthToken a) (base @ ''/v1/card/authorizations'') trace (card_payload req k)"
  let ?q = "(?r\<lparr>req_path := ''/v1/card/authorizations''\<rparr>)"
  let ?card = "authorized_card (ge_nanos ev)"
  have path: "trim_prefix base (req_path ?r) = ''/v1/card/authorizations''" by (simp add: provider_request_def)
  have q: "req_method ?q = ''POST''" "req_path ?q = ''/v1/card/authorizations''" "req_body ?q = card_payload req k"
    by (simp_all add: provider_request_def)
  obtain c where c: "Decode decode_card_request ?q = Some c" "cr_RequestID c = k"
    using Decode_card_payload [OF assms(6,7) q(3)] by auto
  from cardAuthorization_up [OF assms(2,3) q(1) c assms(8)] obtain g' where
    "cardAuthorization ev ?q g = (g', Some (JSON 200 (encode_card ?card)))" by blast
  then have s: "gateway_serve ev ?q g = (g', Some (JSON 200 (encode_card ?card)))"
    using paymentAuth_accepts [OF assms(4,5)] q(2) by (simp add: gateway_serve_def guarded_def)
  have wf: "card_wf ?card" using assms(2) by (auto simp: card_wf_def gateway_up_def)
  have st: "card_State ?card = ''AUTHORIZED''" by (simp add: authorized_card_def)
  have "card_normalize (limit_read (2 ^ 20) (http_body (JSON 200 (encode_card ?card)))) =
      provider_result ''SUCCEEDED'' (card_AuthorizationID ?card) []"
    unfolding limit_read_short [OF card_wf_short [OF wf]] card_normalize_answer [OF json_ok_card_wf [OF wf]] st
    by (simp only: card_state_upper refl if_True)
  moreover have "link_send base ?r (Delivered ev # ds, g) = ((ds, g'), Inr (JSON 200 (encode_card ?card)))"
    unfolding link_send_def path Let_def by (simp add: s)
  ultimately show ?thesis
    unfolding card_Charge_def callProvider_cases assms(1) [symmetric] by (simp add: uncertain_def)
qed

section \<open>The router settles a first request\<close>

definition router_up :: "router_event \<Rightarrow> bool" where
  "router_up ev \<longleftrightarrow> re_conn ev \<and> re_lock ev \<and> re_begin ev \<and> re_select ev \<and> re_insert ev \<and>
     re_commit ev = Ok \<and> re_persist ev = Ok"

definition first_payment ::
  "router_event \<Rightarrow> string \<Rightarrow> string \<Rightarrow> string \<Rightarrow> PaymentResponse" where
  "first_payment ev key gw ref = finish (newUUID (re_random ev)) key gw (re_now ev)
     (zero_payment\<lparr>pay_Status := ''SUCCEEDED'', pay_ProviderRef := ref\<rparr>)"

lemma reserve_up:
  assumes "router_up ev" "select_by_key key rows = None" "insert_payment (re_now ev) (newUUID (re_random ev)) key (fst hashes) req
      (gatewayFor (rtr_Instrument req)) rows = Some rows'"
  shows "reserve recovery ev key hashes req rows =
    (Reserved (newUUID (re_random ev)) (gatewayFor (rtr_Instrument req)) (re_now ev) (re_now ev), rows')"
  using assms by (cases hashes) (simp add: reserve_def router_up_def committed_def Let_def)

lemma create_up:
  assumes "create_prologue (rc_sha cfg) r = Accept key hashes req" "router_up ev" "pg_text key"
    "select_by_key key (r_rows s) = None"
    "insert_payment (re_now ev) (newUUID (re_random ev)) key (fst hashes) req (gatewayFor (rtr_Instrument req)) (r_rows s) = Some rows"
    "charge cfg ev r req key (gatewayFor (rtr_Instrument req)) (s\<lparr>r_rows := rows\<rparr>) w =
       ((s1, w1), Some (zero_payment\<lparr>pay_Status := ''SUCCEEDED'', pay_ProviderRef := ref\<rparr>))"
    "pg_text ref" "payments_inv (r_rows s)"
  shows "\<exists>s'. Router.create cfg ev r s w = ((s', w1),
    Some (JSON 200 (encode_payment (first_payment ev key (gatewayFor (rtr_Instrument req)) ref))))"
proof -
  let ?gw = "gatewayFor (rtr_Instrument req)" and ?pid = "newUUID (re_random ev)"
  let ?result = "zero_payment\<lparr>pay_Status := ''SUCCEEDED'', pay_ProviderRef := ref\<rparr>"
  obtain row where row: "rows = r_rows s @ [row]" "row_id row = ?pid" "row_status row = ''PENDING''" "row_updated_at row = re_now ev"
    "\<forall>q \<in> set (r_rows s). row_id q \<noteq> ?pid"
    using insert_payment_Some [OF assms(5)] assms(5)
    by (auto simp: insert_payment_def list_ex_iff Let_def split: if_splits)
  have n: "normalized ?result = ?result" by (simp add: normalized_def)
  have one: "count_where (lease_held ?pid (re_now ev)) rows = 1"
    using row by (auto simp: count_where_def lease_held_def filter_empty_conv)
  have "r_rows s1 = rows" using charge_rows [OF assms(6)] by simp
  have "pg_text []" by code_simp
  obtain rows2 where p: "persistResultConn ev ?pid (normalized ?result) (re_now ev) (r_rows s1) = (True, rows2)"
    unfolding n \<open>r_rows s1 = rows\<close> using one assms(2,7) \<open>pg_text []\<close>
    by (simp add: persistResultConn_def router_up_def n zero_payment_def)
  have acq: "create_acquire ev key = None" using assms(2,3) by (simp add: create_acquire_def router_up_def)
  have "create_charge cfg ev r req key ?pid ?gw (re_now ev) (re_now ev) (s\<lparr>r_rows := rows\<rparr>) w =
    ((s1\<lparr>r_rows := rows2, r_metrics := Count True (re_latency ev) (r_metrics s1)\<rparr>, w1),
     Some (JSON 200 (encode_payment (first_payment ev key ?gw ref))))"
    unfolding create_charge_eq [OF assms(6) p] by (simp add: announced_def n first_payment_def StatusCode_def)
  with assms(1) acq reserve_up [OF assms(2,4,5)] show ?thesis
    by (simp add: Router.create_def)
qed

lemma charge_up:
  assumes "fst (charge_admit (rc_breakerEnabled cfg) (re_allow_at ev) gw (r_circuits s))" "rc_adapters cfg gw = Some f"
    "f (TraceHeaders r) req key w = (w1, provider_result ''SUCCEEDED'' ref [])"
  shows "\<exists>s1. charge cfg ev r req key gw s w = ((s1, w1), Some (zero_payment\<lparr>pay_Status := ''SUCCEEDED'', pay_ProviderRef := ref\<rparr>))"
  using assms by (auto simp: charge_def charge_report_def Let_def zero_payment_def split: prod.splits)

section \<open>The operator's calls, heard\<close>

lemma participant_heard:
  assumes "bk_hops b = Heard leg # hs" "me_query (leg_manager leg)"
    "find (\<lambda>q. prow_id q = pid) (m_rows (bk_manager b)) = Some (create_row p)"
    "part_Active p" "participant_text p" "pid \<noteq> []" "pg_text pid"
  shows "\<exists>m. m_rows m = m_rows (bk_manager b) \<and>
    participant (mesh_operator env cfg) trace pid b = (b\<lparr>bk_hops := hs, bk_manager := m\<rparr>, Inr p)"
proof -
  let ?r = "\<lparr>req_method = ''GET'', req_path = participants_url env @ ''/v1/participants/'' @ pid,
    req_header = header_assign_all Map.empty trace, req_body = []\<rparr>"
  let ?q = "?r\<lparr>req_path := ''/v1/participants/'' @ pid\<rparr>"
  have path: "trim_prefix (participants_url env) (req_path ?r) = ''/v1/participants/'' @ pid"
    "prefix (participants_url env) (req_path ?r)" by simp_all
  have q: "req_method ?q = ''GET''" "req_path ?q = ''/v1/participants/'' @ pid" by simp_all
  have serve: "manager_serve (leg_manager leg) ?q (bk_manager b) = routing (leg_manager leg) ?q (bk_manager b)"
    by (simp add: manager_serve_def)
  define m where "m = fst (routing (leg_manager leg) ?q (bk_manager b))"
  have resp: "routing (leg_manager leg) ?q (bk_manager b) = (m, JSON 200 (encode_participant p))"
    using routing_select [OF q assms(6,7,2), of "bk_manager b"] assms(3,4)
    by (simp add: m_def encode_create_row prod_eq_iff)
  have "backend_serve env cfg leg ?r b = (b\<lparr>bk_manager := m\<rparr>, Some (JSON 200 (encode_participant p)))"
    unfolding backend_serve_def path(1) serve resp Let_def prod.case using path(2) by (simp only: if_True)
  then have "backend_send env cfg ?r b = (b\<lparr>bk_manager := m, bk_hops := hs\<rparr>, Inr (JSON 200 (encode_participant p)))"
    unfolding backend_send_def assms(1) by simp
  then have "participant (mesh_operator env cfg) trace pid b = (b\<lparr>bk_manager := m, bk_hops := hs\<rparr>, Inr p)"
    using json_ok_encode_participant [OF assms(5)]
    by (simp add: participant_def send_request_def decode_encode_participant)
  moreover have "m_rows m = m_rows (bk_manager b)" by (simp add: m_def)
  ultimately show ?thesis by (intro exI [of _ m]) simp
qed

lemma ask_router_heard:
  assumes "bk_hops b = Heard leg # hs" "addresses_apart env"
    "Router.create cfg (leg_router leg) ((payment_request_to_router env key trace req)\<lparr>req_path := ''/internal/v1/payments''\<rparr>)
       (bk_router b) (bk_world b) = ((s, w), Some (JSON 200 (encode_payment p)))"
    "payment_text p" "trim_space (pay_ID p) \<noteq> []"
  shows "ask_router (mesh_operator env cfg) key trace req b = (b\<lparr>bk_hops := hs, bk_router := s, bk_world := w\<rparr>,
    Inr (p\<lparr>pay_IdempotencyKey := key, pay_Status := NormalizeStatus (pay_Status p)\<rparr>))"
proof -
  let ?r = "payment_request_to_router env key trace req"
  have path: "req_path ?r = router_url env @ ''/internal/v1/payments''" by (simp add: payment_request_to_router_def)
  have "backend_send env cfg ?r b = (b\<lparr>bk_router := s, bk_world := w, bk_hops := hs\<rparr>, Inr (JSON 200 (encode_payment p)))"
    unfolding backend_send_def assms(1)
    by (simp add: backend_serve_router [OF assms(2) path] router_serve_post assms(3))
  then show ?thesis
    using json_ok_encode_payment [OF assms(4)] assms(5)
    by (simp add: ask_router_def decode_encode_payment)
qed

section \<open>The router accepts what the operator sends\<close>

lemma validCurrency_upper:
  assumes "validCurrency c" shows "validCurrency (to_upper (trim_space c))"
proof -
  let ?c = "trim_space c"
  from assms have c: "length ?c = 3" "list_all is_letter ?c" by (simp_all add: validCurrency_def Let_def)
  then have a: "ascii ?c" by (auto simp: ascii_def list_all_iff is_letter_iff is_upper_def is_lower_def)
  have "is_letter (upper_byte x)" if "is_letter x" for x
    using that is_upper_upper_byte by (cases "is_lower x") (auto simp: is_letter_iff)
  with c a have "length (to_upper ?c) = 3" "list_all is_letter (to_upper ?c)"
    by (auto simp: to_upper_ascii list_all_iff)
  moreover have "trim_space (to_upper ?c) = to_upper ?c" by (simp add: trimmed_to_upper)
  ultimately show ?thesis by (simp add: validCurrency_def)
qed

lemma operator_request_accepted:
  assumes "order_checks sha r = Checked key hash req" "ValidInstrument (part_Instrument debtor)" "trace_only trace"
  shows "create_prologue sha' ((payment_request_to_router env key trace (internal_request req debtor))\<lparr>req_path := path\<rparr>) =
    Accept key (request_hashes sha' (internal_request req debtor)) (canonical_request (internal_request req debtor))"
proof -
  let ?internal = "internal_request req debtor"
  let ?r = "(payment_request_to_router env key trace ?internal)\<lparr>req_path := path\<rparr>"
  note chk = order_checks_Checked [OF assms(1)]
  have key: "trimmed key" "key \<noteq> []" "length key \<le> 255"
    using assms(1) by (auto simp: order_checks_def Let_def split: if_splits option.splits)
  have "request_key ?r = key" using request_key_assigned(1) [OF assms(3) key(1)] by simp
  then have k: "trim_space (header_get (req_header ?r) ''Idempotency-Key'') = key" by (simp add: request_key_def)
  have rt: "router_text ?internal"
    using chk ValidInstrument_utf8 [OF assms(2)] by (simp add: router_text_def public_text_def internal_request_def)
  have d: "Decode decode_router ?r = Some ?internal"
    by (rule Decode_router [OF rt]) (simp add: payment_request_to_router_def)
  have valid: "0 < pub_AmountMinor req" "validCurrency (pub_Currency req)" "trim_space (pub_DebtorParticipantID req) \<noteq> []"
    "trim_space (pub_CreditorParticipantID req) \<noteq> []" "trim_space (pub_Reference req) \<noteq> []"
    using chk by (auto simp: ValidateRequest_def split: if_splits)
  have "to_lower (trim_space (part_Instrument debtor)) = part_Instrument debtor"
    using assms(2) by (auto simp: ValidInstrument_def split: if_splits)
  then have "ValidateRouterRequest (canonical_request ?internal) = None"
    using valid validCurrency_upper [OF valid(2)] assms(2) by (simp add: ValidateRouterRequest_def internal_request_def)
  moreover have "req_method ?r = ''POST''" by (simp add: payment_request_to_router_def)
  ultimately show ?thesis using d k key by (simp add: create_prologue_def Let_def)
qed

section \<open>The whole mesh\<close>

lemma create_order_up:
  assumes "order_checks (rc_sha cfg) r = Checked key hash req" "oe_begin ev \<and> oe_lock ev \<and> oe_select ev \<and> oe_write ev \<and> oe_commit ev = Ok"
    "pg_text key" "order_by_key key (op_rows s) = None"
    "resolve_participants (mesh_operator env cfg) (TraceHeaders r) req b = (b1, Inr debtor)"
    "ask_router (mesh_operator env cfg) key (TraceHeaders r) (internal_request req debtor) b1 = (b2, Inr out)"
    "rc_uuid_in cfg (pay_ID out) = Some (pay_ID out)" "response_texts out" "\<forall>q \<in> set (op_rows s). ord_id q \<noteq> pay_ID out"
  shows "\<exists>s'. Operator.create (mesh_operator env cfg) ev r s b =
    ((s', b2), payment_answer (out\<lparr>pay_CreatedAt := rfc3339nano (oe_now ev)\<rparr>)) \<and>
    (\<exists>o'. order_by_key key (op_rows s') = Some o' \<and> ord_id o' = pay_ID out \<and> ord_status o' = pay_Status out \<and>
       coalesce (ord_provider_ref o') = pay_ProviderRef out)"
proof -
  let ?o = "\<lparr>ord_id = pay_ID out, ord_key = key, ord_hash = hash, ord_payment_id = Some (pay_ID out),
            ord_status = pay_Status out, ord_gateway = Some (pay_Gateway out),
            ord_provider_ref = Some (pay_ProviderRef out), ord_error = Some (pay_Error out), ord_created_at = oe_now ev\<rparr>"
  have no: "find (\<lambda>q. ord_key q = key) (op_rows s) = None" using assms(4) by (simp add: order_by_key_def)
  then have fresh: "\<forall>q \<in> set (op_rows s). ord_key q \<noteq> key" by (simp add: find_None_iff)
  have "insert_order (mesh_operator env cfg) (oe_now ev) key hash out (op_rows s) = Some (op_rows s @ [?o])"
    using assms(7-9) fresh by (auto simp: insert_order_def list_ex_iff)
  with assms(1-6) have "\<exists>s'. Operator.create (mesh_operator env cfg) ev r s b =
    ((s', b2), payment_answer (out\<lparr>pay_CreatedAt := rfc3339nano (oe_now ev)\<rparr>)) \<and> op_rows s' = op_rows s @ [?o]"
    by (simp add: Operator.create_def end_tx_def Let_def)
  then obtain s' where s': "Operator.create (mesh_operator env cfg) ev r s b =
    ((s', b2), payment_answer (out\<lparr>pay_CreatedAt := rfc3339nano (oe_now ev)\<rparr>))" "op_rows s' = op_rows s @ [?o]" by blast
  have "order_by_key key (op_rows s') = Some ?o" using no by (simp add: order_by_key_def s'(2) find_append)
  with s'(1) show ?thesis by (intro exI [of _ s']) (simp add: coalesce_def)
qed

end
