(* ===== verification/Mesh_Sample.thy ===== *)
theory Mesh_Sample
  imports Mesh_Liveness
begin

text \<open>
  The whole mesh on one concrete payment, from the public request to the books of the card
  gateway and back; the witnesses of the mesh properties use it.
\<close>

definition sample_public :: PublicPaymentRequest where
  "sample_public = \<lparr>pub_DebtorParticipantID = ''d'', pub_CreditorParticipantID = ''c'', pub_AmountMinor = 5,
     pub_Currency = ''COP'', pub_Reference = ''r''\<rparr>"

definition public_post :: http_request where
  "public_post = \<lparr>req_method = ''POST'', req_path = ''/v1/payments'', req_header = key_header ''k'',
     req_body = json_text (encode_public sample_public)\<rparr>"

definition sample_debtor :: Participant where
  "sample_debtor = \<lparr>part_ID = ''d'', part_Instrument = ''card'', part_Gateway = ''gateway-card'',
     part_Roles = [RoleDebtor], part_Active = True\<rparr>"

definition sample_creditor :: Participant where
  "sample_creditor = \<lparr>part_ID = ''c'', part_Instrument = ''card'', part_Gateway = ''gateway-card'',
     part_Roles = [RoleCreditor], part_Active = True\<rparr>"

definition no_env :: "string \<Rightarrow> string" where
  "no_env = (\<lambda>_. [])"

definition gateway_env :: "string \<Rightarrow> string" where
  "gateway_env k = (if k = ''GATEWAY_PAYMENT_TOKEN'' then ''t'' else if k = ''GATEWAY_STATE_FILE'' then ''f'' else [])"

definition sample_card :: CardAdapter where
  "sample_card = \<lparr>card_BaseURL = ''https://gateway-card:8443'', card_AuthToken = ''t''\<rparr>"

definition sample_bank :: BankAdapter where
  "sample_bank = \<lparr>bank_BaseURL = ''https://gateway-bank:8443'', bank_AuthToken = ''t''\<rparr>"

definition mesh_config :: "gateways router_config" where
  "mesh_config = \<lparr>rc_sha = (\<lambda>s. s), rc_uuid_in = (\<lambda>s. Some s), rc_env = no_env,
     rc_adapters = gateway_adapters sample_card sample_bank, rc_breakerEnabled = True\<rparr>"

definition gateway_ok :: gateway_event where
  "gateway_ok = \<lparr>ge_behavior = [], ge_cancelled = False, ge_nanos = 7, ge_disk = True\<rparr>"

definition leg_ok_event :: leg where
  "leg_ok_event = \<lparr>leg_router = good_event, leg_db = True,
     leg_manager = \<lparr>me_query = True, me_write = Ok, me_latency = 1\<rparr>\<rparr>"

definition sample_backend :: "gateways backend" where
  "sample_backend = \<lparr>bk_hops = [Heard leg_ok_event, Heard leg_ok_event, Heard leg_ok_event], bk_router = empty_router,
     bk_manager = \<lparr>m_rows = [create_row sample_debtor, create_row sample_creditor], m_metrics = zero_metrics\<rparr>,
     bk_world = (([Delivered gateway_ok], new_gateway gateway_env NoFile), ([], new_gateway gateway_env NoFile))\<rparr>"

definition operator_ok :: operator_event where
  "operator_ok = \<lparr>oe_begin = True, oe_lock = True, oe_select = True, oe_write = True, oe_commit = Ok, oe_update = Ok,
     oe_now = 3, oe_latency = 9\<rparr>"

definition sample_operator :: operator where
  "sample_operator = \<lparr>op_rows = [], op_metrics = zero_metrics\<rparr>"

section \<open>The state is a good one\<close>

lemma sample_tokens: "accepts_token (new_gateway gateway_env NoFile) ''t''"
proof -
  have "trim_space ''t'' = ''t''" by code_simp
  then show ?thesis by (simp add: accepts_token_def new_gateway_def gateway_env_def)
qed

lemma sample_gateways: "gateways_sound sample_card sample_bank (bk_world sample_backend)"
proof -
  have "statePath gateway_env \<noteq> []" by code_simp
  then have "durable (new_gateway gateway_env NoFile)" by (rule durable_new)
  with sample_tokens show ?thesis
    by (simp add: gateways_sound_def link_sound_def sample_backend_def sample_card_def sample_bank_def delivery_ok_def
        gateway_ok_def in_int64_def int64_min_def int64_max_def)
qed

lemma sample_uuid: "known_id (rc_uuid_in mesh_config) (newUUID bytes)"
  using newUUID_chars [of "CHR ''/''" bytes] by (auto simp: known_id_def mesh_config_def newUUID_def Let_def)

lemma sample_good: "backend_good (rc_uuid_in mesh_config) (gateways_sound sample_card sample_bank) on_books sample_backend"
  using sample_gateways sample_uuid
  by (simp add: backend_good_def) (simp add: sample_backend_def rows_good_def empty_router_def payments_inv_def hop_ok_def leg_ok_def)

lemma sample_linked: "orders_linked (bk_rows sample_backend) (op_rows sample_operator)"
  by (simp add: orders_linked_def sample_operator_def orders_inv_def)

lemma sample_apart: "addresses_apart no_env"
  by (simp add: addresses_apart_def participants_url_def router_url_def no_env_def)

section \<open>The run\<close>

lemma sample_letters:
  "utf8_valid ''k''" "utf8_valid ''d''" "utf8_valid ''c''" "utf8_valid ''r''" "utf8_valid ''COP''" "utf8_valid ''card''"
  "utf8_valid ''gateway-card''" "utf8_valid RoleDebtor" "utf8_valid RoleCreditor"
proof -
  have "list_all ascii [''k'', ''d'', ''c'', ''r'', ''COP'', ''card'', ''gateway-card'', RoleDebtor, RoleCreditor]" by code_simp
  then show "utf8_valid ''k''" "utf8_valid ''d''" "utf8_valid ''c''" "utf8_valid ''r''" "utf8_valid ''COP''" "utf8_valid ''card''"
    "utf8_valid ''gateway-card''" "utf8_valid RoleDebtor" "utf8_valid RoleCreditor"
    by (simp_all add: utf8_valid_ascii)
qed

lemma sample_trims: "trim_space ''k'' = ''k''" "trim_space ''d'' = ''d''" "trim_space ''c'' = ''c''" "trim_space ''r'' = ''r''"
  "validCurrency ''COP''"
  by code_simp+

lemma sample_order_checks:
  "order_checks (\<lambda>s. s) public_post = Checked ''k'' (json_text (encode_public sample_public)) sample_public"
proof -
  have t: "public_text sample_public"
    using sample_letters by (simp add: public_text_def sample_public_def in_int64_def int64_min_def int64_max_def)
  then have "in_int64 (pub_AmountMinor sample_public)" by (simp add: public_text_def)
  from decode_encode_public [OF this] decode_first_text [OF json_ok_encode_public [OF t], of "[]"]
  have "Decode decode_public public_post = Some sample_public" by (simp add: Decode_def public_post_def)
  moreover have "ValidateRequest sample_public = None" using sample_trims by (simp add: ValidateRequest_def sample_public_def)
  ultimately show ?thesis using sample_trims by (simp add: order_checks_def public_post_def RequestHash_def Let_def)
qed

lemma sample_internal: "internal_request sample_public sample_debtor = sample_request"
  by (simp add: internal_request_def sample_public_def sample_debtor_def sample_request_def)

lemma sample_participants:
  "\<exists>m. resolve_participants (mesh_operator no_env mesh_config) (TraceHeaders public_post) sample_public sample_backend =
    (sample_backend\<lparr>bk_hops := [Heard leg_ok_event], bk_manager := m\<rparr>, Inr sample_debtor)"
proof -
  have pt: "participant_text sample_debtor" "participant_text sample_creditor"
    using sample_letters by (simp_all add: participant_text_def sample_debtor_def sample_creditor_def)
  have pg: "pg_text ''d''" "pg_text ''c''" using sample_letters by (simp_all add: pg_text_def)
  have roles: "hasRole (part_Roles sample_debtor) RoleDebtor" "hasRole (part_Roles sample_creditor) RoleCreditor"
    by (code_simp)+
  let ?b0 = "sample_backend" and ?h2 = "[Heard leg_ok_event, Heard leg_ok_event]"
  have h0: "bk_hops ?b0 = Heard leg_ok_event # ?h2" by (simp add: sample_backend_def)
  have up: "me_query (leg_manager leg_ok_event)" by (simp add: leg_ok_event_def)
  have f0: "find (\<lambda>q. prow_id q = ''d'') (m_rows (bk_manager ?b0)) = Some (create_row sample_debtor)"
    "find (\<lambda>q. prow_id q = ''c'') (m_rows (bk_manager ?b0)) = Some (create_row sample_creditor)"
    by (simp_all add: sample_backend_def sample_debtor_def sample_creditor_def create_row_def)
  have act: "part_Active sample_debtor" "part_Active sample_creditor" by (simp_all add: sample_debtor_def sample_creditor_def)
  have ne: "''d'' \<noteq> ([] :: string)" "''c'' \<noteq> ([] :: string)" by simp_all
  from participant_heard [OF h0 up f0(1) act(1) pt(1) ne(1) pg(1), of no_env mesh_config "TraceHeaders public_post"]
  obtain m1 where m1: "m_rows m1 = m_rows (bk_manager ?b0)"
    "participant (mesh_operator no_env mesh_config) (TraceHeaders public_post) ''d'' ?b0 =
      (?b0\<lparr>bk_hops := ?h2, bk_manager := m1\<rparr>, Inr sample_debtor)" by blast
  let ?b = "?b0\<lparr>bk_hops := ?h2, bk_manager := m1\<rparr>"
  have h1: "bk_hops ?b = Heard leg_ok_event # [Heard leg_ok_event]" by simp
  have f1: "find (\<lambda>q. prow_id q = ''c'') (m_rows (bk_manager ?b)) = Some (create_row sample_creditor)"
    using f0(2) m1(1) by simp
  from participant_heard [OF h1 up f1 act(2) pt(2) ne(2) pg(2), of no_env mesh_config "TraceHeaders public_post"]
  obtain m2 where m2: "participant (mesh_operator no_env mesh_config) (TraceHeaders public_post) ''c'' ?b =
      (?b\<lparr>bk_hops := [Heard leg_ok_event], bk_manager := m2\<rparr>, Inr sample_creditor)" by blast
  have ids: "pub_DebtorParticipantID sample_public = ''d''" "pub_CreditorParticipantID sample_public = ''c''"
    by (simp_all add: sample_public_def)
  show ?thesis
    unfolding resolve_participants_def ids m1(2) prod.case sum.case by (simp add: m2 roles act) blast
qed

text \<open>The router's part: it reserves the payment, charges the card gateway and records the answer.\<close>

lemma sample_id: "trim_space (newUUID (replicate 16 0)) \<noteq> []" "pg_text (newUUID (replicate 16 0))"
  by code_simp+

lemma sample_ref: "pg_text (card_AuthorizationID (authorized_card 7))"
  by code_simp

lemma sample_router:
  "\<exists>s w. Router.create mesh_config good_event
      ((payment_request_to_router no_env ''k'' (TraceHeaders public_post) sample_request)\<lparr>req_path := path\<rparr>)
      empty_router (bk_world sample_backend) =
    ((s, w), Some (JSON 200 (encode_payment
      (first_payment good_event ''k'' ''gateway-card'' (card_AuthorizationID (authorized_card 7))))))"
proof -
  let ?r = "(payment_request_to_router no_env ''k'' (TraceHeaders public_post) sample_request)\<lparr>req_path := path\<rparr>"
  let ?id = "newUUID (re_random good_event)"
  have "ValidInstrument (part_Instrument sample_debtor)" by (simp add: ValidInstrument_iff sample_debtor_def)
  from operator_request_accepted [OF sample_order_checks this trace_only_TraceHeaders [of public_post],
      of "rc_sha mesh_config" path no_env]
  have pro: "create_prologue (rc_sha mesh_config) ?r = Accept ''k'' (request_hashes (\<lambda>s. s) sample_request) sample_request"
    by (simp add: sample_internal canonical_fixed) (simp add: mesh_config_def)
  have up: "router_up good_event" by (simp add: router_up_def good_event_def)
  have gw: "gatewayFor (rtr_Instrument sample_request) = ''gateway-card''" by (simp add: sample_request_def)
  have ins: "insert_payment (re_now good_event) ?id ''k'' (fst (request_hashes (\<lambda>s. s) sample_request)) sample_request
      (gatewayFor (rtr_Instrument sample_request)) (r_rows empty_router) = Some [sample_pending]"
    using sample_pg canonical_fixed [OF sample_canonical]
    by (simp add: request_hashes_def RequestHash_def Let_def)
      (simp add: good_event_def sample_request_def insert_payment_def empty_router_def sample_row_def sample_pending_def Let_def)
  let ?s = "empty_router\<lparr>r_rows := [sample_pending]\<rparr>"
  let ?f = "card_Charge (link (trim_right_chars ''/'' (card_BaseURL sample_card))) sample_card"
  have g: "gateway_up gateway_ok (new_gateway gateway_env NoFile)"
    by (simp add: gateway_up_def gateway_ok_def new_gateway_def gateway_env_def getenv_def in_int64_def int64_min_def int64_max_def)
  have n: "g_card (new_gateway gateway_env NoFile) ''k'' = None" by (simp add: new_gateway_def)
  have tok: "accepts_token (new_gateway gateway_env NoFile) (card_AuthToken sample_card)"
    using sample_tokens by (simp add: sample_card_def)
  have rt: "router_text sample_request" using sample_canonical by (simp add: canonical_def)
  have ne: "''k'' \<noteq> ([] :: string)" by simp
  from card_Charge_up [OF refl g n tok trace_only_TraceHeaders rt sample_letters(1) ne, of ?r "[]"] obtain g' where
    "?f (TraceHeaders ?r) sample_request ''k'' ([Delivered gateway_ok], new_gateway gateway_env NoFile) =
      (([], g'), provider_result ''SUCCEEDED'' (card_AuthorizationID (authorized_card (ge_nanos gateway_ok))) [])" by blast
  then have call: "card_side ?f (TraceHeaders ?r) sample_request ''k'' (bk_world sample_backend) =
      ((([], g'), snd (bk_world sample_backend)), provider_result ''SUCCEEDED'' (card_AuthorizationID (authorized_card 7)) [])"
    by (simp add: card_side_def sample_backend_def gateway_ok_def)
  have ad: "rc_adapters mesh_config ''gateway-card'' = Some (card_side ?f)" by (simp add: mesh_config_def gateway_adapters_def)
  have adm: "fst (charge_admit (rc_breakerEnabled mesh_config) (re_allow_at good_event) ''gateway-card'' (r_circuits ?s))"
    by (simp add: charge_admit_def empty_router_def main_circuits_def Allow_def NewCircuit_def good_event_def)
  from charge_up [OF adm ad call] obtain s1 where
    ch: "charge mesh_config good_event ?r sample_request ''k'' (gatewayFor (rtr_Instrument sample_request)) ?s (bk_world sample_backend) =
      ((s1, (([], g'), snd (bk_world sample_backend))),
       Some (zero_payment\<lparr>pay_Status := ''SUCCEEDED'', pay_ProviderRef := card_AuthorizationID (authorized_card 7)\<rparr>))"
    unfolding gw by blast
  have none: "select_by_key ''k'' (r_rows empty_router) = None" by (simp add: empty_router_def select_by_key_def)
  have pk: "pg_text ''k''" using sample_pg by simp
  from create_up [OF pro up pk none ins ch sample_ref payments_inv_empty] show ?thesis unfolding gw by blast
qed

text \<open>The operator's part: it records the order and answers SUCCEEDED.\<close>

lemma sample_answer:
  "payment_text (first_payment good_event ''k'' ''gateway-card'' (card_AuthorizationID (authorized_card 7)))"
  "response_texts ((first_payment good_event ''k'' ''gateway-card'' (card_AuthorizationID (authorized_card 7)))
     \<lparr>pay_IdempotencyKey := ''k'', pay_Status := ''SUCCEEDED''\<rparr>)"
proof -
  let ?result = "zero_payment\<lparr>pay_Status := ''SUCCEEDED'', pay_ProviderRef := card_AuthorizationID (authorized_card 7)\<rparr>"
  have n: "normalized ?result = ?result" by (simp add: normalized_def)
  have t: "utf8_valid (card_AuthorizationID (authorized_card 7))" using sample_ref by (simp add: pg_text_def)
  have e: "utf8_valid []" by code_simp
  from finish_text [of "newUUID (re_random good_event)" "''k''" "''gateway-card''" ?result "re_now good_event" True,
      unfolded announced_def n]
  show "payment_text (first_payment good_event ''k'' ''gateway-card'' (card_AuthorizationID (authorized_card 7)))"
    using newUUID_text sample_letters t e by (simp add: first_payment_def) (simp add: zero_payment_def)
  have "pg_text []" "pg_text ''gateway-card''" by code_simp+
  then show "response_texts ((first_payment good_event ''k'' ''gateway-card'' (card_AuthorizationID (authorized_card 7)))
     \<lparr>pay_IdempotencyKey := ''k'', pay_Status := ''SUCCEEDED''\<rparr>)"
    using sample_ref by (simp add: response_texts_def first_payment_def finish_def with_created_def zero_payment_def)
qed

lemma sample_serve:
  "\<exists>s b p. operator_serve (mesh_operator no_env mesh_config) operator_ok public_post sample_operator sample_backend =
     ((s, b), payment_answer p) \<and> pay_Status p = ''SUCCEEDED'' \<and>
     (\<exists>o'. order_by_key ''k'' (op_rows s) = Some o' \<and> ord_status o' = ''SUCCEEDED'')"
proof -
  let ?p = "first_payment good_event ''k'' ''gateway-card'' (card_AuthorizationID (authorized_card 7))"
  let ?out = "?p\<lparr>pay_IdempotencyKey := ''k'', pay_Status := NormalizeStatus (pay_Status ?p)\<rparr>"
  have st: "pay_Status ?p = ''SUCCEEDED''" "pay_ID ?p = newUUID (re_random good_event)"
    by (simp_all add: first_payment_def finish_def with_created_def zero_payment_def)
  have norm: "NormalizeStatus ''SUCCEEDED'' = ''SUCCEEDED''" by (simp add: NormalizeStatus_def)
  obtain m where m: "resolve_participants (mesh_operator no_env mesh_config) (TraceHeaders public_post) sample_public sample_backend =
    (sample_backend\<lparr>bk_hops := [Heard leg_ok_event], bk_manager := m\<rparr>, Inr sample_debtor)" (is "_ = (?b1, _)")
    using sample_participants by blast
  obtain s w where r: "Router.create mesh_config good_event
      ((payment_request_to_router no_env ''k'' (TraceHeaders public_post) sample_request)\<lparr>req_path := ''/internal/v1/payments''\<rparr>)
      empty_router (bk_world sample_backend) = ((s, w), Some (JSON 200 (encode_payment ?p)))"
    using sample_router by blast
  have h: "bk_hops ?b1 = Heard leg_ok_event # []" by simp
  have r': "Router.create mesh_config (leg_router leg_ok_event)
      ((payment_request_to_router no_env ''k'' (TraceHeaders public_post) sample_request)\<lparr>req_path := ''/internal/v1/payments''\<rparr>)
      (bk_router ?b1) (bk_world ?b1) = ((s, w), Some (JSON 200 (encode_payment ?p)))"
    using r by (simp add: leg_ok_event_def) (simp add: sample_backend_def)
  have id: "trim_space (pay_ID ?p) \<noteq> []" using sample_id unfolding st by (simp add: good_event_def)
  note ask = ask_router_heard [OF h sample_apart r' sample_answer(1) id]
  have ok: "oe_begin operator_ok \<and> oe_lock operator_ok \<and> oe_select operator_ok \<and> oe_write operator_ok \<and> oe_commit operator_ok = Ok"
    by (simp add: operator_ok_def)
  have chk: "order_checks (rc_sha mesh_config) public_post = Checked ''k'' (json_text (encode_public sample_public)) sample_public"
    using sample_order_checks by (simp add: mesh_config_def)
  have pk: "pg_text ''k''" using sample_pg by simp
  have none: "order_by_key ''k'' (op_rows sample_operator) = None" "\<forall>q \<in> set (op_rows sample_operator). ord_id q \<noteq> pay_ID ?out"
    by (simp_all add: sample_operator_def order_by_key_def)
  have uuid: "rc_uuid_in mesh_config (pay_ID ?out) = Some (pay_ID ?out)" by (simp add: mesh_config_def)
  have texts: "response_texts ?out" using sample_answer(2) by (simp only: st norm)
  from create_order_up [OF chk ok pk none(1) m ask [folded sample_internal] uuid texts none(2)] obtain s' b2 where
    c: "Operator.create (mesh_operator no_env mesh_config) operator_ok public_post sample_operator sample_backend =
      ((s', b2), payment_answer (?out\<lparr>pay_CreatedAt := rfc3339nano (oe_now operator_ok)\<rparr>))" and
    o: "\<exists>o'. order_by_key ''k'' (op_rows s') = Some o' \<and> ord_status o' = pay_Status ?out" by blast
  have "operator_serve (mesh_operator no_env mesh_config) operator_ok public_post sample_operator sample_backend =
      Operator.create (mesh_operator no_env mesh_config) operator_ok public_post sample_operator sample_backend"
    by (simp add: operator_serve_def public_post_def)
  with c o st norm show ?thesis by (intro exI [of _ s'] exI [of _ b2] exI [of _ "?out\<lparr>pay_CreatedAt := rfc3339nano (oe_now operator_ok)\<rparr>"]) simp
qed

lemma sample_mesh:
  "\<exists>s b p. mesh_run no_env mesh_config [(operator_ok, public_post)] (sample_operator, sample_backend) =
     ((s, b), [payment_answer p]) \<and> pay_Status p = ''SUCCEEDED'' \<and>
     (\<exists>o'. order_by_key ''k'' (op_rows s) = Some o' \<and> terminal (ord_status o'))"
  using sample_serve by (fastforce simp: terminal_def)

section \<open>A gateway that is restarted between two requests of one key\<close>

lemma sample_gateway_run:
  "\<exists>g. gw_run (new_gateway gateway_env NoFile) [SawCard ''k'' (authorized_card 7), SawNothing, SawCard ''k'' (authorized_card 7)] g"
proof -
  let ?g = "new_gateway gateway_env NoFile"
  have up: "gateway_up gateway_ok ?g"
    by (simp add: gateway_up_def gateway_ok_def new_gateway_def gateway_env_def getenv_def in_int64_def int64_min_def int64_max_def)
  have none: "g_card ?g ''k'' = None" by (simp add: new_gateway_def)
  from card_commit_up [OF up none refl] obtain g1 where
    c: "card_commit (read_behavior ?g gateway_ok) ''k'' ?g = (g1, Answer (authorized_card 7))" by (auto simp: gateway_ok_def)
  have ev: "in_int64 (ge_nanos (read_behavior ?g gateway_ok))"
    by (simp add: gateway_ok_def in_int64_def int64_min_def int64_max_def)
  have s1: "gw_step ?g (SawCard ''k'' (authorized_card 7)) g1" by (rule card_answer [OF ev c])
  have "statePath gateway_env \<noteq> []" by code_simp
  then have "durable g1" using gw_step_durable [OF s1] durable_new by blast
  moreover have "g_card g1 ''k'' = Some (authorized_card 7)"
    using gw_step_remembers [OF s1] durable_new \<open>statePath gateway_env \<noteq> []\<close> by (simp add: remembers_def)
  ultimately obtain g2 where g2: "restart g1 = Some g2" "g_card g2 ''k'' = Some (authorized_card 7)" using restart_durable by fastforce
  have "gw_step g2 (SawCard ''k'' (authorized_card 7)) (count_attempt g2)"
    by (rule card_hit) (simp add: card_lookup_def g2(2))
  from run_more [OF run_more [OF run_more [OF run_done s1] restarts [OF g2(1)]] this] show ?thesis by auto
qed

text \<open>A charge whose answer is lost, and its repetition.\<close>

lemma sample_link_facts:
  "list_all delivery_ok [LostAnswer gateway_ok, Delivered gateway_ok]"
  "list_all attempt_ok [(Map.empty, sample_request, ''k''), (Map.empty, sample_request, ''k'')]"
  "accepts_token (new_gateway gateway_env NoFile) (card_AuthToken sample_card)"
  "accepts_token (new_gateway gateway_env NoFile) (bank_AuthToken sample_bank)"
  "durable (new_gateway gateway_env NoFile)"
proof -
  show "list_all delivery_ok [LostAnswer gateway_ok, Delivered gateway_ok]"
    by (simp add: delivery_ok_def gateway_ok_def in_int64_def int64_min_def int64_max_def)
  show "list_all attempt_ok [(Map.empty, sample_request, ''k''), (Map.empty, sample_request, ''k'')]"
    using sample_canonical sample_letters(1) by (simp add: attempt_ok_def trace_only_def canonical_def)
  show "accepts_token (new_gateway gateway_env NoFile) (card_AuthToken sample_card)"
    "accepts_token (new_gateway gateway_env NoFile) (bank_AuthToken sample_bank)"
    using sample_tokens by (simp_all add: sample_card_def sample_bank_def)
  have "statePath gateway_env \<noteq> []" by code_simp
  then show "durable (new_gateway gateway_env NoFile)" by (rule durable_new)
qed

end
