(* ===== verification/Overtaken_Read.thy ===== *)
theory Overtaken_Read
  imports Operator_Runs Mesh_Sample
begin

text \<open>
  A read that is overtaken: it hears PENDING, another read hears and records SUCCEEDED, and then
  the first one writes what it heard over the decided order. Also a run of the whole mesh in
  which a payment is made with a read under way.
\<close>

definition seen_as :: "string \<Rightarrow> PaymentResponse" where
  "seen_as st = \<lparr>pay_ID = ''p'', pay_IdempotencyKey = ''k'', pay_Status = st, pay_Gateway = ''gateway-card'',
     pay_ProviderRef = ''ref'', pay_Error = [], pay_CreatedAt = ''t''\<rparr>"

text \<open>A router that answers PENDING to the first question and SUCCEEDED afterwards.\<close>

definition deciding_router :: "nat operator_config" where
  "deciding_router = \<lparr>oc_sha = (\<lambda>s. s), oc_uuid_in = Some, oc_env = no_env,
     oc_net = \<lparr>net_url_error = (\<lambda>_. None), net_send = (\<lambda>_ n. (Suc n,
       Inr (JSON 200 (encode_payment (seen_as (if n = 0 then ''PENDING'' else ''SUCCEEDED''))))))\<rparr>\<rparr>"

definition public_get :: http_request where
  "public_get = \<lparr>req_method = ''GET'', req_path = ''/v1/payments/p'', req_header = Map.empty, req_body = []\<rparr>"

lemma public_get_id: "trim_prefix ''/v1/payments/'' (req_path public_get) = ''p''"
  by code_simp

lemma deciding_fetch:
  "fetchRouter deciding_router pid trace n =
     (Suc n, Some \<lparr>rl_payment = seen_as (if n = 0 then ''PENDING'' else ''SUCCEEDED''), rl_request = zero_router\<rparr>)"
proof -
  have ok: "json_ok (encode_payment (seen_as ''PENDING''))" "json_ok (encode_payment (seen_as ''SUCCEEDED''))"
    by code_simp+
  have "trim_space ''p'' = ''p''" by code_simp
  with ok show ?thesis
    by (simp add: fetchRouter_def send_request_def deciding_router_def decode_lookup_payment on_payment_def Let_def)
      (simp add: seen_as_def)
qed

text \<open>The order, and the tasks of a read of it.\<close>

definition order_in :: "string \<Rightarrow> order_row" where
  "order_in st = \<lparr>ord_id = ''p'', ord_key = ''k'', ord_hash = [], ord_payment_id = Some ''p'', ord_status = st,
     ord_gateway = Some ''gateway-card'', ord_provider_ref = Some ''ref'', ord_error = Some [], ord_created_at = 0\<rparr>"

lemma deciding_arrive:
  "arrive deciding_router operator_ok public_get [order_in st] = [Reading (order_in st) (TraceHeaders public_get)]"
proof -
  have "req_method public_get = ''GET''" "req_path public_get = ''/v1/payments/p''" "oe_select operator_ok" "oc_uuid_in deciding_router x = Some x" for x
    by (simp_all add: public_get_def operator_ok_def deciding_router_def)
  then show ?thesis
    using public_get_id by (simp add: arrive_def arrive_get_def order_by_id_def) (simp add: order_in_def coalesce_def)
qed

lemma deciding_read:
  "advance deciding_router ev (Reading (order_in st) trace) ords n =
     (ords, Suc n, [Reconciling ''p'' (seen_as (if n = 0 then ''PENDING'' else ''SUCCEEDED''))])"
  by (simp add: deciding_fetch read_payment_def seen_payment_def) (simp add: seen_as_def order_in_def)

lemma deciding_write:
  "advance deciding_router operator_ok (Reconciling ''p'' (seen_as st)) [order_in st'] n = ([order_in st], n, [])"
proof -
  have "pg_text ''gateway-card''" "pg_text ''ref''" "pg_text []" by code_simp+
  then have "response_texts (seen_as st)" by (simp add: response_texts_def seen_as_def)
  moreover have "oe_update operator_ok = Ok" by (simp add: operator_ok_def)
  ultimately show ?thesis
    by (simp add: reconcile_order_def) (simp add: order_in_def seen_as_def table_simps)
qed

text \<open>The steps of the two reads, whatever else is under way.\<close>

lemma deciding_arrives:
  "op_step deciding_router ([order_in st], n, ts) ([order_in st], n, Reading (order_in st) (TraceHeaders public_get) # ts)"
  using op_arrive [of deciding_router "[order_in st]" n ts operator_ok public_get] by (simp add: deciding_arrive)

lemma deciding_hears:
  "op_step deciding_router (ords, n, Reading (order_in st) trace # ts)
     (ords, Suc n, Reconciling ''p'' (seen_as (if n = 0 then ''PENDING'' else ''SUCCEEDED'')) # ts)"
  using op_advance [of "Reading (order_in st) trace" "Reading (order_in st) trace # ts", OF _ deciding_read] by simp

lemma deciding_records:
  "op_step deciding_router ([order_in st'], n, Reconciling ''p'' (seen_as st) # ts) ([order_in st], n, ts)"
  using op_advance [of "Reconciling ''p'' (seen_as st)" "Reconciling ''p'' (seen_as st) # ts", OF _ deciding_write] by simp

lemma overtaking:
  "\<exists>ts. op_run deciding_router ([order_in ''PENDING''], 0, []) ([order_in ''SUCCEEDED''], 2, ts) \<and>
     op_step deciding_router ([order_in ''SUCCEEDED''], 2, ts) ([order_in ''PENDING''], 2, [])"
proof -
  let ?pending = "[order_in ''PENDING'']" and ?late = "Reconciling ''p'' (seen_as ''PENDING'')"
  let ?next = "Reading (order_in ''PENDING'') (TraceHeaders public_get)"
  have "op_run deciding_router (?pending, 0, []) (?pending, 0, [?next])"
    using op_next [OF op_start deciding_arrives [of "''PENDING''" 0 "[]"]] .
  from op_next [OF this deciding_hears]
  have "op_run deciding_router (?pending, 0, []) (?pending, 1, [?late])" by simp
  from op_next [OF op_next [OF this deciding_arrives] deciding_hears]
  have "op_run deciding_router (?pending, 0, []) (?pending, 2, [Reconciling ''p'' (seen_as ''SUCCEEDED''), ?late])"
    by (simp add: numeral_2_eq_2)
  from op_next [OF this deciding_records] deciding_records [of "''SUCCEEDED''" 2 "''PENDING''" "[]"] show ?thesis by blast
qed

section \<open>A run of the whole mesh\<close>

lemma sample_orders_run:
  "\<exists>ords b ts o'. op_run (mesh_operator no_env mesh_config) (op_rows sample_operator, sample_backend, []) (ords, b, ts) \<and>
     order_by_key ''k'' ords = Some o' \<and> terminal (ord_status o')"
proof -
  obtain s b p where run: "operator_serve (mesh_operator no_env mesh_config) operator_ok public_post sample_operator sample_backend =
      ((s, b), payment_answer p)" and o': "\<exists>o'. order_by_key ''k'' (op_rows s) = Some o' \<and> terminal (ord_status o')"
    using sample_serve by (fastforce simp: terminal_def)
  from serve_run [OF run] o' show ?thesis by blast
qed

end
