(* ===== verification/Router_Runs.thy ===== *)
theory Router_Runs
  imports Router_Facts Ledger
begin

text \<open>
  The router under concurrency: any number of requests, on any number of replicas, sharing
  one database. A request holds the advisory lock of its key on its own database session and
  runs its statements on that session, so a statement takes effect only while the lock is
  held; a session may break and a process may die at any moment. The provider call happens
  outside any transaction. \<open>slot\<close> is the lock a key maps to (\<open>hashtext\<close>), which keys may
  share.
\<close>

interpretation payments: ledger select_by_key "\<lambda>r. terminal (row_status r)" table_evolves
proof unfold_locales
  show "table_evolves d e \<Longrightarrow> table_evolves e f \<Longrightarrow> table_evolves d f" for d e f by (rule table_evolves_trans)
qed (auto simp: table_evolves_def row_evolves_def)

section \<open>States, steps and runs\<close>

datatype phase =
    Idle
  | Waiting string "string \<times> string \<times> string" RouterPaymentRequest
  | Holding string "string \<times> string \<times> string" RouterPaymentRequest
  | Charging string string string int int
  | Charged string string string int int PaymentResponse

record 'h system =
  sys_rows :: "payment_row list"
  sys_phase :: "nat \<Rightarrow> phase"
  sys_lock :: "'h \<Rightarrow> nat option"

datatype robs = Quiet | Called string | Answered string http_response

definition set_phase :: "nat \<Rightarrow> phase \<Rightarrow> 'h system \<Rightarrow> 'h system" where
  "set_phase t ph S = S\<lparr>sys_phase := (sys_phase S)(t := ph)\<rparr>"

text \<open>A session ends: whatever lock it held is free.\<close>

definition free_locks :: "nat \<Rightarrow> 'h system \<Rightarrow> 'h system" where
  "free_locks t S = S\<lparr>sys_lock := (\<lambda>h. if sys_lock S h = Some t then None else sys_lock S h)\<rparr>"

definition leave :: "nat \<Rightarrow> 'h system \<Rightarrow> 'h system" where
  "leave t S = set_phase t Idle (free_locks t S)"

inductive rstep :: "(string \<Rightarrow> 'h) \<Rightarrow> (string \<Rightarrow> string) \<Rightarrow> int \<Rightarrow> 'h system \<Rightarrow> robs \<Rightarrow> 'h system \<Rightarrow> bool"
  for slot sha recovery where
  arrive: "sys_phase S t = Idle \<Longrightarrow> create_prologue sha r = Accept key hashes req \<Longrightarrow>
    rstep slot sha recovery S Quiet (set_phase t (Waiting key hashes req) S)"
| lock: "sys_phase S t = Waiting key hashes req \<Longrightarrow> sys_lock S (slot key) = None \<Longrightarrow> pg_text key \<Longrightarrow>
    rstep slot sha recovery S Quiet
      (set_phase t (Holding key hashes req) (S\<lparr>sys_lock := (sys_lock S)(slot key := Some t)\<rparr>))"
| refuse: "sys_phase S t = Holding key hashes req \<Longrightarrow> sys_lock S (slot key) = Some t \<Longrightarrow>
    reserve recovery ev key hashes req (sys_rows S) = (Refuse st m, rows) \<Longrightarrow>
    rstep slot sha recovery S (Answered key (JSON st (error_body m))) (leave t (S\<lparr>sys_rows := rows\<rparr>))"
| replay: "sys_phase S t = Holding key hashes req \<Longrightarrow> sys_lock S (slot key) = Some t \<Longrightarrow>
    reserve recovery ev key hashes req (sys_rows S) = (Replay p, rows) \<Longrightarrow>
    rstep slot sha recovery S (Answered key (JSON (StatusCode (pay_Status p)) (encode_payment p)))
      (leave t (S\<lparr>sys_rows := rows\<rparr>))"
| reserved: "sys_phase S t = Holding key hashes req \<Longrightarrow> sys_lock S (slot key) = Some t \<Longrightarrow>
    reserve recovery ev key hashes req (sys_rows S) = (Reserved pid gw created lease, rows) \<Longrightarrow>
    rstep slot sha recovery S Quiet (set_phase t (Charging key pid gw created lease) (S\<lparr>sys_rows := rows\<rparr>))"
| breaker_open: "sys_phase S t = Charging key pid gw created lease \<Longrightarrow>
    rstep slot sha recovery S Quiet
      (set_phase t (Charged key pid gw created lease (pending_result [] ''gateway circuit open'')) S)"
| provider_call: "sys_phase S t = Charging key pid gw created lease \<Longrightarrow>
    rstep slot sha recovery S (Called key) (set_phase t (Charged key pid gw created lease result) S)"
| record_result: "sys_phase S t = Charged key pid gw created lease result \<Longrightarrow> sys_lock S (slot key) = Some t \<Longrightarrow>
    persistResultConn ev pid (normalized result) lease (sys_rows S) = (ok, rows) \<Longrightarrow>
    rstep slot sha recovery S
      (Answered key (JSON (StatusCode (pay_Status (announced ok result)))
        (encode_payment (finish pid key gw created (announced ok result)))))
      (leave t (S\<lparr>sys_rows := rows\<rparr>))"
| session_gone: "sys_phase S t = Charged key pid gw created lease result \<Longrightarrow> sys_lock S (slot key) \<noteq> Some t \<Longrightarrow>
    rstep slot sha recovery S
      (Answered key (JSON (StatusCode (pay_Status (announced False result)))
        (encode_payment (finish pid key gw created (announced False result))))) (leave t S)"
| give_up: "sys_phase S t = Waiting key hashes req \<or> sys_phase S t = Holding key hashes req \<Longrightarrow>
    rstep slot sha recovery S (Answered key (JSON 500 (error_body m))) (leave t S)"
| session_breaks: "rstep slot sha recovery S Quiet (free_locks t S)"
| process_dies: "rstep slot sha recovery S Quiet (leave t S)"

inductive rrun :: "(string \<Rightarrow> 'h) \<Rightarrow> (string \<Rightarrow> string) \<Rightarrow> int \<Rightarrow> 'h system \<Rightarrow> robs list \<Rightarrow> 'h system \<Rightarrow> bool"
  for slot sha recovery where
  rrun_start: "rrun slot sha recovery S [] S"
| rrun_next: "rrun slot sha recovery S obs S' \<Longrightarrow> rstep slot sha recovery S' ob S'' \<Longrightarrow>
    rrun slot sha recovery S (obs @ [ob]) S''"

definition idle_system :: "payment_row list \<Rightarrow> 'h system" where
  "idle_system rows = \<lparr>sys_rows = rows, sys_phase = (\<lambda>_. Idle), sys_lock = (\<lambda>_. None)\<rparr>"

lemma system_updates [simp]:
  "sys_rows (set_phase t ph S) = sys_rows S" "sys_lock (set_phase t ph S) = sys_lock S"
  "sys_phase (set_phase t ph S) = (sys_phase S)(t := ph)"
  "sys_rows (free_locks t S) = sys_rows S" "sys_phase (free_locks t S) = sys_phase S"
  "sys_lock (free_locks t S) h = Some u \<longleftrightarrow> sys_lock S h = Some u \<and> u \<noteq> t"
  "sys_rows (leave t S) = sys_rows S" "sys_phase (leave t S) = (sys_phase S)(t := Idle)"
  "sys_lock (leave t S) h = Some u \<longleftrightarrow> sys_lock S h = Some u \<and> u \<noteq> t"
  by (auto simp: set_phase_def free_locks_def leave_def)

section \<open>A request touches the row of its key only\<close>

lemma update_other_key:
  assumes "payments_inv rows" "select_by_key key rows = Some row" "k \<noteq> key"
    "\<And>r. p r \<Longrightarrow> row_id r = row_id row" "\<And>r. row_key (f r) = row_key r"
  shows "select_by_key k (update_where p f rows) = select_by_key k rows"
proof -
  have "\<not> p r" if "select_by_key k rows = Some r" for r
  proof
    assume "p r"
    then have "r = row" using assms(1,2,4) that
      by (auto simp: payments_inv_def dest!: select_by_keyD dest: distinct_key_eq [of row_id])
    with that assms(2,3) show False by (auto dest: select_by_keyD)
  qed
  then show ?thesis by (cases "select_by_key k rows") (auto simp: select_update assms(5))
qed

lemma claim_other_key:
  assumes "payments_inv rows" "select_by_key key rows = Some row" "k \<noteq> key"
    "claim_pending now (row_id row) rows = (res, rows')"
  shows "select_by_key k rows' = select_by_key k rows"
proof -
  let ?p = "\<lambda>r. row_id r = row_id row \<and> row_status r = ''PENDING''"
  let ?f = "\<lambda>r. r\<lparr>row_error := Some ''recovering payment'', row_updated_at := now\<rparr>"
  have "rows' = update_where ?p ?f rows" using assms(4) by (simp add: claim_pending_def Let_def)
  then show ?thesis using update_other_key [OF assms(1-3), of ?p ?f] by simp
qed

lemma insert_other_key:
  "insert_payment now pid key hash req gw rows = Some rows' \<Longrightarrow> k \<noteq> key \<Longrightarrow> select_by_key k rows' = select_by_key k rows"
  by (auto dest!: insert_payment_Some simp: select_by_key_def find_append split: option.splits)

lemma reserve_other_key:
  assumes "reserve recovery ev key hashes req rows = (res, rows')" "payments_inv rows" "k \<noteq> key"
  shows "select_by_key k rows' = select_by_key k rows"
  using assms claim_other_key [OF assms(2) _ assms(3)] insert_other_key
  by (auto simp: reserve_def Let_def split: prod.splits if_splits option.splits dest!: committed_rows)

lemma persist_other_key:
  assumes "persistResultConn ev pid result lease rows = (ok, rows')" "payments_inv rows"
    "select_by_key key rows = Some row" "row_id row = pid" "k \<noteq> key"
  shows "select_by_key k rows' = select_by_key k rows"
proof -
  have "rows' = rows \<or> (\<exists>result. rows' = update_result (re_persist_now ev) pid lease result rows)"
    using assms(1) by (auto simp: persistResultConn_def Let_def split: if_splits)
  moreover have "select_by_key k (update_where (lease_held pid lease) (settle now result) rows) = select_by_key k rows"
    for now result using assms(4) by (intro update_other_key [OF assms(2,3,5)]) (auto simp: lease_held_def)
  ultimately show ?thesis by (auto simp: update_result_def)
qed

section \<open>The invariant of the system\<close>

text \<open>
  A thread in the course of a charge has a row reserved for its key; as long as its session
  holds the lock, the row is PENDING and carries the lease of the thread.
\<close>

definition charging_ok ::
  "(string \<Rightarrow> 'h) \<Rightarrow> payment_row list \<Rightarrow> ('h \<Rightarrow> nat option) \<Rightarrow> nat \<Rightarrow> string \<Rightarrow> string \<Rightarrow> string \<Rightarrow> int \<Rightarrow> int \<Rightarrow> bool" where
  "charging_ok slot rows lock t key pid gw created lease \<longleftrightarrow> (\<forall>h. lock h = Some t \<longrightarrow> h = slot key) \<and>
     (\<exists>row. select_by_key key rows = Some row \<and> row_id row = pid \<and> row_gateway row = gw \<and>
        row_created_at row = created \<and>
        (lock (slot key) = Some t \<longrightarrow> row_status row = ''PENDING'' \<and> row_updated_at row = lease))"

fun thread_ok :: "(string \<Rightarrow> 'h) \<Rightarrow> payment_row list \<Rightarrow> ('h \<Rightarrow> nat option) \<Rightarrow> nat \<Rightarrow> phase \<Rightarrow> bool" where
  "thread_ok slot rows lock t Idle \<longleftrightarrow> (\<forall>h. lock h \<noteq> Some t)"
| "thread_ok slot rows lock t (Waiting key hashes req) \<longleftrightarrow> canonical req \<and> (\<forall>h. lock h \<noteq> Some t)"
| "thread_ok slot rows lock t (Holding key hashes req) \<longleftrightarrow> canonical req \<and> (\<forall>h. lock h = Some t \<longrightarrow> h = slot key)"
| "thread_ok slot rows lock t (Charging key pid gw created lease) \<longleftrightarrow>
     charging_ok slot rows lock t key pid gw created lease"
| "thread_ok slot rows lock t (Charged key pid gw created lease result) \<longleftrightarrow>
     charging_ok slot rows lock t key pid gw created lease"

definition sys_inv :: "(string \<Rightarrow> 'h) \<Rightarrow> 'h system \<Rightarrow> bool" where
  "sys_inv slot S \<longleftrightarrow> payments_inv (sys_rows S) \<and>
     (\<forall>t. thread_ok slot (sys_rows S) (sys_lock S) t (sys_phase S t))"

lemma charging_okE:
  assumes "charging_ok slot rows lock t key pid gw created lease"
  obtains row where "\<forall>h. lock h = Some t \<longrightarrow> h = slot key" "select_by_key key rows = Some row" "row_id row = pid"
    "row_gateway row = gw" "row_created_at row = created"
    "lock (slot key) = Some t \<longrightarrow> row_status row = ''PENDING'' \<and> row_updated_at row = lease"
  using assms unfolding charging_ok_def by blast

lemma sys_inv_idle: "payments_inv rows \<Longrightarrow> sys_inv slot (idle_system rows)"
  by (simp add: sys_inv_def idle_system_def)

lemma thread_ok_locks:
  assumes "thread_ok slot rows lock u ph" "\<And>h. lock' h = Some u \<Longrightarrow> lock h = Some u"
  shows "thread_ok slot rows lock' u ph"
proof -
  have "charging_ok slot rows lock' u key pid gw created lease" if "charging_ok slot rows lock u key pid gw created lease"
    for key pid gw created lease
  proof (rule charging_okE [OF that])
    fix row assume "\<forall>h. lock h = Some u \<longrightarrow> h = slot key" "select_by_key key rows = Some row" "row_id row = pid"
      "row_gateway row = gw" "row_created_at row = created"
      "lock (slot key) = Some u \<longrightarrow> row_status row = ''PENDING'' \<and> row_updated_at row = lease"
    then show ?thesis using assms(2) unfolding charging_ok_def by (intro conjI exI [of _ row]) simp_all
  qed
  moreover have "\<forall>h. lock' h = Some u \<longrightarrow> h = s" if "\<forall>h. lock h = Some u \<longrightarrow> h = s" for s using that assms(2) by simp
  moreover have "lock' h \<noteq> Some u" if "\<forall>h. lock h \<noteq> Some u" for h using that assms(2) by blast
  ultimately show ?thesis using assms(1) by (cases ph) simp_all
qed

lemma thread_ok_rows:
  assumes "thread_ok slot rows lock u ph" "table_evolves rows rows'"
    "\<And>k. lock (slot k) = Some u \<Longrightarrow> select_by_key k rows' = select_by_key k rows"
  shows "thread_ok slot rows' lock u ph"
proof -
  have "charging_ok slot rows' lock u key pid gw created lease" if ok: "charging_ok slot rows lock u key pid gw created lease"
    for key pid gw created lease
  proof -
    obtain row where slot: "\<forall>h. lock h = Some u \<longrightarrow> h = slot key" and row: "select_by_key key rows = Some row"
      "row_id row = pid" "row_gateway row = gw" "row_created_at row = created"
      "lock (slot key) = Some u \<longrightarrow> row_status row = ''PENDING'' \<and> row_updated_at row = lease"
      using ok by (rule charging_okE)
    from row(1) assms(2) obtain row' where row': "select_by_key key rows' = Some row'" "frozen row' = frozen row"
      unfolding table_evolves_def row_evolves_def by blast
    then have "lock (slot key) = Some u \<longrightarrow> row' = row" using assms(3) [of key] row(1) by simp
    with row(2-5) row'(1) frozen_eqD [OF row'(2)]
    have "select_by_key key rows' = Some row' \<and> row_id row' = pid \<and> row_gateway row' = gw \<and> row_created_at row' = created \<and>
      (lock (slot key) = Some u \<longrightarrow> row_status row' = ''PENDING'' \<and> row_updated_at row' = lease)" by simp
    with slot show ?thesis unfolding charging_ok_def by blast
  qed
  with assms(1) show ?thesis by (cases ph) simp_all
qed

text \<open>A thread that changes the row of its key under its lock disturbs no other thread.\<close>

lemma others_undisturbed:
  assumes "sys_inv slot S" "sys_lock S (slot key) = Some t" "table_evolves (sys_rows S) rows"
    "\<And>k. k \<noteq> key \<Longrightarrow> select_by_key k rows = select_by_key k (sys_rows S)" "u \<noteq> t"
    "\<And>h. lock h = Some u \<Longrightarrow> sys_lock S h = Some u"
  shows "thread_ok slot rows lock u (sys_phase S u)"
proof (rule thread_ok_locks [OF thread_ok_rows])
  show "thread_ok slot (sys_rows S) (sys_lock S) u (sys_phase S u)" using assms(1) by (simp add: sys_inv_def)
  show "select_by_key k rows = select_by_key k (sys_rows S)" if "sys_lock S (slot k) = Some u" for k
    using that assms(2,4,5) by (cases "k = key") auto
qed (use assms in auto)

lemma sys_inv_leave:
  assumes "sys_inv slot S" shows "sys_inv slot (leave t S)"
  unfolding sys_inv_def
proof (intro conjI allI)
  show "payments_inv (sys_rows (leave t S))" using assms by (simp add: sys_inv_def)
  show "thread_ok slot (sys_rows (leave t S)) (sys_lock (leave t S)) u (sys_phase (leave t S) u)" for u
  proof (cases "u = t")
    case False
    have "thread_ok slot (sys_rows S) (sys_lock S) u (sys_phase S u)" using assms by (simp add: sys_inv_def)
    then show ?thesis using False by (auto intro: thread_ok_locks)
  qed simp
qed

text \<open>The transaction of a thread that holds its lock, and then leaves.\<close>

lemma sys_inv_update_leave:
  assumes "sys_inv slot S" "sys_lock S (slot key) = Some t" "table_evolves (sys_rows S) rows" "payments_inv rows"
    "\<And>k. k \<noteq> key \<Longrightarrow> select_by_key k rows = select_by_key k (sys_rows S)"
  shows "sys_inv slot (leave t (S\<lparr>sys_rows := rows\<rparr>))"
  unfolding sys_inv_def
proof (intro conjI allI)
  let ?S = "leave t (S\<lparr>sys_rows := rows\<rparr>)"
  show "payments_inv (sys_rows ?S)" using assms(4) by simp
  show "thread_ok slot (sys_rows ?S) (sys_lock ?S) u (sys_phase ?S u)" for u
  proof (cases "u = t")
    case False
    then have "thread_ok slot rows (sys_lock ?S) u (sys_phase S u)"
      by (intro others_undisturbed [OF assms(1-3,5)]) simp_all
    with False show ?thesis by simp
  qed simp
qed

lemma sys_inv_others:
  assumes "sys_inv slot S" "\<And>h. lock h = Some u \<Longrightarrow> sys_lock S h = Some u"
  shows "thread_ok slot (sys_rows S) lock u (sys_phase S u)"
  by (rule thread_ok_locks [of _ _ "sys_lock S"]) (use assms in \<open>simp_all add: sys_inv_def\<close>)

text \<open>A thread goes to another phase, or takes or loses a lock.\<close>

lemma sys_inv_phase:
  assumes "sys_inv slot S" "thread_ok slot (sys_rows S) lock t ph"
    "\<And>u h. u \<noteq> t \<Longrightarrow> lock h = Some u \<Longrightarrow> sys_lock S h = Some u"
  shows "sys_inv slot (set_phase t ph (S\<lparr>sys_lock := lock\<rparr>))"
  using assms sys_inv_others [OF assms(1)] by (simp add: sys_inv_def)

lemma thread_ok_phase: "sys_inv slot S \<Longrightarrow> sys_phase S t = ph \<Longrightarrow> thread_ok slot (sys_rows S) (sys_lock S) t ph"
  by (auto simp: sys_inv_def)

lemma rstep_inv:
  assumes "rstep slot sha recovery S ob S'" "sys_inv slot S"
  shows "sys_inv slot S'"
  using assms
proof (induction rule: rstep.induct)
  case (arrive S t r key hashes req)
  then have "canonical req" using create_prologue_Accept by blast
  with arrive show ?case
    using sys_inv_phase [OF arrive(3), of "sys_lock S" t "Waiting key hashes req"] thread_ok_phase [of slot S t Idle] by simp
next
  case (lock S t key hashes req)
  then show ?case
    using thread_ok_phase [OF lock(4,1)]
    by (intro sys_inv_phase) (auto split: if_splits)
next
  case (refuse S t key hashes req ev st m rows)
  then have "canonical req" using thread_ok_phase [OF refuse(4,1)] by simp
  with refuse show ?case
    using reserve_evolves [OF refuse(3)] reserve_other_key [OF refuse(3)]
    by (intro sys_inv_update_leave) (simp_all add: sys_inv_def)
next
  case (replay S t key hashes req ev p rows)
  then have "rows = sys_rows S" using reserve_Replay(1) by blast
  with replay(4) show ?case using sys_inv_leave by simp
next
  case (reserved S t key hashes req ev pid gw created lease rows)
  have inv: "payments_inv (sys_rows S)" and can: "canonical req" and slot: "\<forall>h. sys_lock S h = Some t \<longrightarrow> h = slot key"
    using reserved(4) thread_ok_phase [OF reserved(4,1)] by (simp_all add: sys_inv_def)
  have "charging_ok slot rows (sys_lock S) t key pid gw created lease"
    using reserve_Reserved [OF reserved(3) inv] slot by (auto simp: charging_ok_def)
  moreover have "thread_ok slot rows (sys_lock S) u (sys_phase S u)" if "u \<noteq> t" for u
    using reserve_evolves(1) [OF reserved(3)] reserve_other_key [OF reserved(3) inv] that
    by (intro others_undisturbed [OF reserved(4,2)]) simp_all
  moreover have "payments_inv rows" using reserve_evolves(2) [OF reserved(3) inv can] .
  ultimately show ?case by (simp add: sys_inv_def)
next
  case (breaker_open S t key pid gw created lease)
  then show ?case using sys_inv_phase [OF breaker_open(2), of "sys_lock S" t] thread_ok_phase [OF breaker_open(2,1)] by simp
next
  case (provider_call S t key pid gw created lease result)
  then show ?case using sys_inv_phase [OF provider_call(2), of "sys_lock S" t] thread_ok_phase [OF provider_call(2,1)] by simp
next
  case (record_result S t key pid gw created lease result ev ok rows)
  have inv: "payments_inv (sys_rows S)" using record_result(4) by (simp add: sys_inv_def)
  obtain row where "select_by_key key (sys_rows S) = Some row" "row_id row = pid"
    using thread_ok_phase [OF record_result(4,1)] by (auto simp: charging_ok_def)
  then show ?case
    using record_result persist_evolves [OF record_result(3)] persist_other_key [OF record_result(3) inv] inv
    by (intro sys_inv_update_leave) simp_all
next
  case (session_breaks S t)
  have "thread_ok slot (sys_rows S) (sys_lock (free_locks t S)) u (sys_phase S u)" for u
    using session_breaks by (intro sys_inv_others) simp_all
  with session_breaks show ?case by (simp add: sys_inv_def)
qed (rule sys_inv_leave, assumption)+

end
