(* ===== verification/Router_Refinement.thy ===== *)
theory Router_Refinement
  imports Router_Runs
begin

text \<open>
  What the router promises per idempotency key, however requests interleave and sessions
  break: a key is \<open>Unknown\<close>, then \<open>Open\<close>, then \<open>Decided\<close> for good, and a decided answer is
  only ever the one of the decision. The system of \<open>Router_Runs\<close> refines this
  specification; the specification is where the agreement of answers is proved.
\<close>

section \<open>The specification\<close>

datatype kstate = Unknown | Open | Decided PaymentResponse

text \<open>What a key may become: Unknown, then Open, then one decision.\<close>

instantiation kstate :: order
begin

fun less_eq_kstate :: "kstate \<Rightarrow> kstate \<Rightarrow> bool" where
  "Unknown \<le> b \<longleftrightarrow> True"
| "Open \<le> b \<longleftrightarrow> b \<noteq> Unknown"
| "Decided p \<le> b \<longleftrightarrow> b = Decided p"

definition less_kstate :: "kstate \<Rightarrow> kstate \<Rightarrow> bool" where
  "less_kstate a b \<longleftrightarrow> a \<le> b \<and> \<not> b \<le> a"

instance
proof
  show "x < y \<longleftrightarrow> x \<le> y \<and> \<not> y \<le> x" for x y :: kstate by (simp add: less_kstate_def)
  show "x \<le> x" for x :: kstate by (cases x) simp_all
  show "x \<le> y \<Longrightarrow> y \<le> z \<Longrightarrow> x \<le> z" for x y z :: kstate by (cases x; cases y) auto
  show "x \<le> y \<Longrightarrow> y \<le> x \<Longrightarrow> x = y" for x y :: kstate by (cases x; cases y) auto
qed

end

definition payment_reply :: "PaymentResponse \<Rightarrow> http_response" where
  "payment_reply p = JSON (StatusCode (pay_Status p)) (encode_payment p)"

text \<open>Nothing decided is said.\<close>

fun calm :: "robs \<Rightarrow> bool" where
  "calm (Answered key resp) \<longleftrightarrow> http_status resp \<noteq> 200 \<and> http_status resp \<noteq> 422"
| "calm _ \<longleftrightarrow> True"

inductive spec_step :: "(string \<Rightarrow> kstate) \<Rightarrow> robs \<Rightarrow> (string \<Rightarrow> kstate) \<Rightarrow> bool" where
  spec_calm: "calm ob \<Longrightarrow> spec_step f ob f"
| spec_open: "f k = Unknown \<Longrightarrow> calm ob \<Longrightarrow> spec_step f ob (f(k := Open))"
| spec_settle: "f k = Open \<Longrightarrow> calm ob \<Longrightarrow> spec_step f ob (f(k := Decided p))"
| spec_decide: "f k = Open \<Longrightarrow> spec_step f (Answered k (payment_reply p)) (f(k := Decided p))"
| spec_repeat: "f k = Decided p \<Longrightarrow> spec_step f (Answered k (payment_reply p)) f"

inductive spec_run :: "(string \<Rightarrow> kstate) \<Rightarrow> robs list \<Rightarrow> (string \<Rightarrow> kstate) \<Rightarrow> bool" where
  spec_start: "spec_run f [] f"
| spec_next: "spec_run f obs g \<Longrightarrow> spec_step g ob h \<Longrightarrow> spec_run f (obs @ [ob]) h"

lemma spec_step_mono: "spec_step f ob g \<Longrightarrow> f \<le> g"
  by (cases rule: spec_step.cases) (auto simp: le_fun_def)

lemma spec_step_final: "spec_step f ob g \<Longrightarrow> f k = Decided p \<Longrightarrow> g k = Decided p"
  using spec_step_mono [of f ob g] by (auto dest: le_funD [of f g k])

lemma spec_step_answer: "spec_step f (Answered k resp) g \<Longrightarrow> \<not> calm (Answered k resp) \<Longrightarrow>
   \<exists>p. g k = Decided p \<and> resp = payment_reply p"
  by (cases rule: spec_step.cases) auto

text \<open>Every decided answer of a run is the one the key ends with.\<close>

lemma spec_run_answers:
  "spec_run f obs g \<Longrightarrow> Answered k resp \<in> set obs \<Longrightarrow> \<not> calm (Answered k resp) \<Longrightarrow>
   \<exists>p. g k = Decided p \<and> resp = payment_reply p"
proof (induction rule: spec_run.induct)
  case (spec_next f obs g ob h)
  show ?case
  proof (cases "Answered k resp \<in> set obs")
    case True
    with spec_next show ?thesis using spec_step_final by blast
  next
    case False
    with spec_next show ?thesis using spec_step_answer by auto
  qed
qed simp

lemma spec_run_mono: "spec_run f obs g \<Longrightarrow> f \<le> g"
  by (induction rule: spec_run.induct) (auto dest: spec_step_mono intro: order_trans)

lemma spec_run_final: "spec_run f obs g \<Longrightarrow> f k = Decided p \<Longrightarrow> g k = Decided p"
  using spec_run_mono [of f obs g] by (auto dest: le_funD [of f g k])

section \<open>The abstraction\<close>

definition key_state :: "payment_row list \<Rightarrow> string \<Rightarrow> kstate" where
  "key_state rows key =
     (case select_by_key key rows of
        None \<Rightarrow> Unknown
      | Some row \<Rightarrow> if terminal (row_status row) then Decided (answer_of row) else Open)"

lemma key_state_other:
  "(\<And>k. k \<noteq> key \<Longrightarrow> select_by_key k rows' = select_by_key k rows) \<Longrightarrow>
   key_state rows' = (key_state rows)(key := key_state rows' key)"
  by (auto simp: key_state_def)

lemma reserve_key_state:
  assumes "reserve recovery ev key hashes req rows = (res, rows')" "payments_inv rows"
  shows "key_state rows' = key_state rows \<or>
    key_state rows key = Unknown \<and> key_state rows' = (key_state rows)(key := Open)"
proof -
  have eq: "key_state rows' = (key_state rows)(key := key_state rows' key)"
    using reserve_other_key [OF assms] by (rule key_state_other)
  have "key_state rows' key = key_state rows key \<or> key_state rows key = Unknown \<and> key_state rows' key = Open"
  proof (cases "select_by_key key rows")
    case None
    then show ?thesis
      using assms(1) insert_reserved [of "re_now ev" _ key _ req _ rows rows', OF _ None]
      by (auto simp: reserve_def Let_def key_state_def split: prod.splits if_splits option.splits dest!: committed_rows)
  next
    case (Some row)
    then have "rows' = rows \<or> (\<exists>lease. claim_pending (re_now ev) (row_id row) rows = (Some lease, rows'))"
      using assms(1)
      by (auto simp: reserve_def Let_def split: prod.splits if_splits option.splits dest!: committed_rows)
    with Some claim_reserved [OF assms(2) Some] show ?thesis by (auto simp: key_state_def)
  qed
  with eq show ?thesis by (metis fun_upd_triv)
qed

lemma persist_key_state:
  assumes "persistResultConn ev pid result lease rows = (ok, rows')" "payments_inv rows"
    "select_by_key key rows = Some row" "row_id row = pid"
  shows "key_state rows' = key_state rows \<or>
    key_state rows key = Open \<and> (\<exists>p. key_state rows' = (key_state rows)(key := Decided p))"
proof -
  have eq: "key_state rows' = (key_state rows)(key := key_state rows' key)"
    using persist_other_key [OF assms] by (rule key_state_other)
  from persist_evolves(1) [OF assms(1)] assms(3) obtain row' where
    row': "select_by_key key rows' = Some row'" "row_evolves row row'" by (auto simp: table_evolves_def)
  with assms(3) have "key_state rows' key = key_state rows key \<or>
      key_state rows key = Open \<and> (\<exists>p. key_state rows' key = Decided p)"
    by (auto simp: key_state_def row_evolves_def)
  with eq show ?thesis by (metis fun_upd_triv)
qed

section \<open>The simulation\<close>

lemma spec_move: "g = f \<or> f k = Unknown \<and> g = f(k := Open) \<or> f k = Open \<and> (\<exists>p. g = f(k := Decided p)) \<Longrightarrow>
   calm ob \<Longrightarrow> spec_step f ob g"
  by (auto intro: spec_step.intros)

lemma calm_codes [simp]: "\<not> terminal st \<Longrightarrow> StatusCode st \<noteq> 200 \<and> StatusCode st \<noteq> 422"
  by (auto simp: StatusCode_def terminal_def)

lemma rstep_refines:
  assumes "rstep slot sha recovery S ob S'" "sys_inv slot S"
  shows "spec_step (key_state (sys_rows S)) ob (key_state (sys_rows S'))"
  using assms
proof (induction rule: rstep.induct)
  case (refuse S t key hashes req ev st m rows)
  have inv: "payments_inv (sys_rows S)" using refuse(4) by (simp add: sys_inv_def)
  show ?case using reserve_key_state [OF refuse(3) inv] reserve_Refuse [OF refuse(3)] by (intro spec_move) auto
next
  case (replay S t key hashes req ev p rows)
  from reserve_Replay [OF replay(3)] obtain row where row: "rows = sys_rows S" "p = answer_of row"
    "select_by_key key (sys_rows S) = Some row" by blast
  show ?case
  proof (cases "terminal (row_status row)")
    case True
    with row have "key_state (sys_rows S) key = Decided p" by (simp add: key_state_def)
    with row(1) show ?thesis using spec_repeat [of "key_state (sys_rows S)" key p] by (simp add: payment_reply_def)
  next
    case False
    then have "\<not> terminal (pay_Status p)" unfolding row(2) by (simp add: answer_of_def existing_of_def with_created_def)
    with row(1) show ?thesis by (auto intro!: spec_calm)
  qed
next
  case (reserved S t key hashes req ev pid gw created lease rows)
  have inv: "payments_inv (sys_rows S)" using reserved(4) by (simp add: sys_inv_def)
  show ?case using reserve_key_state [OF reserved(3) inv] by (intro spec_move) auto
next
  case (record_result S t key pid gw created lease result ev ok rows)
  have inv: "payments_inv (sys_rows S)" using record_result(4) by (simp add: sys_inv_def)
  obtain row where row: "select_by_key key (sys_rows S) = Some row" "row_id row = pid" "row_gateway row = gw"
    "row_created_at row = created" "row_status row = ''PENDING''" "row_updated_at row = lease"
    using thread_ok_phase [OF record_result(4,1)] record_result(2) by (auto elim!: charging_okE)
  note moves = persist_key_state [OF record_result(3) inv row(1,2)]
  let ?ob = "Answered key (payment_reply (finish pid key gw created (announced ok result)))"
  have "spec_step (key_state (sys_rows S)) ?ob (key_state rows)"
  proof (cases "ok \<and> terminal (pay_Status (normalized result))")
    case True
    from persist_recorded [of ev pid "normalized result" lease "sys_rows S" rows key row] record_result(3) True row
    have sel: "select_by_key key rows = Some (settle (re_persist_now ev) (normalized result) row)" by simp
    have "row_key row = key" using row(1) select_by_keyD by blast
    with sel True row have dec: "key_state rows key = Decided (finish pid key gw created (announced ok result))"
      by (simp add: key_state_def announced_def answer_of_settled)
    moreover have "key_state (sys_rows S) key = Open" using row by (simp add: key_state_def terminal_def)
    ultimately have "key_state rows = (key_state (sys_rows S))(key := Decided (finish pid key gw created (announced ok result)))"
      using moves by auto
    with \<open>key_state (sys_rows S) key = Open\<close> show ?thesis using spec_decide by metis
  next
    case False
    then have "\<not> terminal (pay_Status (announced ok result))" by (auto simp: announced_def terminal_def)
    then show ?thesis using moves by (intro spec_move) (auto simp: payment_reply_def)
  qed
  then show ?case by (simp add: payment_reply_def)
next
  case (session_gone S t key pid gw created lease result)
  show ?case by (rule spec_move) (auto simp: announced_def StatusCode_def)
qed (auto intro: spec_calm)

lemma rrun_refines:
  "rrun slot sha recovery S obs S' \<Longrightarrow> sys_inv slot S \<Longrightarrow>
   sys_inv slot S' \<and> spec_run (key_state (sys_rows S)) obs (key_state (sys_rows S'))"
proof (induction rule: rrun.induct)
  case (rrun_next S obs S' ob S'')
  then show ?case using rstep_inv rstep_refines spec_next by blast
qed (simp add: spec_start)

section \<open>Provider calls\<close>

text \<open>A provider is called for a key only when the key has a row.\<close>

lemma rstep_called:
  assumes "rstep slot sha recovery S (Called key) S'" "sys_inv slot S"
  shows "\<exists>row. select_by_key key (sys_rows S') = Some row"
  using assms(1)
proof cases
  case (provider_call t pid gw created lease result)
  then show ?thesis using thread_ok_phase [OF assms(2) provider_call(2)] by (auto elim!: charging_okE)
qed

lemma rstep_evolves:
  assumes "rstep slot sha recovery S ob S'" shows "table_evolves (sys_rows S) (sys_rows S')"
  using assms by (induction rule: rstep.induct) (auto dest: reserve_evolves(1) persist_evolves(1))

lemma rrun_evolves: "rrun slot sha recovery S obs S' \<Longrightarrow> table_evolves (sys_rows S) (sys_rows S')"
  by (induction rule: rrun.induct) (auto intro: payments.evolves_trans dest: rstep_evolves)

lemma rrun_called:
  "rrun slot sha recovery S obs S' \<Longrightarrow> sys_inv slot S \<Longrightarrow> Called key \<in> set obs \<Longrightarrow>
   \<exists>row. select_by_key key (sys_rows S') = Some row"
proof (induction rule: rrun.induct)
  case (rrun_next S obs S' ob S'')
  then have "sys_inv slot S'" using rrun_refines by blast
  with rrun_next show ?case using rstep_called payments.kept [OF rstep_evolves] by (fastforce dest: rstep_called)
qed simp

end
