(* ===== verification/Run_Samples.thy ===== *)
theory Run_Samples
  imports Samples Router_Refinement
begin

text \<open>
  A run of two requests with one key: the first is charged, the second is answered from the
  record. The witnesses of the properties of runs use it.
\<close>

definition sample_reply :: http_response where
  "sample_reply = JSON 200 (encode_payment (answer_of sample_row))"

definition sample_obs :: "robs list" where
  "sample_obs = [Quiet, Quiet, Quiet, Called ''k'', Answered ''k'' sample_reply, Quiet, Quiet, Answered ''k'' sample_reply]"

lemma sample_replay:
  "reserve recovery good_event ''k'' (request_hashes (\<lambda>s. s) sample_request) sample_request [sample_row] =
   (Replay (answer_of sample_row), [sample_row])"
  using canonical_fixed [OF sample_canonical]
  by (simp add: reserve_def request_hashes_def RequestHash_def Let_def)
    (simp add: good_event_def select_by_key_def sample_row_def answer_of_def existing_of_def coalesce_def normalized_def
      committed_def NormalizeStatus_def with_created_def)

definition sample_charging :: "string system" where
  "sample_charging = set_phase 0 (Charging ''k'' (newUUID (replicate 16 0)) ''gateway-card'' 0 0)
     ((idle_system [sample_pending])\<lparr>sys_lock := [''k'' \<mapsto> 0]\<rparr>)"

lemma sample_reserved:
  "rrun (\<lambda>k. k) (\<lambda>s. s) recovery (idle_system []) [Quiet, Quiet, Quiet] sample_charging"
proof -
  let ?hashes = "request_hashes (\<lambda>s. s) sample_request"
  let ?slot = "\<lambda>k :: string. k"
  let ?step = "rstep ?slot (\<lambda>s. s) recovery"
  have pk: "pg_text ''k''" using sample_pg by simp
  note snoc = rrun_next [of ?slot "\<lambda>s. s" recovery]
  define S1 where "S1 = set_phase 0 (Waiting ''k'' ?hashes sample_request) (idle_system [] :: string system)"
  define S2 where "S2 = set_phase 0 (Holding ''k'' ?hashes sample_request) (S1\<lparr>sys_lock := (sys_lock S1)(''k'' := Some 0)\<rparr>)"
  have s1: "?step (idle_system []) Quiet S1"
    unfolding S1_def by (rule rstep.arrive [OF _ sample_prologue]) (simp add: idle_system_def)
  have s2: "?step S1 Quiet S2"
    unfolding S2_def by (rule rstep.lock [OF _ _ pk]) (simp_all add: S1_def idle_system_def)
  have S3: "sample_charging = set_phase 0 (Charging ''k'' (newUUID (replicate 16 0)) ''gateway-card'' 0 0) (S2\<lparr>sys_rows := [sample_pending]\<rparr>)"
    by (simp add: sample_charging_def S2_def S1_def set_phase_def idle_system_def fun_eq_iff)
  have s3: "?step S2 Quiet sample_charging"
    unfolding S3 by (rule rstep.reserved [where ev = good_event and key = "''k''" and hashes = ?hashes and req = sample_request])
      (simp_all add: S1_def S2_def idle_system_def sample_reserve)
  from snoc [OF snoc [OF snoc [OF rrun_start s1] s2] s3] show ?thesis by simp
qed

lemma sample_run:
  "\<exists>S. rrun (\<lambda>k. k) (\<lambda>s. s) recovery (idle_system []) sample_obs S \<and> sys_rows S = [sample_row]"
proof -
  let ?hashes = "request_hashes (\<lambda>s. s) sample_request" and ?pid = "newUUID (replicate 16 0)"
  let ?result = "zero_payment\<lparr>pay_Status := ''SUCCEEDED'', pay_ProviderRef := ''ref-1''\<rparr>"
  let ?slot = "\<lambda>k :: string. k"
  let ?step = "rstep ?slot (\<lambda>s. s) recovery" and ?run = "rrun ?slot (\<lambda>s. s) recovery (idle_system [])"
  have pk: "pg_text ''k''" using sample_pg by simp
  have n: "normalized ?result = ?result" by (simp add: normalized_def)
  note snoc = rrun_next [of ?slot "\<lambda>s. s" recovery]
  define S4 where "S4 = set_phase 0 (Charged ''k'' ?pid ''gateway-card'' 0 0 ?result) sample_charging"
  define S5 where "S5 = leave 0 (S4\<lparr>sys_rows := [sample_row]\<rparr>)"
  define S6 where "S6 = set_phase 1 (Waiting ''k'' ?hashes sample_request) S5"
  define S7 where "S7 = set_phase 1 (Holding ''k'' ?hashes sample_request) (S6\<lparr>sys_lock := (sys_lock S6)(''k'' := Some 1)\<rparr>)"
  define S8 where "S8 = leave 1 (S7\<lparr>sys_rows := [sample_row]\<rparr>)"
  note defs = sample_charging_def S4_def S5_def S6_def S7_def S8_def
  have s4: "?step sample_charging (Called ''k'') S4"
    unfolding S4_def by (rule rstep.provider_call) (simp add: sample_charging_def)
  have fin: "finish ?pid ''k'' ''gateway-card'' 0 ?result = answer_of sample_row"
    by (simp add: finish_def answer_of_def with_created_def sample_row_def existing_of_def coalesce_def normalized_def zero_payment_def
        NormalizeStatus_def)
  have s5: "?step S4 (Answered ''k'' sample_reply) S5"
  proof -
    have "?step S4 (Answered ''k'' (JSON (StatusCode (pay_Status (announced True ?result)))
        (encode_payment (finish ?pid ''k'' ''gateway-card'' 0 (announced True ?result))))) S5"
      unfolding S5_def
      by (rule rstep.record_result [where ev = good_event and lease = 0]) 
        (simp_all add: S4_def sample_charging_def idle_system_def n sample_persist)
    then show ?thesis by (simp add: announced_def n fin sample_reply_def) (simp add: StatusCode_def zero_payment_def sample_reply_def)
  qed
  have s6: "?step S5 Quiet S6"
    unfolding S6_def by (rule rstep.arrive [OF _ sample_prologue]) (simp add: defs idle_system_def)
  have s7: "?step S6 Quiet S7"
    unfolding S7_def by (rule rstep.lock [OF _ _ pk]) (simp_all add: S6_def S5_def S4_def sample_charging_def idle_system_def leave_def free_locks_def)
  have s8: "?step S7 (Answered ''k'' sample_reply) S8"
  proof -
    have "?step S7 (Answered ''k'' (JSON (StatusCode (pay_Status (answer_of sample_row))) (encode_payment (answer_of sample_row)))) S8"
      unfolding S8_def by (rule rstep.replay [where ev = good_event and key = "''k''" and hashes = ?hashes and req = sample_request])
        (simp_all add: S7_def S6_def S5_def sample_replay)
    moreover have "pay_Status (answer_of sample_row) = ''SUCCEEDED''"
      by (simp add: sample_row_def answer_of_def existing_of_def normalized_def with_created_def NormalizeStatus_def)
    ultimately show ?thesis by (simp add: sample_reply_def StatusCode_def)
  qed
  have "?run ([Quiet, Quiet, Quiet] @ [Called ''k''] @ [Answered ''k'' sample_reply] @ [Quiet] @ [Quiet] @ [Answered ''k'' sample_reply]) S8"
    using snoc [OF snoc [OF snoc [OF snoc [OF snoc [OF sample_reserved s4] s5] s6] s7] s8] by simp
  then show ?thesis by (intro exI [of _ S8]) (simp add: sample_obs_def S8_def)
qed

end
