(* ===== verification/Router_Identity.thy ===== *)
theory Router_Identity
  imports Router_Facts
begin

text \<open>
  Which requests the router takes for the same payment, what its identifiers look like, and
  how long it waits before it recovers a payment. The hypothesis on SHA-256 is that the
  texts at hand do not collide.
\<close>

section \<open>The same request\<close>

definition legacy_request :: "RouterPaymentRequest \<Rightarrow> RouterPaymentRequest" where
  "legacy_request req = req\<lparr>rtr_Currency := to_lower (rtr_Currency req)\<rparr>"

definition no_collision :: "(string \<Rightarrow> string) \<Rightarrow> RouterPaymentRequest list \<Rightarrow> bool" where
  "no_collision sha reqs \<longleftrightarrow> inj_on sha (json_text ` encode_router ` set reqs)"

lemma request_hash_eq:
  assumes "no_collision sha reqs" "a \<in> set reqs" "b \<in> set reqs" "router_text a" "router_text b"
  shows "RequestHash sha (encode_router a) = RequestHash sha (encode_router b) \<longleftrightarrow> a = b"
proof -
  have "sha (json_text (encode_router a)) = sha (json_text (encode_router b)) \<Longrightarrow>
    json_text (encode_router a) = json_text (encode_router b)"
    using assms(1-3) by (auto simp: no_collision_def dest: inj_onD)
  with router_text_inj [OF assms(4,5)] show ?thesis by (auto simp: RequestHash_def)
qed

lemma to_lower_not_upper: "list_all is_upper s \<Longrightarrow> s \<noteq> [] \<Longrightarrow> \<not> list_all is_upper (to_lower s)"
  using to_lower_ascii [OF is_upper_ascii] by (cases s) (auto simp del: to_lower.simps)

lemma canonical_texts:
  assumes "canonical req"
  shows "router_text req" "router_text (legacy_request req)" "\<not> canonical (legacy_request req)"
proof -
  show t: "router_text req" using assms by (simp add: canonical_def)
  have up: "list_all is_upper (rtr_Currency req)" "rtr_Currency req \<noteq> []" using assms by (auto simp: canonical_def)
  then have "to_lower (rtr_Currency req) = map lower_byte (rtr_Currency req)" "ascii (map lower_byte (rtr_Currency req))"
    using is_upper_ascii by (auto simp: to_lower_ascii ascii_def list_all_iff byte_val_lower_byte_less)
  with t show "router_text (legacy_request req)" by (simp add: router_text_def legacy_request_def utf8_valid_ascii)
  show "\<not> canonical (legacy_request req)" using to_lower_not_upper [OF up] by (simp add: canonical_def legacy_request_def)
qed

text \<open>The three hashes of a request match a row exactly when the canonical request is the row's.\<close>

lemma hash_matches_iff:
  assumes "hashed_inv sha rows" "row \<in> set rows" "payment_row_ok row" "canonical (canonical_request original)"
    "router_text original"
    "no_collision sha [request_of row, canonical_request original, original, legacy_request (canonical_request original)]"
  shows "hash_matches (request_hashes sha original) row \<longleftrightarrow> request_of row = canonical_request original"
proof -
  let ?canon = "canonical_request original"
  note can = canonical_request_of [OF assms(3)]
  note eq = request_hash_eq [OF assms(6), of "request_of row"]
  have "row_hash row = RequestHash sha (encode_router (request_of row))" using assms(1,2) by (simp add: hashed_inv_def)
  then have "hash_matches (request_hashes sha original) row \<longleftrightarrow>
      request_of row = ?canon \<or> request_of row = original \<or> request_of row = legacy_request ?canon"
    using eq [of ?canon] eq [of original] eq [of "legacy_request ?canon"] canonical_texts [OF can] canonical_texts [OF assms(4)] assms(5)
    by (simp add: hash_matches_def request_hashes_def Let_def flip: legacy_request_def)
  moreover have "request_of row = original \<Longrightarrow> request_of row = ?canon" using canonical_fixed [OF can] by simp
  moreover have "request_of row \<noteq> legacy_request ?canon" using can canonical_texts(3) [OF assms(4)] by auto
  ultimately show ?thesis by blast
qed

lemma reserve_409:
  assumes "reserve recovery ev key hashes req rows = (Refuse 409 m, rows')"
  shows "\<exists>row. select_by_key key rows = Some row \<and> \<not> hash_matches hashes row"
  using assms
  by (auto simp: reserve_def hash_matches_def Let_def committed_def split: prod.splits if_splits option.splits)

lemma create_409:
  assumes "create cfg ev r s w = ((s', w'), Some resp)" "http_status resp = 409"
    "create_prologue (rc_sha cfg) r = Accept key hashes req"
  shows "\<exists>row. select_by_key key (r_rows s) = Some row \<and> \<not> hash_matches hashes row"
proof (cases "create_acquire ev key")
  case None
  obtain res rows where res: "reserve (pendingRecoveryAfter (rc_env cfg)) ev key hashes req (r_rows s) = (res, rows)"
    by fastforce
  show ?thesis
  proof (cases res)
    case (Refuse st m)
    with assms None res have "st = 409" by (auto simp: create_def)
    with Refuse res reserve_409 show ?thesis by blast
  next
    case (Replay p)
    with assms None res show ?thesis by (auto simp: create_def StatusCode_def split: if_splits)
  next
    case (Reserved pid gw created lease)
    with assms None res have "create_charge cfg ev r req key pid gw created lease (s\<lparr>r_rows := rows\<rparr>) w = ((s', w'), Some resp)"
      by (simp add: create_def)
    then obtain st v where "resp = JSON (StatusCode st) v" by (rule create_charge_answer)
    with assms(2) show ?thesis by (simp add: StatusCode_def split: if_splits)
  qed
next
  case (Some p)
  with assms Acquire_status show ?thesis by (cases p) (fastforce simp: create_def)
qed

section \<open>The hash of every row is the hash of its request\<close>

lemma persist_hashed: "persistResultConn ev pid result lease rows = (ok, rows') \<Longrightarrow> hashed_inv sha rows \<Longrightarrow> hashed_inv sha rows'"
proof -
  assume p: "persistResultConn ev pid result lease rows = (ok, rows')" "hashed_inv sha rows"
  have "hashed_inv sha (update_where q (settle now res) rows)" for q now res
    using p(2) request_of_frozen [of "settle now res r" r for r] by (auto simp: hashed_inv_def set_update_where)
  with p show "hashed_inv sha rows'" by (auto simp: persistResultConn_def update_result_def Let_def split: if_splits)
qed

lemma create_charge_panic:
  assumes "create_charge cfg ev r req key pid gw created lease s w = ((s', w'), None)"
  shows "r_rows s' = r_rows s"
proof -
  obtain s1 w1 res where c: "charge cfg ev r req key gw s w = ((s1, w1), res)" by (metis prod.collapse)
  show ?thesis
  proof (cases res)
    case None
    with assms c charge_rows [OF c] show ?thesis by (simp add: create_charge_def)
  next
    case (Some result)
    obtain ok rows where "persistResultConn ev pid (normalized result) lease (r_rows s1) = (ok, rows)" by fastforce
    from create_charge_eq [OF c [unfolded Some] this, of created] assms show ?thesis by simp
  qed
qed

lemma create_hashed:
  assumes "create cfg ev r s w = ((s', w'), resp)" "hashed_inv (rc_sha cfg) (r_rows s)"
  shows "hashed_inv (rc_sha cfg) (r_rows s')"
proof (cases "create_prologue (rc_sha cfg) r")
  case (Reject st m)
  with assms show ?thesis by (simp add: create_def)
next
  case (Accept key hashes req)
  from create_prologue_Accept [OF this] obtain original where
    o: "req = canonical_request original" "hashes = request_hashes (rc_sha cfg) original" "canonical req" by blast
  show ?thesis
  proof (cases "create_acquire ev key")
    case (Some p)
    with assms Accept show ?thesis by (cases p) (simp add: create_def)
  next
    case None
    obtain res rows where res: "reserve (pendingRecoveryAfter (rc_env cfg)) ev key hashes req (r_rows s) = (res, rows)"
      by fastforce
    have h: "hashed_inv (rc_sha cfg) rows" using reserve_hashed [of _ ev key "rc_sha cfg" original] res o assms(2) by simp
    show ?thesis
    proof (cases res)
      case (Reserved pid gw created lease)
      with assms(1) Accept None res
      have cc: "create_charge cfg ev r req key pid gw created lease (s\<lparr>r_rows := rows\<rparr>) w = ((s', w'), resp)"
        by (simp add: create_def)
      show ?thesis
      proof (cases resp)
        case None
        with cc h create_charge_panic show ?thesis by fastforce
      next
        case (Some a)
        from cc [unfolded Some] have "\<exists>result ok. persistResultConn ev pid (normalized result) lease rows = (ok, r_rows s')"
          by (rule create_charge_answer) auto
        with h persist_hashed show ?thesis by blast
      qed
    qed (use assms(1) Accept None res h in \<open>auto simp: create_def\<close>)
  qed
qed

section \<open>Recovery\<close>

text \<open>The frozen request of a row, sent again under its key, is never a conflict.\<close>

lemma frozen_request_matches:
  assumes "hashed_inv sha rows" "row \<in> set rows" "payment_row_ok row"
  shows "hash_matches (request_hashes sha (request_of row)) row"
  using assms canonical_fixed [OF canonical_request_of [OF assms(3)]]
  by (simp add: hash_matches_def request_hashes_def hashed_inv_def Let_def)

lemma recovery_not_409:
  assumes "hashed_inv (rc_sha cfg) (r_rows s)" "payments_inv (r_rows s)" "select_by_key (request_key r) (r_rows s) = Some row"
    "Decode decode_router r = Some (request_of row)" "create cfg ev r s w = ((s', w'), Some resp)"
  shows "http_status resp \<noteq> 409"
proof
  assume c: "http_status resp = 409"
  have row: "row \<in> set (r_rows s)" "payment_row_ok row"
    using assms(2,3) by (auto simp: payments_inv_def dest: select_by_keyD)
  show False
  proof (cases "create_prologue (rc_sha cfg) r")
    case (Reject st m)
    with assms(5) c Reject_status [OF Reject] show False by (auto simp: create_def)
  next
    case (Accept key hashes req)
    from create_prologue_Accept [OF this] assms(4) have "key = request_key r" "hashes = request_hashes (rc_sha cfg) (request_of row)"
      by (auto simp: request_key_def)
    with create_409 [OF assms(5) c Accept] assms(3) frozen_request_matches [OF assms(1) row] show False by auto
  qed
qed

section \<open>Identifiers and durations\<close>

lemma hex_char_hex: "n < 16 \<Longrightarrow> is_hex (hex_char n)"
proof -
  assume n: "n < 16"
  have "map char_of [97 :: nat, 98, 99, 100, 101, 102] = ''abcdef''" by code_simp
  then show ?thesis
  proof (cases "n < 10")
    case True
    then show ?thesis by (simp add: is_hex_def hex_char_def is_digit_def)
  next
    case False
    with n have "87 + n \<in> set [97, 98, 99, 100, 101, 102]" by auto
    then have "char_of (87 + n) \<in> set (map char_of [97 :: nat, 98, 99, 100, 101, 102])" by (simp only: list.set_map image_eqI)
    with \<open>map char_of _ = _\<close> False show ?thesis by (simp only: is_hex_def hex_char_def if_False simp_thms)
  qed
qed

lemma hex_byte_hex: "list_all is_hex (hex_byte b)" "length (hex_byte b) = 2"
proof -
  have "unat b < 2 ^ LENGTH(8)" by (rule unsigned_less)
  then have "unat b div 16 < 16" by simp
  then show "list_all is_hex (hex_byte b)" by (simp add: hex_byte_def hex_char_hex)
qed (simp add: hex_byte_def)

lemma hex_bytes: "list_all is_hex (concat (map hex_byte bs)) \<and> length (concat (map hex_byte bs)) = 2 * length bs"
  by (induction bs) (simp_all add: hex_byte_hex)

lemma newUUID_shape:
  assumes "length bytes = 16" shows "uuid_shape (newUUID bytes)"
proof -
  have ws: "uuid_shape (a @ ''-'' @ b @ ''-'' @ c @ ''-'' @ d @ ''-'' @ e)"
    if "map length [a, b, c, d, e] = [8, 4, 4, 4, 12]" "list_all (list_all is_hex) [a, b, c, d, e]" for a b c d e
  proof -
    have "\<not> is_hex (CHR ''-'')" by code_simp
    then have "\<And>w. w \<in> set [a, b, c, d, e] \<Longrightarrow> CHR ''-'' \<notin> set w" using that(2) by (auto simp: list_all_iff)
    from split_on_join [of "[a, b, c, d, e]", OF _ this] have "split_on (CHR ''-'') (join_with ''-'' [a, b, c, d, e]) = [a, b, c, d, e]" by simp
    with that show ?thesis by (simp add: uuid_shape_def)
  qed
  have pieces: "list_all is_hex (take n (drop m h))" if "list_all is_hex h" for n m and h :: string
    using that by (auto simp: list_all_iff dest!: in_set_takeD in_set_dropD)
  define h where "h = concat (map hex_byte ((bytes[6 := (bytes ! 6 AND 0x0f) OR 0x40])[8 := ((bytes[6 := (bytes ! 6 AND 0x0f) OR 0x40]) ! 8 AND 0x3f) OR 0x80]))"
  have h: "list_all is_hex h" "length h = 32"
    using hex_bytes [of "(bytes[6 := (bytes ! 6 AND 0x0f) OR 0x40])[8 := ((bytes[6 := (bytes ! 6 AND 0x0f) OR 0x40]) ! 8 AND 0x3f) OR 0x80]"] assms
    by (simp_all add: h_def)
  have "newUUID bytes = take 8 h @ ''-'' @ take 4 (drop 8 h) @ ''-'' @ take 4 (drop 12 h) @ ''-'' @ take 4 (drop 16 h) @ ''-'' @ drop 20 h"
    by (simp add: newUUID_def h_def Let_def)
  moreover have "uuid_shape (take 8 h @ ''-'' @ take 4 (drop 8 h) @ ''-'' @ take 4 (drop 12 h) @ ''-'' @ take 4 (drop 16 h) @ ''-'' @ drop 20 h)"
    using h pieces [OF h(1), of 8 0] pieces [OF h(1), of 4 8] pieces [OF h(1), of 4 12] pieces [OF h(1), of 4 16] pieces [OF h(1), of 12 20]
    by (intro ws) simp_all
  ultimately show ?thesis by simp
qed

lemma pendingRecoveryAfter_nonneg: "0 \<le> pendingRecoveryAfter env"
  by (simp add: pendingRecoveryAfter_def defaultPendingRecoveryAfter_def Let_def split: option.splits)

lemma parse_duration_range: "parse_duration s = Some d \<Longrightarrow> - (2 ^ 63) \<le> d \<and> d \<le> 2 ^ 63 - 1"
proof -
  have loop: "duration_loop d s = Some e \<Longrightarrow> d \<le> 2 ^ 63 \<Longrightarrow> e \<le> 2 ^ 63" for d e s
    by (induction d s rule: duration_loop.induct) (auto simp: Let_def split: if_splits option.splits)
  assume "parse_duration s = Some d"
  then show ?thesis
    using loop [of 0] by (auto simp: parse_duration_def Let_def split: if_splits option.splits)
qed

end
