(* ===== verification/Tracing.thy ===== *)
theory Tracing
  imports Http
begin

text \<open>
  \<open>internal/payments/tracing.go\<close>: the name of a span, the response writer that notes the
  status, what is put into the span when a request ends, and which collector is used. The
  OpenTelemetry SDK is third-party code: what it is told is the result of the definitions.
  \<open>url.Parse\<close> is a parameter of the endpoint checks.
\<close>

section \<open>Bounded route names\<close>

definition boundedRoute :: "string \<Rightarrow> string" where
  "boundedRoute path =
     (let parts = split_on (CHR ''/'') (trim_chars ''/'' path);
          parts = (if length parts \<ge> 2 \<and> parts ! 0 = ''v1'' \<and> (parts ! 1 = ''payments'' \<or> parts ! 1 = ''participants'')
                   then take 2 parts
                   else if length parts > 3 then take 3 parts else parts)
      in if length parts = 0 \<or> parts ! 0 = [] then ''/'' else ''/'' @ join_with ''/'' parts)"

section \<open>The response writer\<close>

text \<open>What the wrapped writer is told, and what a handler does with the wrapper.\<close>

datatype sent = Header int | Body string

datatype act = DoWriteHeader int | DoWrite string

record traceResponseWriter =
  tw_status :: int
  tw_sent :: "sent list"

definition new_writer :: traceResponseWriter where
  "new_writer = \<lparr>tw_status = 0, tw_sent = []\<rparr>"

definition WriteHeader :: "int \<Rightarrow> traceResponseWriter \<Rightarrow> traceResponseWriter" where
  "WriteHeader status w =
     (if tw_status w \<noteq> 0 then w
      else w\<lparr>tw_status := status, tw_sent := tw_sent w @ [Header status]\<rparr>)"

definition Write :: "string \<Rightarrow> traceResponseWriter \<Rightarrow> traceResponseWriter" where
  "Write body w =
     (let w = (if tw_status w = 0 then WriteHeader 200 w else w)
      in w\<lparr>tw_sent := tw_sent w @ [Body body]\<rparr>)"

fun handle_acts :: "act list \<Rightarrow> traceResponseWriter \<Rightarrow> traceResponseWriter" where
  "handle_acts [] w = w"
| "handle_acts (DoWriteHeader st # as) w = handle_acts as (WriteHeader st w)"
| "handle_acts (DoWrite b # as) w = handle_acts as (Write b w)"

section \<open>The span of a request\<close>

record span =
  span_name :: string
  span_method :: string
  span_code :: int
  span_recorded :: "string list"     \<comment> \<open>\<open>RecordError\<close>\<close>
  span_failures :: "string list"     \<comment> \<open>\<open>SetStatus(codes.Error, _)\<close>, in order\<close>

text \<open>
  \<open>ctx_err\<close> is \<open>r.Context().Err()\<close> when the handler returns, \<open>status_text\<close> is
  \<open>http.StatusText\<close>.
\<close>

definition TraceHTTPHandler ::
  "(int \<Rightarrow> string) \<Rightarrow> string \<Rightarrow> string \<Rightarrow> act list \<Rightarrow> string option \<Rightarrow> span \<times> sent list" where
  "TraceHTTPHandler status_text meth path acts ctx_err =
     (let writer = handle_acts acts new_writer;
          status = (if tw_status writer = 0 then 200 else tw_status writer);
          status = (if ctx_err \<noteq> None \<and> tw_status writer = 0 then 408 else status);
          cancelled = (case ctx_err of None \<Rightarrow> [] | Some e \<Rightarrow> [e])
      in (\<lparr>span_name = ''HTTP '' @ meth @ '' '' @ boundedRoute path, span_method = meth, span_code = status,
           span_recorded = cancelled,
           span_failures = cancelled @ (if status \<ge> 500 then [status_text status] else [])\<rparr>,
          tw_sent writer))"

section \<open>The collector\<close>

record url = url_Scheme :: string url_Host :: string url_Path :: string

record otlp_options =
  otlp_Endpoint :: string
  otlp_URLPath :: string
  otlp_Insecure :: bool

text \<open>\<open>Inl\<close> is an error message.\<close>

definition newOTLPHTTPExporter :: "(string \<Rightarrow> string + url) \<Rightarrow> string \<Rightarrow> string + otlp_options" where
  "newOTLPHTTPExporter parse_url endpoint =
     (case parse_url endpoint of
        Inl e \<Rightarrow> Inl (''invalid OTLP endpoint: '' @ e)
      | Inr parsed \<Rightarrow>
          if url_Scheme parsed = []
          then Inr \<lparr>otlp_Endpoint = endpoint, otlp_URLPath = ''/v1/traces'', otlp_Insecure = False\<rparr>
          else if url_Host parsed = [] \<or> (url_Scheme parsed \<noteq> ''http'' \<and> url_Scheme parsed \<noteq> ''https'')
          then Inl ''invalid OTLP endpoint scheme''
          else (let path = (if url_Path parsed = [] \<or> url_Path parsed = ''/'' then ''/v1/traces'' else url_Path parsed)
                in Inr \<lparr>otlp_Endpoint = url_Host parsed, otlp_URLPath = path,
                        otlp_Insecure = (url_Scheme parsed = ''http'')\<rparr>))"

text \<open>The exporter a provider gets: none, or one, or an error. \<open>resource.New\<close> does not fail on one attribute.\<close>

definition NewTracerProvider :: "(string \<Rightarrow> string + url) \<Rightarrow> (string \<Rightarrow> string) \<Rightarrow> string + otlp_options option" where
  "NewTracerProvider parse_url env =
     (let endpoint = trim_space (env ''OTEL_EXPORTER_OTLP_TRACES_ENDPOINT'');
          endpoint = (if endpoint = [] then trim_space (env ''OTEL_EXPORTER_OTLP_ENDPOINT'') else endpoint)
      in if endpoint = [] then Inr None
         else case newOTLPHTTPExporter parse_url endpoint of Inl e \<Rightarrow> Inl e | Inr opts \<Rightarrow> Inr (Some opts))"

section \<open>Facts\<close>

text \<open>One header, then bodies; the noted status is that header.\<close>

definition well_sent :: "traceResponseWriter \<Rightarrow> bool" where
  "well_sent w \<longleftrightarrow> (tw_status w = 0 \<and> tw_sent w = []) \<or>
     (tw_status w \<noteq> 0 \<and> (\<exists>bodies. tw_sent w = Header (tw_status w) # map Body bodies))"

fun act_ok :: "act \<Rightarrow> bool" where
  "act_ok (DoWriteHeader st) \<longleftrightarrow> 100 \<le> st \<and> st \<le> 999"
| "act_ok (DoWrite b) \<longleftrightarrow> True"

lemma well_sent_new [simp]: "well_sent new_writer"
  by (simp add: well_sent_def new_writer_def)

lemma well_sent_header: "well_sent w \<Longrightarrow> 100 \<le> st \<Longrightarrow> well_sent (WriteHeader st w)"
  by (auto simp: well_sent_def WriteHeader_def)

lemma well_sent_write: "well_sent w \<Longrightarrow> well_sent (Write b w)"
proof -
  have "\<exists>bs. map Body bodies @ [Body b] = map Body bs" for bodies by (rule exI [of _ "bodies @ [b]"]) simp
  then show "well_sent w \<Longrightarrow> well_sent (Write b w)"
    by (auto simp: well_sent_def Write_def WriteHeader_def Let_def) (rule exI [of _ "[b]"], simp)
qed

lemma well_sent_acts: "well_sent w \<Longrightarrow> list_all act_ok as \<Longrightarrow> well_sent (handle_acts as w)"
  by (induction as w rule: handle_acts.induct) (auto intro: well_sent_header well_sent_write)

text \<open>The first act decides the status.\<close>

lemma handle_acts_status: "tw_status w \<noteq> 0 \<Longrightarrow> tw_status (handle_acts as w) = tw_status w"
  by (induction as w rule: handle_acts.induct) (auto simp: WriteHeader_def Write_def Let_def)

lemma first_act_status:
  "tw_status (handle_acts (DoWriteHeader st # as) new_writer) = (if st = 0 then tw_status (handle_acts as (WriteHeader 0 new_writer)) else st)"
  "tw_status (handle_acts (DoWrite b # as) new_writer) = 200"
  by (auto simp: handle_acts_status WriteHeader_def Write_def new_writer_def Let_def)

text \<open>A bounded route has at most three segments.\<close>

lemma count_join:
  "(\<And>p. p \<in> set ps \<Longrightarrow> c \<notin> set p) \<Longrightarrow> count_list (join_with [c] ps) c = length ps - 1"
proof (induction "[c]" ps rule: join_with.induct)
  case (3 p q ps)
  then show ?case by (simp add: count_notin)
qed (simp_all add: count_notin)

lemma boundedRoute_segments: "count_list (boundedRoute path) (CHR ''/'') \<le> 3"
proof -
  let ?ps = "split_on (CHR ''/'') (trim_chars ''/'' path)"
  have no: "CHR ''/'' \<notin> set p" if "p \<in> set ?ps" for p using that split_on_no_sep by blast
  have "count_list (''/'' @ join_with ''/'' qs) (CHR ''/'') \<le> 3" if "set qs \<subseteq> set ?ps" "length qs \<le> 3" for qs
    using count_join [of qs "CHR ''/''"] no that by (auto simp: subset_eq)
  then show ?thesis
    using set_take_subset [of 2 ?ps] set_take_subset [of 3 ?ps]
    by (auto simp: boundedRoute_def Let_def simp del: append_Cons append_Nil split: if_splits)
qed

text \<open>The name of a payment or a participant is not part of the route.\<close>

lemma split_append: "split_on c (u @ c # s) = split_on c u @ split_on c s"
proof (induction u)
  case (Cons d u)
  then show ?case by (cases "split_on c u") auto
qed simp

lemma boundedRoute_drops_id:
  assumes "kind = ''payments'' \<or> kind = ''participants''" "trim_chars ''/'' path = ''v1/'' @ kind @ ''/'' @ rest"
  shows "boundedRoute path = ''/v1/'' @ kind"
proof -
  have "split_on (CHR ''/'') kind = [kind]" using assms(1) by auto
  then have "split_on (CHR ''/'') (''v1/'' @ kind @ ''/'' @ rest) = [''v1'', kind] @ split_on (CHR ''/'') rest"
    using split_append [of "CHR ''/''" "''v1''" "kind @ ''/'' @ rest"] split_append [of "CHR ''/''" kind rest] by simp
  with assms show ?thesis by (auto simp: boundedRoute_def Let_def)
qed

end
