(* ===== verification/Schema.thy ===== *)
theory Schema
  imports Router Operator Participant_Manager
begin

text \<open>
  \<open>internal/payments/db.go\<close>, the \<open>Ensure...\<close> statements: tables are created where they are
  missing, and columns are added to the tables of older versions. A stored table has columns,
  unique columns and rows of cells; that a service finds the rows of its model in it is what
  the facts show. A batch of statements is one transaction.
\<close>

section \<open>Stored tables\<close>

datatype cell = Null | Text string | Number int | Json json | Truth bool | Time int

datatype column_type = Uuid_type | Text_type | Number_type | Json_type | Truth_type | Time_type

datatype column_default = No_default | Constant cell | Current_time

record db_column =
  col_name :: string
  col_type :: column_type
  col_null :: bool
  col_default :: column_default

record stored =
  st_columns :: "db_column list"
  st_unique :: "string list"
  st_rows :: "(string \<Rightarrow> cell option) list"
  st_indexes :: "string list"

type_synonym database = "string \<Rightarrow> stored option"

definition not_null :: "string \<Rightarrow> column_type \<Rightarrow> column_default \<Rightarrow> db_column" where
  "not_null n ty d = \<lparr>col_name = n, col_type = ty, col_null = False, col_default = d\<rparr>"

definition nullable :: "string \<Rightarrow> column_type \<Rightarrow> db_column" where
  "nullable n ty = \<lparr>col_name = n, col_type = ty, col_null = True, col_default = No_default\<rparr>"

definition has_column :: "stored \<Rightarrow> string \<Rightarrow> bool" where
  "has_column t n \<longleftrightarrow> n \<in> col_name ` set (st_columns t)"

section \<open>Statements\<close>

text \<open>\<open>CREATE TABLE IF NOT EXISTS\<close>\<close>

definition create_table :: "string \<Rightarrow> db_column list \<Rightarrow> string list \<Rightarrow> database \<Rightarrow> database" where
  "create_table n cols unique db =
     (case db n of Some t \<Rightarrow> db
      | None \<Rightarrow> db(n \<mapsto> \<lparr>st_columns = cols, st_unique = unique, st_rows = [], st_indexes = []\<rparr>))"

text \<open>\<open>ADD COLUMN IF NOT EXISTS\<close> at time \<open>now\<close>: the rows that are there get the default.\<close>

definition fill :: "int \<Rightarrow> db_column \<Rightarrow> cell" where
  "fill now c = (case col_default c of No_default \<Rightarrow> Null | Constant v \<Rightarrow> v | Current_time \<Rightarrow> Time now)"

definition widen :: "int \<Rightarrow> db_column \<Rightarrow> stored \<Rightarrow> stored" where
  "widen now c t =
     (if has_column t (col_name c) then t
      else t\<lparr>st_columns := st_columns t @ [c], st_rows := map (\<lambda>r. r(col_name c \<mapsto> fill now c)) (st_rows t)\<rparr>)"

definition add_column :: "int \<Rightarrow> string \<Rightarrow> db_column \<Rightarrow> database \<Rightarrow> database" where
  "add_column now n c db = (case db n of None \<Rightarrow> db | Some t \<Rightarrow> db(n \<mapsto> widen now c t))"

text \<open>\<open>ALTER COLUMN ... SET DEFAULT\<close>, \<open>CREATE INDEX IF NOT EXISTS\<close>\<close>

definition set_default :: "string \<Rightarrow> string \<Rightarrow> column_default \<Rightarrow> database \<Rightarrow> database" where
  "set_default n name d db =
     (case db n of None \<Rightarrow> db
      | Some t \<Rightarrow> db(n \<mapsto> t\<lparr>st_columns := map (\<lambda>c. if col_name c = name then c\<lparr>col_default := d\<rparr> else c) (st_columns t)\<rparr>))"

definition create_index :: "string \<Rightarrow> string \<Rightarrow> database \<Rightarrow> database" where
  "create_index n i db = (case db n of None \<Rightarrow> db | Some t \<Rightarrow> db(n \<mapsto> t\<lparr>st_indexes := List.insert i (st_indexes t)\<rparr>))"

section \<open>The tables of the services\<close>

definition roles_column :: db_column where
  "roles_column = not_null ''roles'' Json_type (Constant (Json (JArr [])))"

definition participants_columns :: "db_column list" where
  "participants_columns =
    [not_null ''id'' Text_type No_default, not_null ''instrument'' Text_type No_default,
     not_null ''gateway'' Text_type No_default, roles_column,
     not_null ''active'' Truth_type (Constant (Truth True)), not_null ''created_at'' Time_type Current_time]"

definition EnsureParticipants :: "int \<Rightarrow> string option \<Rightarrow> database \<Rightarrow> string option \<times> database" where
  "EnsureParticipants now err db =
     (case err of Some e \<Rightarrow> (Some e, db)
      | None \<Rightarrow>
          (None, set_default ''participants'' ''roles'' (Constant (Json (JArr [])))
            (add_column now ''participants'' roles_column
              (create_table ''participants'' participants_columns [''id''] db))))"

definition payment_added :: "db_column list" where
  "payment_added =
    [not_null ''debtor_participant_id'' Text_type (Constant (Text [])),
     not_null ''creditor_participant_id'' Text_type (Constant (Text [])),
     not_null ''reference'' Text_type (Constant (Text []))]"

definition payments_columns :: "db_column list" where
  "payments_columns =
    [not_null ''id'' Uuid_type No_default, not_null ''idempotency_key'' Text_type No_default,
     not_null ''request_hash'' Text_type No_default, not_null ''amount_minor'' Number_type No_default,
     not_null ''currency'' Text_type No_default, not_null ''instrument'' Text_type No_default,
     not_null ''participant_id'' Text_type No_default] @ payment_added @
    [not_null ''status'' Text_type No_default, not_null ''gateway'' Text_type No_default,
     nullable ''provider_ref'' Text_type, nullable ''error'' Text_type,
     not_null ''created_at'' Time_type Current_time, not_null ''updated_at'' Time_type Current_time]"

definition EnsurePayments :: "int \<Rightarrow> string option \<Rightarrow> database \<Rightarrow> string option \<times> database" where
  "EnsurePayments now err db =
     (case err of Some e \<Rightarrow> (Some e, db)
      | None \<Rightarrow>
          (None, create_index ''payments'' ''payments_status_idx''
            (fold (add_column now ''payments'') payment_added
              (create_table ''payments'' payments_columns [''id'', ''idempotency_key''] db))))"

definition order_added :: "db_column list" where
  "order_added = [nullable ''gateway'' Text_type, nullable ''provider_ref'' Text_type, nullable ''error'' Text_type]"

definition orders_columns :: "db_column list" where
  "orders_columns =
    [not_null ''id'' Uuid_type No_default, not_null ''idempotency_key'' Text_type No_default,
     not_null ''request_hash'' Text_type No_default, nullable ''payment_id'' Uuid_type,
     not_null ''status'' Text_type No_default] @ order_added @ [not_null ''created_at'' Time_type Current_time]"

definition EnsureOperator :: "int \<Rightarrow> string option \<Rightarrow> database \<Rightarrow> string option \<times> database" where
  "EnsureOperator now err db =
     (case err of Some e \<Rightarrow> (Some e, db)
      | None \<Rightarrow>
          (None, fold (add_column now ''orders'') order_added
            (create_table ''orders'' orders_columns [''id'', ''idempotency_key''] db)))"

section \<open>Rows as the services read them\<close>

fun text_cell :: "cell option \<Rightarrow> string option" where
  "text_cell (Some (Text s)) = Some s"
| "text_cell _ = None"

fun null_text_cell :: "cell option \<Rightarrow> string option option" where
  "null_text_cell (Some Null) = Some None"
| "null_text_cell (Some (Text s)) = Some (Some s)"
| "null_text_cell _ = None"

fun time_cell :: "cell option \<Rightarrow> int option" where
  "time_cell (Some (Time i)) = Some i"
| "time_cell _ = None"

fun number_cell :: "cell option \<Rightarrow> int option" where
  "number_cell (Some (Number i)) = Some i"
| "number_cell _ = None"

fun json_cell :: "cell option \<Rightarrow> json option" where
  "json_cell (Some (Json j)) = Some j"
| "json_cell _ = None"

fun truth_cell :: "cell option \<Rightarrow> bool option" where
  "truth_cell (Some (Truth b)) = Some b"
| "truth_cell _ = None"

definition stored_order :: "(string \<Rightarrow> cell option) \<Rightarrow> order_row option" where
  "stored_order r =
     (case (text_cell (r ''id''), text_cell (r ''idempotency_key''), text_cell (r ''request_hash''),
            null_text_cell (r ''payment_id''), text_cell (r ''status''), null_text_cell (r ''gateway''),
            null_text_cell (r ''provider_ref''), null_text_cell (r ''error''), time_cell (r ''created_at'')) of
        (Some i, Some k, Some h, Some p, Some s, Some g, Some ref, Some e, Some t) \<Rightarrow>
          Some \<lparr>ord_id = i, ord_key = k, ord_hash = h, ord_payment_id = p, ord_status = s, ord_gateway = g,
            ord_provider_ref = ref, ord_error = e, ord_created_at = t\<rparr>
      | _ \<Rightarrow> None)"

definition stored_participant :: "(string \<Rightarrow> cell option) \<Rightarrow> participant_row option" where
  "stored_participant r =
     (case (text_cell (r ''id''), text_cell (r ''instrument''), text_cell (r ''gateway''), json_cell (r ''roles''),
            truth_cell (r ''active'')) of
        (Some i, Some ins, Some g, Some roles, Some a) \<Rightarrow>
          Some \<lparr>prow_id = i, prow_instrument = ins, prow_gateway = g, prow_roles = roles, prow_active = a\<rparr>
      | _ \<Rightarrow> None)"

definition stored_payment :: "(string \<Rightarrow> cell option) \<Rightarrow> payment_row option" where
  "stored_payment r =
     (case (text_cell (r ''id''), text_cell (r ''idempotency_key''), text_cell (r ''request_hash''),
            number_cell (r ''amount_minor''), text_cell (r ''currency''), text_cell (r ''instrument''),
            text_cell (r ''participant_id''), text_cell (r ''debtor_participant_id''),
            text_cell (r ''creditor_participant_id''), text_cell (r ''reference''), text_cell (r ''status''),
            text_cell (r ''gateway''), null_text_cell (r ''provider_ref''), null_text_cell (r ''error''),
            time_cell (r ''created_at''), time_cell (r ''updated_at'')) of
        (Some i, Some k, Some h, Some a, Some cur, Some ins, Some pa, Some d, Some c, Some ref, Some st, Some g,
         Some pr, Some e, Some t, Some u) \<Rightarrow>
          Some \<lparr>row_id = i, row_key = k, row_hash = h, row_amount_minor = a, row_currency = cur, row_instrument = ins,
            row_participant_id = pa, row_debtor = d, row_creditor = c, row_reference = ref, row_status = st,
            row_gateway = g, row_provider_ref = pr, row_error = e, row_created_at = t, row_updated_at = u\<rparr>
      | _ \<Rightarrow> None)"

text \<open>The rows of a table; a cell that is not of its column's type does not occur.\<close>

definition stored_rows :: "((string \<Rightarrow> cell option) \<Rightarrow> 'r option) \<Rightarrow> string \<Rightarrow> database \<Rightarrow> 'r list" where
  "stored_rows f n db = (case db n of None \<Rightarrow> [] | Some t \<Rightarrow> List.map_filter f (st_rows t))"

section \<open>Ensuring twice is ensuring once\<close>

lemma widen_simps [simp]:
  "has_column (widen now c t) n \<longleftrightarrow> has_column t n \<or> n = col_name c"
  "length (st_rows (widen now c t)) = length (st_rows t)"
  by (auto simp: widen_def has_column_def)

lemma add_column_Some [simp]: "db n = Some t \<Longrightarrow> add_column now n c db = db(n \<mapsto> widen now c t)"
  by (simp add: add_column_def)

lemma fold_add_column:
  "db n = Some t \<Longrightarrow> fold (add_column now n) cs db = db(n \<mapsto> fold (widen now) cs t)"
proof (induction cs arbitrary: db t)
  case (Cons c cs)
  have "fold (add_column now n) cs (db(n \<mapsto> widen now c t)) =
      (db(n \<mapsto> widen now c t))(n \<mapsto> fold (widen now) cs (widen now c t))"
    by (rule Cons.IH) simp
  with Cons.prems show ?case by (simp only: fold.simps o_apply add_column_Some fun_upd_upd)
qed (simp add: fun_upd_idem)

lemma has_column_fold [simp]:
  "has_column (fold (widen now) cs t) n \<longleftrightarrow> has_column t n \<or> n \<in> col_name ` set cs"
  by (induction cs arbitrary: t) auto

lemma widen_all_there: "(\<And>c. c \<in> set cs \<Longrightarrow> has_column t (col_name c)) \<Longrightarrow> fold (widen now) cs t = t"
  by (induction cs arbitrary: t) (auto simp: widen_def)

lemma create_table_there: "db n = Some t \<Longrightarrow> create_table n cols u db = db"
  by (simp add: create_table_def)

lemma add_columns_settled:
  assumes "db n = Some t" "\<And>c. c \<in> set cs \<Longrightarrow> has_column t (col_name c)"
  shows "fold (add_column now n) cs (create_table n cols u db) = db"
  using assms by (simp add: create_table_there fold_add_column widen_all_there fun_upd_idem)

lemma add_columns_settle:
  "\<exists>t. fold (add_column now n) cs (create_table n cols u db) n = Some t \<and> (\<forall>c \<in> set cs. has_column t (col_name c))"
proof -
  have "\<exists>t. create_table n cols u db n = Some t" by (auto simp: create_table_def split: option.splits)
  then show ?thesis by (auto simp: fold_add_column)
qed

lemma create_index_simps [simp]:
  "create_index n i (create_index n i db) = create_index n i db"
  "db n = Some t \<Longrightarrow> create_index n i db n = Some (t\<lparr>st_indexes := List.insert i (st_indexes t)\<rparr>)"
  by (auto simp: create_index_def fun_eq_iff split: option.splits)

lemma set_default_simps [simp]:
  "set_default n c d (set_default n c d db) = set_default n c d db"
  "db n = Some t \<Longrightarrow> set_default n c d db n =
    Some (t\<lparr>st_columns := map (\<lambda>x. if col_name x = c then x\<lparr>col_default := d\<rparr> else x) (st_columns t)\<rparr>)"
  by (auto simp: set_default_def fun_eq_iff split: option.splits)

lemma has_column_default [simp]:
  "has_column (t\<lparr>st_columns := map (\<lambda>x. if col_name x = c then x\<lparr>col_default := d\<rparr> else x) (st_columns t)\<rparr>) n \<longleftrightarrow>
   has_column t n"
proof -
  have "col_name ` set (map (\<lambda>x. if col_name x = c then x\<lparr>col_default := d\<rparr> else x) cs) = col_name ` set cs" for cs
    by (induction cs) auto
  from this [of "st_columns t"] show ?thesis unfolding has_column_def by (simp del: set_map list.set_map)
qed

lemma EnsureParticipants_idem:
  "snd (EnsureParticipants later None (snd (EnsureParticipants now None db))) = snd (EnsureParticipants now None db)"
proof -
  let ?d = "Constant (Json (JArr []))"
  let ?db = "set_default ''participants'' ''roles'' ?d
      (fold (add_column now ''participants'') [roles_column] (create_table ''participants'' participants_columns [''id''] db))"
  obtain t where t: "fold (add_column now ''participants'') [roles_column]
      (create_table ''participants'' participants_columns [''id''] db) ''participants'' = Some t"
      "has_column t (col_name roles_column)"
    using add_columns_settle [of now "''participants''" "[roles_column]" participants_columns "[''id'']" db] by auto
  have "fold (add_column later ''participants'') [roles_column]
      (create_table ''participants'' participants_columns [''id''] ?db) = ?db"
    by (rule add_columns_settled, rule set_default_simps(2), rule t(1)) (simp add: t(2))
  then show ?thesis by (simp add: EnsureParticipants_def)
qed

lemma EnsurePayments_idem:
  "snd (EnsurePayments later None (snd (EnsurePayments now None db))) = snd (EnsurePayments now None db)"
proof -
  let ?db = "create_index ''payments'' ''payments_status_idx''
      (fold (add_column now ''payments'') payment_added (create_table ''payments'' payments_columns [''id'', ''idempotency_key''] db))"
  obtain t where t: "?db ''payments'' = Some t" "\<forall>c \<in> set payment_added. has_column t (col_name c)"
    using add_columns_settle [of now "''payments''" payment_added payments_columns "[''id'', ''idempotency_key'']" db]
    by (auto simp: has_column_def)
  then have "fold (add_column later ''payments'') payment_added
      (create_table ''payments'' payments_columns [''id'', ''idempotency_key''] ?db) = ?db"
    by (intro add_columns_settled) auto
  then show ?thesis by (simp add: EnsurePayments_def)
qed

lemma EnsureOperator_idem:
  "snd (EnsureOperator later None (snd (EnsureOperator now None db))) = snd (EnsureOperator now None db)"
proof -
  obtain t where "snd (EnsureOperator now None db) ''orders'' = Some t" "\<forall>c \<in> set order_added. has_column t (col_name c)"
    using add_columns_settle [of now "''orders''" order_added orders_columns "[''id'', ''idempotency_key'']" db]
    by (auto simp: EnsureOperator_def)
  then have "fold (add_column later ''orders'') order_added
      (create_table ''orders'' orders_columns [''id'', ''idempotency_key''] (snd (EnsureOperator now None db))) =
      snd (EnsureOperator now None db)"
    by (intro add_columns_settled) auto
  then show ?thesis by (simp add: EnsureOperator_def)
qed

section \<open>An upgrade loses nothing\<close>

text \<open>Rows have cells in the columns of their table only.\<close>

definition well_stored :: "database \<Rightarrow> bool" where
  "well_stored db \<longleftrightarrow> (\<forall>n t. db n = Some t \<longrightarrow> (\<forall>r \<in> set (st_rows t). \<forall>k. r k \<noteq> None \<longrightarrow> has_column t k))"

definition db_grows :: "database \<Rightarrow> database \<Rightarrow> bool" where
  "db_grows db db' \<longleftrightarrow> (well_stored db \<longrightarrow> well_stored db' \<and>
     (\<forall>n t. db n = Some t \<longrightarrow> (\<exists>t'. db' n = Some t' \<and> list_all2 (\<subseteq>\<^sub>m) (st_rows t) (st_rows t'))))"

lemma db_grows_refl: "db_grows db db"
  by (auto simp: db_grows_def list_all2_same)

lemma db_grows_trans [trans]:
  assumes "db_grows a b" "db_grows b c"
  shows "db_grows a c"
  unfolding db_grows_def
proof (intro impI conjI allI)
  assume wf: "well_stored a"
  then show "well_stored c" using assms by (auto simp: db_grows_def)
  fix n t assume "a n = Some t"
  then obtain u where u: "b n = Some u" "list_all2 (\<subseteq>\<^sub>m) (st_rows t) (st_rows u)"
    using assms(1) wf unfolding db_grows_def by meson
  moreover obtain v where "c n = Some v" "list_all2 (\<subseteq>\<^sub>m) (st_rows u) (st_rows v)"
    using assms wf u(1) unfolding db_grows_def by meson
  moreover have "list_all2 (\<subseteq>\<^sub>m) (st_rows t) (st_rows v)"
    by (rule list_all2_trans [OF map_le_trans calculation(2,4)])
  ultimately show "\<exists>v. c n = Some v \<and> list_all2 (\<subseteq>\<^sub>m) (st_rows t) (st_rows v)" by blast
qed

lemma db_grows_upd:
  assumes "db n = Some t" "list_all2 (\<subseteq>\<^sub>m) (st_rows t) (st_rows t')"
    "\<forall>r \<in> set (st_rows t). (\<forall>k. r k \<noteq> None \<longrightarrow> has_column t k) \<Longrightarrow>
     \<forall>r \<in> set (st_rows t'). (\<forall>k. r k \<noteq> None \<longrightarrow> has_column t' k)"
  shows "db_grows db (db(n \<mapsto> t'))"
  unfolding db_grows_def
proof (intro impI conjI)
  assume wf: "well_stored db"
  then have "\<forall>r \<in> set (st_rows t'). \<forall>k. r k \<noteq> None \<longrightarrow> has_column t' k"
    using assms(1,3) unfolding well_stored_def by blast
  then show "well_stored (db(n \<mapsto> t'))" using wf by (simp add: well_stored_def)
  show "\<forall>n' u. db n' = Some u \<longrightarrow> (\<exists>t'a. (db(n \<mapsto> t')) n' = Some t'a \<and> list_all2 (\<subseteq>\<^sub>m) (st_rows u) (st_rows t'a))"
    using assms(1,2) by (simp add: list_all2_same)
qed

lemma db_grows_create_table: "db_grows db (create_table n cols u db)"
  by (auto simp: db_grows_def create_table_def well_stored_def list_all2_same split: option.splits)

lemma db_grows_add_column: "db_grows db (add_column now n c db)"
proof (cases "db n")
  case (Some t)
  show ?thesis
  proof (cases "has_column t (col_name c)")
    case False
    show ?thesis
    proof (cases "well_stored db")
      case True
      then have "\<forall>r \<in> set (st_rows t). r (col_name c) = None"
        using Some False unfolding well_stored_def by blast
      then have "list_all2 (\<subseteq>\<^sub>m) (st_rows t) (st_rows (widen now c t))"
        using False by (auto simp: widen_def list_all2_map2 map_le_def dom_def intro!: list.rel_refl_strong)
      then show ?thesis
        using Some False by (auto simp: widen_def has_column_def intro!: db_grows_upd split: if_splits)
    qed (simp add: db_grows_def)
  qed (use Some db_grows_refl in \<open>simp add: widen_def fun_upd_idem\<close>)
qed (simp add: add_column_def db_grows_refl)

lemma db_grows_add_columns: "db_grows db (fold (add_column now n) cs db)"
  by (induction cs arbitrary: db) (auto simp: db_grows_refl intro: db_grows_trans [OF db_grows_add_column])

lemma db_grows_create_index: "db_grows db (create_index n i db)"
  by (auto simp: create_index_def has_column_def list_all2_same db_grows_refl intro!: db_grows_upd split: option.splits)

lemma db_grows_set_default: "db_grows db (set_default n c d db)"
  by (auto simp: set_default_def list_all2_same db_grows_refl intro!: db_grows_upd split: option.splits)

lemma Ensure_grows:
  "db_grows db (snd (EnsureParticipants now err db))"
  "db_grows db (snd (EnsurePayments now err db))"
  "db_grows db (snd (EnsureOperator now err db))"
  unfolding EnsureParticipants_def EnsurePayments_def EnsureOperator_def
  by (auto split: option.splits intro: db_grows_refl db_grows_create_table db_grows_add_columns
    db_grows_trans [OF db_grows_create_table] db_grows_trans [OF db_grows_add_column db_grows_set_default]
    db_grows_trans [OF db_grows_add_columns db_grows_create_index])

text \<open>A row that can be read is read the same with more cells.\<close>

definition reads_on :: "((string \<Rightarrow> cell option) \<Rightarrow> 'r option) \<Rightarrow> bool" where
  "reads_on f \<longleftrightarrow> (\<forall>r r' x. f r = Some x \<longrightarrow> r \<subseteq>\<^sub>m r' \<longrightarrow> f r' = Some x)"

lemma map_le_Some: "r \<subseteq>\<^sub>m r' \<Longrightarrow> r k = Some v \<Longrightarrow> r' k = Some v"
  by (metis domI map_le_def)

lemma cells_on:
  assumes "r \<subseteq>\<^sub>m r'"
  shows "text_cell (r k) \<noteq> None \<Longrightarrow> text_cell (r' k) = text_cell (r k)"
    "null_text_cell (r k) \<noteq> None \<Longrightarrow> null_text_cell (r' k) = null_text_cell (r k)"
    "time_cell (r k) \<noteq> None \<Longrightarrow> time_cell (r' k) = time_cell (r k)"
    "number_cell (r k) \<noteq> None \<Longrightarrow> number_cell (r' k) = number_cell (r k)"
    "json_cell (r k) \<noteq> None \<Longrightarrow> json_cell (r' k) = json_cell (r k)"
    "truth_cell (r k) \<noteq> None \<Longrightarrow> truth_cell (r' k) = truth_cell (r k)"
  by (cases "r k"; simp add: map_le_Some [OF assms])+

lemma stored_order_on: "reads_on stored_order"
  unfolding reads_on_def stored_order_def
  by (intro allI impI) (simp add: cells_on split: option.splits)

lemma stored_participant_on: "reads_on stored_participant"
  unfolding reads_on_def stored_participant_def
  by (intro allI impI) (simp add: cells_on split: option.splits)

lemma stored_payment_on: "reads_on stored_payment"
  unfolding reads_on_def stored_payment_def
  by (intro allI impI) (simp add: cells_on split: option.splits)

lemmas stored_reads_on = stored_order_on stored_participant_on stored_payment_on

lemma db_grows_stored_rows:
  assumes "db_grows db db'" "well_stored db" "reads_on f"
  shows "set (stored_rows f n db) \<subseteq> set (stored_rows f n db')"
proof (cases "db n")
  case (Some t)
  then obtain t' where t': "db' n = Some t'" "list_all2 (\<subseteq>\<^sub>m) (st_rows t) (st_rows t')"
    using assms(1,2) unfolding db_grows_def by meson
  show ?thesis
  proof
    fix x assume "x \<in> set (stored_rows f n db)"
    then obtain r where "r \<in> set (st_rows t)" "f r = Some x"
      using Some by (auto simp: stored_rows_def List.map_filter_def)
    moreover then obtain r' where "r' \<in> set (st_rows t')" "r \<subseteq>\<^sub>m r'"
      using t'(2) by (metis list_all2_conv_all_nth in_set_conv_nth)
    ultimately have "r' \<in> set (st_rows t')" "f r' = Some x"
      using assms(3) unfolding reads_on_def by blast+
    then show "x \<in> set (stored_rows f n db')"
      using t'(1) by (force simp: stored_rows_def List.map_filter_def)
  qed
qed (simp add: stored_rows_def)

lemma Ensure_keeps_rows:
  assumes "well_stored db"
  shows "set (stored_rows stored_participant n db) \<subseteq> set (stored_rows stored_participant n (snd (EnsureParticipants now err db)))"
    "set (stored_rows stored_payment n db) \<subseteq> set (stored_rows stored_payment n (snd (EnsurePayments now err db)))"
    "set (stored_rows stored_order n db) \<subseteq> set (stored_rows stored_order n (snd (EnsureOperator now err db)))"
  by (rule db_grows_stored_rows, rule Ensure_grows, rule assms, rule stored_reads_on)+

text \<open>A service that finds no table starts with no rows.\<close>

lemma no_rows:
  assumes "db n = None"
  shows "stored_rows f n (fold (add_column now n) cs (create_table n cols u db)) = []"
proof -
  have rows: "st_rows (fold (widen now) cs t) = []" if "st_rows t = []" for t
    using that by (induction cs arbitrary: t) (auto simp: widen_def)
  show ?thesis
    using assms by (simp add: stored_rows_def create_table_def fold_add_column rows map_filter_simps)
qed

end
