(* ===== verification/Startup.thy ===== *)
theory Startup
  imports Mesh Tracing Gateway_Runs Schema
begin

text \<open>
  The \<open>main\<close> functions under \<open>cmd/\<close>: a process ends with an error (\<open>log.Fatal\<close>) or listens on
  an address with a state to serve from. The database is reached through \<open>connect\<close>, which
  says for each attempt on a URL whether it is there and with which tables; \<open>ddl\<close> is the
  error of the \<open>Ensure\<close> statements, \<open>now\<close> the time they run.
\<close>

datatype 's start = Fatal string | Listening string 's

definition open_url ::
  "(string \<Rightarrow> string) \<Rightarrow> string \<Rightarrow> (nat \<Rightarrow> string \<Rightarrow> 'db open_result) \<Rightarrow> 'db open_result" where
  "open_url env name connect = openWithRetry (\<lambda>i. Open_db env name (connect i))"

definition ensured ::
  "(database \<Rightarrow> string option \<times> database) \<Rightarrow> database open_result \<Rightarrow> database open_result" where
  "ensured ensure opened =
     (case opened of OpenFailed e \<Rightarrow> OpenFailed e
      | Opened db \<Rightarrow> (case ensure db of (Some e, db') \<Rightarrow> OpenFailed e | (None, db') \<Rightarrow> Opened db'))"

definition http_addr :: "(string \<Rightarrow> string) \<Rightarrow> string" where
  "http_addr env = getenv env ''HTTP_ADDR'' '':8080''"

definition manager_main ::
  "(string \<Rightarrow> string) \<Rightarrow> (nat \<Rightarrow> string \<Rightarrow> database open_result) \<Rightarrow> int \<Rightarrow> string option \<Rightarrow> string option \<Rightarrow> manager start" where
  "manager_main env connect now ddl seed_error =
     (case ensured (EnsureParticipants now ddl) (open_url env ''PARTICIPANT_DATABASE_URL'' connect) of
        OpenFailed e \<Rightarrow> Fatal e
      | Opened db \<Rightarrow>
          (case seed_error of
             Some e \<Rightarrow> Fatal e
           | None \<Rightarrow>
               Listening (http_addr env)
                 \<lparr>m_rows = seed (stored_rows stored_participant ''participants'' db), m_metrics = zero_metrics\<rparr>))"

definition operator_main ::
  "(string \<Rightarrow> string) \<Rightarrow> (nat \<Rightarrow> string \<Rightarrow> database open_result) \<Rightarrow> int \<Rightarrow> string option \<Rightarrow> operator start" where
  "operator_main env connect now ddl =
     (case ensured (EnsureOperator now ddl) (open_url env ''OPERATOR_DATABASE_URL'' connect) of
        OpenFailed e \<Rightarrow> Fatal e
      | Opened db \<Rightarrow>
          Listening (http_addr env) \<lparr>op_rows = stored_rows stored_order ''orders'' db, op_metrics = zero_metrics\<rparr>)"

text \<open>The client both adapters of the router share: \<open>Timeout\<close> in nanoseconds.\<close>

record provider_client =
  pc_Timeout :: int
  pc_InsecureSkipVerify :: bool

definition timeDuration :: "int \<Rightarrow> int" where
  "timeDuration seconds = sint (word_of_int (seconds * 1000000000) :: 64 word)"

definition NewProviderClient :: "int \<Rightarrow> bool \<Rightarrow> provider_client" where
  "NewProviderClient timeoutSeconds insecureTLS =
     \<lparr>pc_Timeout = timeDuration timeoutSeconds, pc_InsecureSkipVerify = insecureTLS\<rparr>"

definition router_main ::
  "(string \<Rightarrow> string) \<Rightarrow> (nat \<Rightarrow> string \<Rightarrow> database open_result) \<Rightarrow> int \<Rightarrow> string option \<Rightarrow>
   (router \<times> provider_client) start" where
  "router_main env connect now ddl =
     (case ensured (EnsurePayments now ddl) (open_url env ''ROUTER_DATABASE_URL'' connect) of
        OpenFailed e \<Rightarrow> Fatal e
      | Opened db \<Rightarrow>
          Listening (http_addr env)
            (\<lparr>r_rows = stored_rows stored_payment ''payments'' db, r_circuits = main_circuits, r_metrics = zero_metrics\<rparr>,
             NewProviderClient 3 (getenv env ''GATEWAY_TLS_INSECURE'' ''false'' = ''true'')))"

section \<open>The gateway\<close>

text \<open>
  \<open>run\<close>: tracing first, then the state file; then it serves, over TLS when both files are
  named, until serving fails or a signal stops it.
\<close>

record gateway_server =
  gsv_Addr :: string
  gsv_service :: string
  gsv_exporter :: "otlp_options option"
  gsv_tls :: "(string \<times> string) option"
  gsv_gateway :: gateway

definition gateway_start ::
  "(string \<Rightarrow> string + url) \<Rightarrow> (string \<Rightarrow> string) \<Rightarrow> state_file \<Rightarrow> string + gateway_server" where
  "gateway_start parse_url env disk =
     (let serviceName = getenv env ''OTEL_SERVICE_NAME'' (getenv env ''GATEWAY_NAME'' ''gateway'') in
      case NewTracerProvider parse_url env of
        Inl e \<Rightarrow> Inl e
      | Inr exporter \<Rightarrow>
          (case loadState (new_gateway env disk) of
             None \<Rightarrow> Inl ''gateway state''
           | Some g \<Rightarrow>
               Inr \<lparr>gsv_Addr = http_addr env, gsv_service = serviceName, gsv_exporter = exporter,
                 gsv_tls = (if env ''TLS_CERT_FILE'' \<noteq> [] \<and> env ''TLS_KEY_FILE'' \<noteq> []
                   then Some (env ''TLS_CERT_FILE'', env ''TLS_KEY_FILE'') else None),
                 gsv_gateway = g\<rparr>))"

datatype gateway_end = ServerClosed | ServeFailed string | Signalled "string option"

definition run_result :: "gateway_end \<Rightarrow> string option" where
  "run_result ending =
     (case ending of ServerClosed \<Rightarrow> None | ServeFailed e \<Rightarrow> Some e | Signalled shutdown_error \<Rightarrow> shutdown_error)"

definition gateway_run ::
  "(string \<Rightarrow> string + url) \<Rightarrow> (string \<Rightarrow> string) \<Rightarrow> state_file \<Rightarrow> gateway_end \<Rightarrow> string option" where
  "gateway_run parse_url env disk ending =
     (case gateway_start parse_url env disk of Inl e \<Rightarrow> Some e | Inr server \<Rightarrow> run_result ending)"

section \<open>Facts\<close>

lemma ensured_Opened:
  "ensured ensure opened = Opened db' \<longleftrightarrow> (\<exists>db. opened = Opened db \<and> ensure db = (None, db'))"
  by (auto simp: ensured_def split: open_result.splits option.splits prod.splits)

lemma open_url_Opened:
  "open_url env name connect = Opened db \<Longrightarrow> env name \<noteq> [] \<and> (\<exists>i < 30. connect i (env name) = Opened db)"
  by (auto simp: open_url_def openWithRetry_def open_loop_Opened Open_db_def split: if_splits)

lemma manager_main_inv:
  assumes "manager_main env connect now ddl seed_error = Listening addr m"
    "\<And>i url db. connect i url = Opened db \<Longrightarrow>
      manager_inv (stored_rows stored_participant ''participants'' (snd (EnsureParticipants now None db)))"
  shows "manager_inv (m_rows m)"
proof -
  obtain db db' where db: "open_url env ''PARTICIPANT_DATABASE_URL'' connect = Opened db"
    "EnsureParticipants now ddl db = (None, db')" "m_rows m = seed (stored_rows stored_participant ''participants'' db')"
    using assms(1) by (auto simp: manager_main_def ensured_Opened split: open_result.splits option.splits)
  then have "db' = snd (EnsureParticipants now None db)"
    by (auto simp: EnsureParticipants_def split: option.splits)
  then show ?thesis
    using db assms(2) open_url_Opened [OF db(1)] by (auto intro!: manager_inv_seed)
qed

text \<open>An operator starts with every order that is stored, whatever version made the table.\<close>

lemma operator_main_orders:
  assumes "operator_main env connect now ddl = Listening addr s"
  obtains i url db where "connect i url = Opened db"
    "well_stored db \<Longrightarrow> set (stored_rows stored_order ''orders'' db) \<subseteq> set (op_rows s)"
proof -
  obtain db db' where db: "open_url env ''OPERATOR_DATABASE_URL'' connect = Opened db"
    "EnsureOperator now ddl db = (None, db')" "op_rows s = stored_rows stored_order ''orders'' db'"
    using assms by (auto simp: operator_main_def ensured_Opened split: open_result.splits)
  then have "op_rows s = stored_rows stored_order ''orders'' (snd (EnsureOperator now ddl db))" by simp
  moreover obtain i where "connect i (env ''OPERATOR_DATABASE_URL'') = Opened db"
    using open_url_Opened [OF db(1)] by blast
  ultimately show thesis using that [of i "env ''OPERATOR_DATABASE_URL''" db] Ensure_keeps_rows(3) by simp
qed

lemma router_main_circuits:
  "router_main env connect now ddl = Listening addr (s, client) \<Longrightarrow>
    r_circuits s gw = (if gw \<in> {''gateway-card'', ''gateway-bank''} then Some (NewCircuit 5 30000000000) else None)"
  by (auto simp: router_main_def main_circuits_def split: open_result.splits)

text \<open>A gateway that starts serves from what a restart would load.\<close>

lemma gateway_start_restart:
  "gateway_start parse_url (g_env g) (g_disk g) = Inr server \<Longrightarrow> restart g = Some (gsv_gateway server)"
  by (auto simp: gateway_start_def restart_def Let_def split: sum.splits option.splits)

end
