(* ===== verification/Go_Csv.thy ===== *)
theory Go_Csv
  imports Http "HOL-Library.List_Lexorder" "HOL-Library.Char_ord"
begin

text \<open>
  What the report generator uses of Go's standard library: a reader of \<open>encoding/csv\<close> with its
  default settings, \<open>strings.Fields\<close>, \<open>strconv.Atoi\<close>, subtraction of \<open>int\<close>s, and
  \<open>fmt\<close>'s verbs for integers and booleans. Strings are ordered by their bytes, as \<open>sort.Strings\<close>
  orders them.
\<close>

section \<open>Lines\<close>

text \<open>
  \<open>readLine\<close>: the lines of a file with their line ends, where CR LF counts as LF and a CR
  before the end of the file is dropped.
\<close>

definition newline :: char where
  "newline = CHR 0x0A"

definition normal_line :: "string \<Rightarrow> string" where
  "normal_line l = (if 2 \<le> length l \<and> drop (length l - 2) l = [CHR 0x0D, newline] then take (length l - 2) l @ [newline] else l)"

definition last_line :: "string \<Rightarrow> string list" where
  "last_line l = (if l = [] then [] else if last l = CHR 0x0D then [butlast l] else [l])"

fun csv_lines :: "string \<Rightarrow> string \<Rightarrow> string list" where
  "csv_lines line [] = last_line line"
| "csv_lines line (c # s) =
     (if c = newline then normal_line (line @ [c]) # csv_lines [] s else csv_lines (line @ [c]) s)"

text \<open>A line without its end.\<close>

definition drop_newline :: "string \<Rightarrow> string" where
  "drop_newline l = (if l \<noteq> [] \<and> last l = newline then butlast l else l)"

section \<open>Records\<close>

definition quote :: char where
  "quote = CHR 0x22"

text \<open>
  \<open>readRecord\<close> on the current line, with the lines after it and the fields so far;
  \<open>csv_quoted\<close> is inside a quoted field, whose text so far is \<open>buf\<close>. \<open>None\<close> is a
  parse error.
\<close>

function csv_fields :: "string list \<Rightarrow> string \<Rightarrow> string list \<Rightarrow> (string list \<times> string list) option"
  and csv_quoted :: "string list \<Rightarrow> string \<Rightarrow> string \<Rightarrow> string list \<Rightarrow> (string list \<times> string list) option" where
  "csv_fields ls line row =
     (if take 1 line = [quote] then csv_quoted ls (drop 1 line) [] row
      else
        (let field = takeWhile (\<lambda>c. c \<noteq> CHR '','') line in
         if length field < length line then
           (if quote \<in> set field then None else csv_fields ls (drop (length field + 1) line) (row @ [field]))
         else
           (if quote \<in> set (drop_newline line) then None else Some (row @ [drop_newline line], ls))))"
| "csv_quoted ls line buf row =
     (let part = takeWhile (\<lambda>c. c \<noteq> quote) line; rest = drop (length part + 1) line in
      if length part < length line then
        (if take 1 rest = [quote] then csv_quoted ls (drop 1 rest) (buf @ part @ [quote]) row
         else if take 1 rest = '','' then csv_fields ls (drop 1 rest) (row @ [buf @ part])
         else if drop_newline rest = [] then Some (row @ [buf @ part], ls)
         else None)
      else if line = [] then None
      else case ls of
        [] \<Rightarrow> csv_quoted [] [] (buf @ line) row
      | l # ls' \<Rightarrow> csv_quoted ls' l (buf @ line) row)"
  by pat_completeness auto

termination
  by (relation "measure (\<lambda>x. case x of
      Inl (ls, line, row) \<Rightarrow> length (concat ls) + length line
    | Inr (ls, line, buf, row) \<Rightarrow> length (concat ls) + length line)")
    (auto simp: Let_def dest: arg_cong [of "take _ _" _ length])

declare csv_fields.simps [simp del] csv_quoted.simps [simp del]

datatype csv_result = CsvEnd | CsvError | CsvRow "string list" "string list"

fun csv_next :: "string list \<Rightarrow> csv_result" where
  "csv_next [] = CsvEnd"
| "csv_next (l # ls) =
     (if drop_newline l = [] then csv_next ls
      else case csv_fields ls l [] of None \<Rightarrow> CsvError | Some (row, rest) \<Rightarrow> CsvRow row rest)"

section \<open>\<open>strings.Fields\<close>\<close>

function go_fields :: "string \<Rightarrow> string \<Rightarrow> string list" where
  "go_fields word [] = (if word = [] then [] else [word])"
| "go_fields word (c # s) =
     (case strip_one space_runes (c # s) of
        Some r \<Rightarrow> (if word = [] then go_fields [] r else word # go_fields [] r)
      | None \<Rightarrow> go_fields (word @ [c]) s)"
  by pat_completeness auto

termination
  by (relation "measure (\<lambda>(word, s). length s)") (auto dest: strip_one_shorter)

definition Fields :: "string \<Rightarrow> string list" where
  "Fields s = go_fields [] s"

section \<open>Numbers\<close>

definition wrap64 :: "int \<Rightarrow> int" where
  "wrap64 i = sint (word_of_int i :: 64 word)"

definition bool_text :: "bool \<Rightarrow> string" where
  "bool_text b = (if b then ''true'' else ''false'')"

lemma wrap64_id: "in_int64 i \<Longrightarrow> wrap64 i = i"
  by (simp add: wrap64_def in_int64_def int64_min_def int64_max_def signed_of_int signed_take_bit_int_eq_self)

end
