(* ===== verification/Reports.thy ===== *)
theory Reports
  imports Go_Csv
begin

text \<open>
  \<open>scripts/reportgen/main.go\<close>: the verdicts on the six experiments and the report, computed
  from the artefacts of the latest run. The file system, SHA-256 and IEEE arithmetic are
  parameters. Paths are joined from clean elements only, where \<open>filepath.Join\<close> is
  \<open>join_path\<close>; a file is read as a whole.
\<close>

section \<open>What the generator runs on\<close>

record file_system =
  read_file :: "string \<Rightarrow> string \<times> bool"                \<comment> \<open>\<open>os.ReadFile\<close>: what was read, and whether all of it\<close>
  stat_ok :: "string \<Rightarrow> bool"                           \<comment> \<open>\<open>os.Stat\<close> has no error\<close>
  read_dir :: "string \<Rightarrow> (string \<times> bool) list \<times> bool"    \<comment> \<open>\<open>os.ReadDir\<close>: names, directory or not; whether all were read\<close>

record 'f floats =
  f_of_int :: "int \<Rightarrow> 'f"
  f_99 :: 'f                                          \<comment> \<open>the constant 0.99\<close>
  f_add :: "'f \<Rightarrow> 'f \<Rightarrow> 'f"
  f_mul :: "'f \<Rightarrow> 'f \<Rightarrow> 'f"
  f_div :: "'f \<Rightarrow> 'f \<Rightarrow> 'f"
  f_less :: "'f \<Rightarrow> 'f \<Rightarrow> bool"
  f_leq :: "'f \<Rightarrow> 'f \<Rightarrow> bool"
  f_equal :: "'f \<Rightarrow> 'f \<Rightarrow> bool"
  f_parse :: "string \<Rightarrow> 'f option"                    \<comment> \<open>\<open>strconv.ParseFloat\<close> without error\<close>
  f_finite :: "'f \<Rightarrow> bool"                           \<comment> \<open>neither NaN nor infinite\<close>
  f_text :: "nat \<Rightarrow> 'f \<Rightarrow> string"                    \<comment> \<open>\<open>%.nf\<close>\<close>

definition join_path :: "string \<Rightarrow> string \<Rightarrow> string" where
  "join_path a b = a @ ''/'' @ b"

definition readFile :: "file_system \<Rightarrow> string \<Rightarrow> string" where
  "readFile fs path = fst (read_file fs path)"

definition fileExists :: "file_system \<Rightarrow> string \<Rightarrow> bool" where
  "fileExists fs path = stat_ok fs path"

definition evidenceLink :: "string \<Rightarrow> string" where
  "evidenceLink path = ''../'' @ path"

definition readInt :: "file_system \<Rightarrow> string \<Rightarrow> int \<times> bool" where
  "readInt fs path =
     (let raw = trim_space (readFile fs path) in
      if raw = [] then (0, False) else (atoi raw, atoi_ok raw))"

definition status :: "bool \<Rightarrow> bool \<Rightarrow> string" where
  "status pass evidence = (if \<not> evidence then ''NOT EXECUTED'' else if pass then ''PASS'' else ''FAIL'')"

section \<open>JSON artefacts\<close>

text \<open>
  \<open>json.Unmarshal\<close> into a struct goes on after a value of the wrong type: the error is
  reported at the end, and the other fields are set.
\<close>

fun assign_all :: "'a field list \<Rightarrow> (string \<times> json) list \<Rightarrow> 'a \<Rightarrow> bool \<times> 'a" where
  "assign_all fs [] r = (True, r)"
| "assign_all fs ((k, v) # kvs) r =
     (case find_field fs k of
        None \<Rightarrow> assign_all fs kvs r
      | Some f \<Rightarrow>
          (case f v r of
             Some r' \<Rightarrow> assign_all fs kvs r'
           | None \<Rightarrow> (False, snd (assign_all fs kvs r))))"

definition readJSON :: "'a field list \<Rightarrow> 'a \<Rightarrow> file_system \<Rightarrow> string \<Rightarrow> bool \<times> 'a" where
  "readJSON fs z files path =
     (let (data, ok) = read_file files path in
      if \<not> ok then (False, z)
      else case unmarshal data of
        None \<Rightarrow> (False, z)
      | Some (JObj kvs) \<Rightarrow> assign_all fs kvs z
      | Some JNull \<Rightarrow> (True, z)
      | Some _ \<Rightarrow> (False, z))"

text \<open>Slices and maps of a fresh struct.\<close>

definition set_list :: "(json \<Rightarrow> 'e option) \<Rightarrow> ('e list \<Rightarrow> 'a \<Rightarrow> 'a) \<Rightarrow> json \<Rightarrow> 'a \<Rightarrow> 'a option" where
  "set_list dec upd j r =
     (case j of JArr xs \<Rightarrow> map_option (\<lambda>es. upd es r) (those (map dec xs))
      | JNull \<Rightarrow> Some (upd [] r) | _ \<Rightarrow> None)"

definition set_map ::
  "(json \<Rightarrow> 'e option) \<Rightarrow> ('a \<Rightarrow> string \<Rightarrow> 'e option) \<Rightarrow> ((string \<Rightarrow> 'e option) \<Rightarrow> 'a \<Rightarrow> 'a) \<Rightarrow> json \<Rightarrow> 'a \<Rightarrow> 'a option" where
  "set_map dec old upd j r =
     (case j of
        JObj kvs \<Rightarrow> map_option (\<lambda>es. upd (old r ++ map_of (rev es)) r)
          (those (map (\<lambda>(k, v). map_option (Pair k) (dec v)) kvs))
      | JNull \<Rightarrow> Some (upd Map.empty r) | _ \<Rightarrow> None)"

definition decode_text :: "json \<Rightarrow> string option" where
  "decode_text j = (case j of JStr s \<Rightarrow> Some s | JNull \<Rightarrow> Some [] | _ \<Rightarrow> None)"

record metadata =
  md_Experiment :: string
  md_Hypothesis :: string
  md_Metric :: string
  md_Criterion :: string
  md_Commit :: string
  md_Timestamp :: string
  md_Users :: int
  md_SpawnRate :: int
  md_Duration :: string

definition zero_metadata :: metadata where
  "zero_metadata = \<lparr>md_Experiment = [], md_Hypothesis = [], md_Metric = [], md_Criterion = [], md_Commit = [],
     md_Timestamp = [], md_Users = 0, md_SpawnRate = 0, md_Duration = []\<rparr>"

definition metadata_fields :: "metadata field list" where
  "metadata_fields =
    [(''Experiment'', set_string (\<lambda>s r. r\<lparr>md_Experiment := s\<rparr>)),
     (''Hypothesis'', set_string (\<lambda>s r. r\<lparr>md_Hypothesis := s\<rparr>)),
     (''Metric'', set_string (\<lambda>s r. r\<lparr>md_Metric := s\<rparr>)),
     (''Criterion'', set_string (\<lambda>s r. r\<lparr>md_Criterion := s\<rparr>)),
     (''Commit'', set_string (\<lambda>s r. r\<lparr>md_Commit := s\<rparr>)),
     (''Timestamp'', set_string (\<lambda>s r. r\<lparr>md_Timestamp := s\<rparr>)),
     (''users'', set_int64 (\<lambda>i r. r\<lparr>md_Users := i\<rparr>)),
     (''spawn_rate'', set_int64 (\<lambda>i r. r\<lparr>md_SpawnRate := i\<rparr>)),
     (''duration'', set_string (\<lambda>s r. r\<lparr>md_Duration := s\<rparr>))]"

record verdict =
  vd_Status :: string
  vd_Result :: string
  vd_Evidence :: string

definition verdict_fields :: "verdict field list" where
  "verdict_fields =
    [(''Status'', set_string (\<lambda>s r. r\<lparr>vd_Status := s\<rparr>)),
     (''Result'', set_string (\<lambda>s r. r\<lparr>vd_Result := s\<rparr>)),
     (''Evidence'', set_string (\<lambda>s r. r\<lparr>vd_Evidence := s\<rparr>))]"

record providerResult = pvr_Status :: string

definition providerResult_fields :: "providerResult field list" where
  "providerResult_fields = [(''status'', set_string (\<lambda>s r. r\<lparr>pvr_Status := s\<rparr>))]"

record gatewayStats = gs_EffectiveCharges :: int

definition gatewayStats_fields :: "gatewayStats field list" where
  "gatewayStats_fields = [(''effective_charges'', set_int64 (\<lambda>i r. r\<lparr>gs_EffectiveCharges := i\<rparr>))]"

record prometheusResult =
  px_Metric :: "string \<Rightarrow> string option"
  px_Value :: "json list"

definition prometheusResult_fields :: "prometheusResult field list" where
  "prometheusResult_fields =
    [(''Metric'', set_map decode_text px_Metric (\<lambda>m r. r\<lparr>px_Metric := m\<rparr>)),
     (''Value'', set_list Some (\<lambda>xs r. r\<lparr>px_Value := xs\<rparr>))]"

record prometheusVector =
  pv_Status :: string
  pv_ResultType :: string
  pv_Result :: "prometheusResult list"

definition vector_data_fields :: "prometheusVector field list" where
  "vector_data_fields =
    [(''ResultType'', set_string (\<lambda>s r. r\<lparr>pv_ResultType := s\<rparr>)),
     (''Result'', set_list (decode_struct prometheusResult_fields \<lparr>px_Metric = Map.empty, px_Value = []\<rparr>)
       (\<lambda>xs r. r\<lparr>pv_Result := xs\<rparr>))]"

text \<open>The inner struct \<open>Data\<close> is part of the record of the outer one.\<close>

definition prometheusVector_fields :: "prometheusVector field list" where
  "prometheusVector_fields =
    [(''Status'', set_string (\<lambda>s r. r\<lparr>pv_Status := s\<rparr>)),
     (''Data'', \<lambda>j r. decode_struct vector_data_fields r j)]"

section \<open>The load test\<close>

lemma csv_rest:
  "csv_fields ls line row = Some (row', rest) \<Longrightarrow> length rest \<le> length ls"
  "csv_quoted ls line buf row = Some (row', rest) \<Longrightarrow> length rest \<le> length ls"
proof (induction ls line row and ls line buf row rule: csv_fields_csv_quoted.induct)
  case (1 ls line row)
  show ?case
    using 1(3) 1(1) 1(2) [OF _ refl]
    by (simp only: csv_fields.simps [of ls line row] Let_def split: if_splits) simp_all
next
  case (2 ls line buf row)
  note ih = 2(1) [OF refl refl] 2(2) [OF refl refl] 2(3) [OF refl refl] 2(4) [OF refl refl]
  show ?case
    using 2(5) ih
    by (simp only: csv_quoted.simps [of ls line buf row] Let_def split: if_splits list.splits) auto
qed

lemma csv_next_shorter: "csv_next ls = CsvRow row rest \<Longrightarrow> length rest < length ls"
  by (induction ls) (auto split: if_splits option.splits dest: csv_rest)

definition column :: "string list \<Rightarrow> string \<Rightarrow> nat" where
  "column header = foldl (\<lambda>m (i, h). m(h := i)) (\<lambda>_. 0) (enumerate 0 header)"

text \<open>The rows after the header; every record must have the header's number of fields.\<close>

function locust_rows :: "(string \<Rightarrow> nat) \<Rightarrow> nat \<Rightarrow> string list \<Rightarrow> int \<times> int \<times> int \<times> bool" where
  "locust_rows col n ls =
     (case csv_next ls of
        CsvEnd \<Rightarrow> (0, 0, 0, False)
      | CsvError \<Rightarrow> (0, 0, 0, False)
      | CsvRow row rest \<Rightarrow>
          if length row \<noteq> n then (0, 0, 0, False)
          else if length row \<le> col ''Failure Count'' then locust_rows col n rest
          else if length row > 1 \<and> row ! 1 = ''Aggregated''
          then (atoi (row ! col ''Request Count''), atoi (row ! col ''Failure Count''), atoi (row ! col ''95%''), True)
          else locust_rows col n rest)"
  by pat_completeness auto

termination
  by (relation "measure (\<lambda>(col, n, ls). length ls)") (auto dest: csv_next_shorter)

declare locust_rows.simps [simp del]

definition locustStats :: "file_system \<Rightarrow> string \<Rightarrow> int \<times> int \<times> int \<times> bool" where
  "locustStats fs path =
     (let (data, ok) = read_file fs path in
      if \<not> ok then (0, 0, 0, False)
      else case csv_next (csv_lines [] data) of
        CsvRow header rest \<Rightarrow> locust_rows (column header) (length header) rest
      | _ \<Rightarrow> (0, 0, 0, False))"

section \<open>Traces\<close>

record traceSpan =
  sp_TraceID :: string
  sp_ProcessID :: string

record traceProcess = tp_ServiceName :: string

record traceRecord =
  tr_TraceID :: string
  tr_Spans :: "traceSpan list"
  tr_Processes :: "string \<Rightarrow> traceProcess option"

definition traceSpan_fields :: "traceSpan field list" where
  "traceSpan_fields =
    [(''traceID'', set_string (\<lambda>s r. r\<lparr>sp_TraceID := s\<rparr>)),
     (''processID'', set_string (\<lambda>s r. r\<lparr>sp_ProcessID := s\<rparr>))]"

definition traceProcess_fields :: "traceProcess field list" where
  "traceProcess_fields = [(''serviceName'', set_string (\<lambda>s r. r\<lparr>tp_ServiceName := s\<rparr>))]"

definition traceRecord_fields :: "traceRecord field list" where
  "traceRecord_fields =
    [(''traceID'', set_string (\<lambda>s r. r\<lparr>tr_TraceID := s\<rparr>)),
     (''spans'', set_list (decode_struct traceSpan_fields \<lparr>sp_TraceID = [], sp_ProcessID = []\<rparr>) (\<lambda>xs r. r\<lparr>tr_Spans := xs\<rparr>)),
     (''processes'', set_map (decode_struct traceProcess_fields \<lparr>tp_ServiceName = []\<rparr>) tr_Processes
        (\<lambda>m r. r\<lparr>tr_Processes := m\<rparr>))]"

definition traceCount :: "file_system \<Rightarrow> string \<Rightarrow> int" where
  "traceCount fs path =
     (let (ok, xs) = readJSON [(''data'', set_list Some (\<lambda>xs _. xs))] [] fs path
      in if \<not> ok then 0 else int (length xs))"

text \<open>The role a service plays in a payment.\<close>

definition service_role :: "string \<Rightarrow> string option" where
  "service_role service =
     (if contains_sub ''payment-operator'' service then Some ''operator''
      else if contains_sub ''payment-router'' service then Some ''router''
      else if contains_sub ''participant-payment-manager'' service then Some ''participant''
      else if contains_sub ''gateway-card'' service \<or> contains_sub ''gateway-bank'' service then Some ''gateway''
      else None)"

fun span_roles :: "traceRecord \<Rightarrow> traceSpan list \<Rightarrow> (string \<Rightarrow> bool) \<Rightarrow> (string \<Rightarrow> bool)" where
  "span_roles t [] roles = roles"
| "span_roles t (span # spans) roles =
     (if sp_TraceID span \<noteq> [] \<and> sp_TraceID span \<noteq> tr_TraceID t then span_roles t spans roles
      else
        (let service = (case tr_Processes t (sp_ProcessID span) of Some p \<Rightarrow> tp_ServiceName p | None \<Rightarrow> [])
         in case service_role service of
              Some role \<Rightarrow> span_roles t spans (roles(role := True))
            | None \<Rightarrow> span_roles t spans roles))"

fun coverage :: "traceRecord list \<Rightarrow> int \<Rightarrow> int \<Rightarrow> int \<times> int" where
  "coverage [] found complete = (found, complete)"
| "coverage (t # ts) found complete =
     (if tr_TraceID t = [] then coverage ts found complete
      else
        (let roles = span_roles t (tr_Spans t) (\<lambda>_. False)
         in if roles ''operator'' \<and> roles ''participant'' \<and> roles ''router'' \<and> roles ''gateway''
            then coverage ts (found + 1) (complete + 1)
            else coverage ts (found + 1) complete))"

definition decode_trace :: "json \<Rightarrow> traceRecord option" where
  "decode_trace = decode_struct traceRecord_fields \<lparr>tr_TraceID = [], tr_Spans = [], tr_Processes = Map.empty\<rparr>"

definition traceCoverage :: "file_system \<Rightarrow> string \<Rightarrow> int \<times> int" where
  "traceCoverage fs path =
     (let (ok, traces) = readJSON [(''data'', set_list decode_trace (\<lambda>xs _. xs))] [] fs path
      in if \<not> ok then (0, 0) else coverage traces 0 0)"

section \<open>Traffic of the mesh\<close>

record 'f mtlsMeasurement =
  mt_Percent :: 'f
  mt_Total :: 'f
  mt_MutualTLS :: 'f
  mt_NonTLS :: 'f
  mt_Unknown :: 'f
  mt_Hops :: "string list"     \<comment> \<open>the keys of the map, all of them true\<close>
  mt_Valid :: bool

definition zero_mtls :: "'f floats \<Rightarrow> 'f mtlsMeasurement" where
  "zero_mtls fl = \<lparr>mt_Percent = f_of_int fl 0, mt_Total = f_of_int fl 0, mt_MutualTLS = f_of_int fl 0,
     mt_NonTLS = f_of_int fl 0, mt_Unknown = f_of_int fl 0, mt_Hops = [], mt_Valid = False\<rparr>"

definition finite_value :: "'f floats \<Rightarrow> 'f option \<Rightarrow> 'f option" where
  "finite_value fl v = (case v of Some x \<Rightarrow> if f_finite fl x then Some x else None | None \<Rightarrow> None)"

definition prometheusValue :: "'f floats \<Rightarrow> json list \<Rightarrow> 'f option" where
  "prometheusValue fl raw =
     (if length raw < 2 then None
      else case raw ! 1 of
        JStr text \<Rightarrow> finite_value fl (f_parse fl text)
      | JNull \<Rightarrow> finite_value fl (f_parse fl [])
      | JNum text \<Rightarrow> finite_value fl (f_parse fl text)
      | _ \<Rightarrow> None)"

text \<open>A series that carries traffic between the operator and one of its two services.\<close>

definition mtls_series :: "'f floats \<Rightarrow> 'f \<Rightarrow> prometheusResult \<Rightarrow> 'f mtlsMeasurement \<Rightarrow> 'f mtlsMeasurement" where
  "mtls_series fl val series out =
     (let label = (\<lambda>k. case px_Metric series k of Some s \<Rightarrow> s | None \<Rightarrow> []);
          out = out\<lparr>mt_Total := f_add fl (mt_Total out) val\<rparr>;
          destination = label ''destination_workload''
      in if label ''source_workload'' \<noteq> ''payment-operator'' \<or>
            (destination \<noteq> ''participant-payment-manager'' \<and> destination \<noteq> ''payment-router'')
         then out\<lparr>mt_Unknown := f_add fl (mt_Unknown out) val\<rparr>
         else
           (let out = out\<lparr>mt_Hops := List.insert destination (mt_Hops out)\<rparr>
            in if label ''connection_security_policy'' = ''mutual_tls''
               then out\<lparr>mt_MutualTLS := f_add fl (mt_MutualTLS out) val\<rparr>
               else if label ''connection_security_policy'' = ''none''
               then out\<lparr>mt_NonTLS := f_add fl (mt_NonTLS out) val\<rparr>
               else out\<lparr>mt_Unknown := f_add fl (mt_Unknown out) val\<rparr>))"

fun mtls_loop ::
  "'f floats \<Rightarrow> prometheusResult list \<Rightarrow> 'f mtlsMeasurement \<Rightarrow> bool \<Rightarrow> 'f mtlsMeasurement \<times> bool" where
  "mtls_loop fl [] out malformed = (out, malformed)"
| "mtls_loop fl (series # rest) out malformed =
     (case prometheusValue fl (px_Value series) of
        None \<Rightarrow> mtls_loop fl rest out True
      | Some val \<Rightarrow>
          if f_less fl val (f_of_int fl 0) then mtls_loop fl rest out True
          else if f_equal fl val (f_of_int fl 0) then mtls_loop fl rest out malformed
          else mtls_loop fl rest (mtls_series fl val series out) malformed)"

definition mtls_summary :: "'f floats \<Rightarrow> prometheusResult list \<Rightarrow> 'f mtlsMeasurement" where
  "mtls_summary fl results =
     (let (out, malformed) = mtls_loop fl results (zero_mtls fl) False;
          traffic = f_less fl (f_of_int fl 0) (mt_Total out);
          out = (if traffic then out\<lparr>mt_Percent := f_div fl (f_mul fl (f_of_int fl 100) (mt_MutualTLS out)) (mt_Total out)\<rparr>
                 else out)
      in out\<lparr>mt_Valid := \<not> malformed \<and> traffic \<and> ''participant-payment-manager'' \<in> set (mt_Hops out) \<and>
               ''payment-router'' \<in> set (mt_Hops out)\<rparr>)"

definition readMTLS :: "'f floats \<Rightarrow> file_system \<Rightarrow> string \<Rightarrow> 'f mtlsMeasurement" where
  "readMTLS fl fs path =
     (let (ok, response) = readJSON prometheusVector_fields \<lparr>pv_Status = [], pv_ResultType = [], pv_Result = []\<rparr> fs path
      in if \<not> ok \<or> pv_Status response \<noteq> ''success'' \<or> pv_ResultType response \<noteq> ''vector'' \<or> pv_Result response = []
         then zero_mtls fl
         else mtls_summary fl (pv_Result response))"

definition mtlsHops :: "string list \<Rightarrow> string" where
  "mtlsHops hops = join_with '','' (sort hops)"

fun metric_lines :: "'f floats \<Rightarrow> string \<Rightarrow> string list \<Rightarrow> 'f \<Rightarrow> 'f" where
  "metric_lines fl metric [] found = found"
| "metric_lines fl metric (line # ls) found =
     (if \<not> contains_sub (metric @ '':'') line then metric_lines fl metric ls found
      else if Fields line = [] then metric_lines fl metric ls found
      else case f_parse fl (last (Fields line)) of
        Some val \<Rightarrow> if f_less fl (f_of_int fl 0) val then metric_lines fl metric ls (f_add fl found val)
                      else metric_lines fl metric ls found
      | None \<Rightarrow> metric_lines fl metric ls found)"

definition envoyMetricTotal :: "'f floats \<Rightarrow> string \<Rightarrow> string \<Rightarrow> 'f" where
  "envoyMetricTotal fl raw metric = metric_lines fl metric (split_on newline raw) (f_of_int fl 0)"

section \<open>Checksums\<close>

text \<open>\<open>response-*.json\<close> in a directory, by name.\<close>

definition glob_responses :: "file_system \<Rightarrow> string \<Rightarrow> string list" where
  "glob_responses fs dir =
     map (join_path dir) (sort (filter
       (\<lambda>n. prefix ''response-'' n \<and> suffix ''.json'' (drop (length ''response-'') n)) (map fst (fst (read_dir fs dir)))))"

fun same_responses :: "(string \<Rightarrow> string) \<Rightarrow> file_system \<Rightarrow> int \<Rightarrow> int \<Rightarrow> string list \<Rightarrow> string \<Rightarrow> bool \<times> int" where
  "same_responses sha fs found i [] first = (True, found)"
| "same_responses sha fs found i (file # files) first =
     (let (b, ok) = read_file fs file in
      if \<not> ok then (False, i)
      else if i = 0 then same_responses sha fs found (i + 1) files (sha b)
      else if sha b \<noteq> first then (False, found)
      else same_responses sha fs found (i + 1) files first)"

fun same_first :: "string \<Rightarrow> string list \<Rightarrow> bool" where
  "same_first first [] \<longleftrightarrow> True"
| "same_first first (line # ls) \<longleftrightarrow> Fields line \<noteq> [] \<and> hd (Fields line) = first \<and> same_first first ls"

definition sameChecksums :: "(string \<Rightarrow> string) \<Rightarrow> file_system \<Rightarrow> string \<Rightarrow> bool \<times> int" where
  "sameChecksums sha fs dir =
     (let (data, ok) = read_file fs (join_path dir ''response-checksums.txt'') in
      if ok then
        (let ls = split_on newline (trim_space data) in
         if length ls < 2 then (False, 0)
         else if Fields (hd ls) = [] then (False, 0)
         else (same_first (hd (Fields (hd ls))) ls, int (length ls)))
      else
        (let files = glob_responses fs dir in
         if length files \<noteq> 10 then (False, int (length files))
         else same_responses sha fs (int (length files)) 0 files []))"

end
