(* ===== verification/Report_Verdicts.thy ===== *)
theory Report_Verdicts
  imports Reports
begin

text \<open>
  \<open>scripts/reportgen/main.go\<close>, the six experiments and \<open>main\<close>: each verdict is a record
  computed from the artefacts of the experiment's directory, and the report is the text written
  to \<open>docs/report.md\<close>. Arithmetic on \<open>int\<close> wraps at 64 bits (\<open>wrap64\<close>); the accented
  literals of the source are written as their UTF-8 bytes.
\<close>

record measurement =
  ms_Name :: string
  ms_Hypothesis :: string
  ms_Metric :: string
  ms_Value :: string
  ms_Criterion :: string
  ms_Status :: string
  ms_Evidence :: string

section \<open>Happy path\<close>

definition happy_config :: "file_system \<Rightarrow> string \<Rightarrow> string \<times> string \<times> bool" where
  "happy_config fs dir =
     (let secrets = readFile fs (join_path (join_path dir ''events'') ''operator-mtls-secrets.txt'');
          listener = readFile fs (join_path (join_path dir ''events'') ''egress-mtls-listener.json'')
      in (secrets, listener,
          contains_sub ''ACTIVE'' secrets \<and> contains_sub ([CHR 0x22] @ ''requireClientCertificate'' @
            [CHR 0x22] @ '': true'') listener))"

definition mtls_evidence :: "'f floats \<Rightarrow> 'f mtlsMeasurement \<Rightarrow> string" where
  "mtls_evidence fl mtls =
     (if mt_Valid mtls
      then concat [''tr'' @ [CHR 0xC3, CHR 0xA1] @
        ''fico mTLS='', f_text fl 2 (mt_Percent mtls), ''% (mutual_tls='', f_text fl 0 (mt_MutualTLS mtls),
        ''; no-mTLS='', f_text fl 0 (mt_NonTLS mtls), ''; desconocido='', f_text fl 0 (mt_Unknown mtls),
        ''; saltos='', mtlsHops (mt_Hops mtls), '')'']
      else ''tr'' @ [CHR 0xC3, CHR 0xA1] @ ''fico mTLS no disponible'')"

definition happy_value :: "int \<Rightarrow> int \<Rightarrow> int \<Rightarrow> int \<Rightarrow> int \<Rightarrow> bool \<Rightarrow> string \<Rightarrow> string" where
  "happy_value count failures p95 traces complete config evidence =
     concat [''solicitudes='', int_dec count, ''; fallos='', int_dec failures, ''; p95='', int_dec p95,
       '' ms; trazas='', int_dec traces, ''; trazas completas='', int_dec complete,
       ''; configuraci'' @ [CHR 0xC3, CHR 0xB3] @ ''n='', bool_text config, ''; '', evidence]"

definition expHappy :: "'f floats \<Rightarrow> file_system \<Rightarrow> string \<Rightarrow> string \<Rightarrow> measurement" where
  "expHappy fl fs root name =
     (let dir = join_path root name;
          (count, failures, p95, ok) = locustStats fs (join_path dir ''locust_stats.csv'');
          (traces, completeTraces) = traceCoverage fs (join_path (join_path dir ''traces'') ''payment-operator.json'');
          (secrets, listener, mtlsConfig) = happy_config fs dir;
          mtls = readMTLS fl fs (join_path (join_path dir ''metrics'') ''istio-mtls.json'');
          evidence = (ok \<and> 0 < completeTraces \<and> secrets \<noteq> [] \<and> listener \<noteq> [] \<and> mt_Valid mtls);
          pass = (evidence \<and> failures = 0 \<and> mtlsConfig \<and> f_less fl (f_of_int fl 0) (mt_Total mtls) \<and>
            f_equal fl (mt_MutualTLS mtls) (mt_Total mtls) \<and> f_equal fl (mt_NonTLS mtls) (f_of_int fl 0) \<and>
            f_equal fl (mt_Unknown mtls) (f_of_int fl 0))
      in \<lparr>ms_Name = name, ms_Hypothesis = ''Happy path por ingress/mTLS con tracing'',
          ms_Metric = ''Locust solicitudes, fallos, trazas completas y mTLS de tr'' @ [CHR 0xC3, CHR 0xA1] @ ''fico'',
          ms_Value = happy_value count failures p95 traces completeTraces mtlsConfig (mtls_evidence fl mtls),
          ms_Criterion = ''0 fallos, traza completa operator'' @ [CHR 0xE2, CHR 0x86, CHR 0x92] @
            ''participant-manager'' @ [CHR 0xE2, CHR 0x86, CHR 0x92] @ ''router'' @
            [CHR 0xE2, CHR 0x86, CHR 0x92] @ ''gateway y 100%% de tr'' @ [CHR 0xC3, CHR 0xA1] @
            ''fico interno con connection_security_policy=mutual_tls en ambos saltos'',
          ms_Status = status pass evidence, ms_Evidence = dir\<rparr>)"

section \<open>Failure of a router instance\<close>

definition success_ratio :: "'f floats \<Rightarrow> int \<Rightarrow> int \<Rightarrow> 'f" where
  "success_ratio fl count failures = f_div fl (f_of_int fl (wrap64 (count - failures))) (f_of_int fl count)"

definition success_pct :: "'f floats \<Rightarrow> int \<Rightarrow> int \<Rightarrow> 'f" where
  "success_pct fl count failures =
     (if count > 0
      then f_div fl (f_mul fl (f_of_int fl 100) (f_of_int fl (wrap64 (count - failures)))) (f_of_int fl count)
      else f_of_int fl 0)"

definition skipped_instance :: "string \<Rightarrow> string \<Rightarrow> measurement" where
  "skipped_instance name dir =
     \<lparr>ms_Name = name, ms_Hypothesis = ''Fallo de una instancia de router'',
      ms_Metric = ''Locust, inyecci'' @ [CHR 0xC3, CHR 0xB3] @ ''n y recuperaci'' @ [CHR 0xC3, CHR 0xB3] @
        ''n'', ms_Value = ''cluster fault injection skipped'',
      ms_Criterion = ''Kubernetes fault injection and recovery artifacts'', ms_Status = ''NOT EXECUTED'',
      ms_Evidence = dir\<rparr>"

definition instance_value :: "'f floats \<Rightarrow> int \<Rightarrow> int \<Rightarrow> int \<Rightarrow> int \<Rightarrow> int \<Rightarrow> string" where
  "instance_value fl count failures p95 recoverySeconds trafficSeconds =
     concat [''HTTP 200 success='', f_text fl 2 (success_pct fl count failures), ''%; fallos='', int_dec failures,
       ''; p95='', int_dec p95, '' ms; pod-ready='', int_dec recoverySeconds, ''s; traffic recovery='',
       int_dec trafficSeconds, ''s'']"

definition expInstance :: "'f floats \<Rightarrow> file_system \<Rightarrow> string \<Rightarrow> string \<Rightarrow> measurement" where
  "expInstance fl fs root name =
     (let dir = join_path root name;
          events = join_path dir ''events'';
          (count, failures, p95, ok) = locustStats fs (join_path dir ''locust_stats.csv'')
      in if fileExists fs (join_path events ''kubernetes.skip'') then skipped_instance name dir
      else
       (let injected = fileExists fs (join_path events ''kubectl-delete.out'');
            (start, startOK) = readInt fs (join_path events ''fault-injection-start-epoch.txt'');
            (recovered, recoveredOK) = readInt fs (join_path events ''fault-injection-recovery-epoch.txt'');
            (recoverySeconds, recoveryOK) = readInt fs (join_path events ''fault-recovery-seconds.txt'');
            (locustExit, locustExitOK) = readInt fs (join_path events ''locust.exit'');
            readiness = fileExists fs (join_path events ''router-recovery.out'');
            (trafficRecovered, trafficRecoveryOK) = readInt fs (join_path events ''traffic-recovery-epoch.txt'');
            (trafficSeconds, trafficSecondsOK) = readInt fs (join_path events ''traffic-recovery-seconds.txt'');
            validLocustExit = (locustExitOK \<and> (locustExit = 0 \<or> locustExit = 1));
            fullRun = (ok \<and> count > 0 \<and> failures \<ge> 0 \<and> f_leq fl (f_99 fl) (success_ratio fl count failures) \<and>
              validLocustExit);
            durationsConsistent = (recoveryOK \<and> trafficSecondsOK \<and> recoverySeconds \<ge> 0 \<and> trafficSeconds \<ge> 0 \<and>
              recoverySeconds = wrap64 (recovered - start) \<and> trafficSeconds = wrap64 (trafficRecovered - start));
            completeEvidence = (injected \<and> startOK \<and> recoveredOK \<and> recoveryOK \<and> recovered \<ge> start \<and> readiness \<and>
              trafficRecoveryOK \<and> trafficSecondsOK \<and> trafficRecovered \<ge> start \<and> durationsConsistent \<and> validLocustExit);
            pass = (completeEvidence \<and> fullRun \<and> trafficSeconds < 30)
        in \<lparr>ms_Name = name, ms_Hypothesis = ''Fallo de una instancia de router'',
            ms_Metric = [CHR 0xC3, CHR 0x89] @ ''xito HTTP 200 en toda la corrida y recuperaci'' @
              [CHR 0xC3, CHR 0xB3] @ ''n de tr'' @ [CHR 0xC3, CHR 0xA1] @ ''fico medida'',
            ms_Value = instance_value fl count failures p95 recoverySeconds trafficSeconds,
            ms_Criterion = ''>=99% HTTP 200 en toda la corrida; una sonda de pago HTTP 200/SUCCEEDED se recupera en <30s (readiness se reporta aparte)'',
            ms_Status = status pass completeEvidence, ms_Evidence = dir\<rparr>))"

section \<open>Degraded gateway\<close>

definition expDegraded :: "'f floats \<Rightarrow> file_system \<Rightarrow> string \<Rightarrow> string \<Rightarrow> measurement" where
  "expDegraded fl fs root name =
     (let dir = join_path root name;
          (_, failures, p95, ok) = locustStats fs (join_path dir ''locust_stats.csv'');
          raw = fst (read_file fs (join_path (join_path dir ''events'') ''timeout-http-status.txt''));
          timeout = contains_sub ''202'' raw;
          response = contains_sub ([CHR 0x22] @ ''status'' @ [CHR 0x22] @ '':'' @ [CHR 0x22] @ ''PENDING'' @ [CHR 0x22])
            (readFile fs (join_path (join_path dir ''events'') ''timeout-response.json''));
          breakerBefore = readFile fs (join_path (join_path dir ''metrics'') ''egress-envoy-stats-before.txt'');
          breakerAfter = readFile fs (join_path (join_path dir ''metrics'') ''egress-envoy-stats.txt'');
          beforeEjections = envoyMetricTotal fl breakerBefore ''ejections_enforced_total'';
          afterEjections = envoyMetricTotal fl breakerAfter ''ejections_enforced_total'';
          breaker = f_less fl beforeEjections afterEjections;
          pass = (ok \<and> failures = 0 \<and> timeout \<and> response \<and> breaker)
      in \<lparr>ms_Name = name, ms_Hypothesis = ''Pasarela degradada'',
          ms_Metric = ''Locust fallos, p95, timeout, estado y breaker'',
          ms_Value = concat [''fallos='', int_dec failures, ''; p95='', int_dec p95, '' ms; HTTP202='', bool_text timeout,
            ''; PENDING='', bool_text response, ''; ejections='', f_text fl 0 beforeEjections, [CHR 0xE2, CHR 0x86, CHR 0x92],
            f_text fl 0 afterEjections],
          ms_Criterion = ''0 fallos, HTTP 202, PENDING y aumenta el contador de expulsiones Envoy'',
          ms_Status = status pass (ok \<and> breakerBefore \<noteq> [] \<and> breakerAfter \<noteq> []), ms_Evidence = dir\<rparr>)"

section \<open>Normalization of the two provider contracts\<close>

definition expected_results :: "(string \<times> string) list" where
  "expected_results = [(''card-authorized.json'', ''SUCCEEDED''), (''card-declined.json'', ''FAILED''),
     (''bank-accepted.json'', ''SUCCEEDED''), (''bank-rejected.json'', ''FAILED'')]"

fun provider_statuses ::
  "file_system \<Rightarrow> string \<Rightarrow> (string \<times> string) list \<Rightarrow> string list \<Rightarrow> bool \<Rightarrow> bool \<Rightarrow> string list \<times> bool \<times> bool" where
  "provider_statuses fs dir [] statuses ok pass = (statuses, ok, pass)"
| "provider_statuses fs dir ((file, want) # rest) statuses ok pass =
     (let (read, p) = readJSON providerResult_fields \<lparr>pvr_Status = []\<rparr> fs (join_path (join_path dir ''events'') file)
      in if \<not> read then provider_statuses fs dir rest statuses False False
         else provider_statuses fs dir rest (statuses @ [pvr_Status p]) ok (pass \<and> pvr_Status p = want))"

definition expNormalization :: "file_system \<Rightarrow> string \<Rightarrow> string \<Rightarrow> measurement" where
  "expNormalization fs root name =
     (let dir = join_path root name;
          (statuses, ok, pass) = provider_statuses fs dir expected_results [] True True
      in \<lparr>ms_Name = name, ms_Hypothesis = ''Normalizaci'' @ [CHR 0xC3, CHR 0xB3] @
        ''n de dos contratos de proveedor'',
          ms_Metric = ''Estados observados'', ms_Value = join_with '', '' statuses,
          ms_Criterion = ''card/bank exitoso'' @ [CHR 0xE2, CHR 0x86, CHR 0x92] @ ''SUCCEEDED; decline/reject'' @
            [CHR 0xE2, CHR 0x86, CHR 0x92] @ ''FAILED'',
          ms_Status = status pass ok, ms_Evidence = dir\<rparr>)"

section \<open>Ten duplicates, one charge\<close>

definition expIdempotency :: "(string \<Rightarrow> string) \<Rightarrow> file_system \<Rightarrow> string \<Rightarrow> string \<Rightarrow> measurement" where
  "expIdempotency sha fs root name =
     (let dir = join_path root name;
          (okBefore, before) = readJSON gatewayStats_fields \<lparr>gs_EffectiveCharges = 0\<rparr> fs
            (join_path (join_path dir ''metrics'') ''card-stats-before.json'');
          (okAfter, after) = readJSON gatewayStats_fields \<lparr>gs_EffectiveCharges = 0\<rparr> fs
            (join_path (join_path dir ''metrics'') ''card-stats.json'');
          delta = wrap64 (gs_EffectiveCharges after - gs_EffectiveCharges before);
          (checksum, responses) = sameChecksums sha fs (join_path dir ''events'');
          pass = (okBefore \<and> okAfter \<and> delta = 1 \<and> responses = 10 \<and> checksum)
      in \<lparr>ms_Name = name, ms_Hypothesis = ''Diez duplicados producen un solo cobro'',
          ms_Metric = [CHR 0xCE, CHR 0x94] @ '' cobros efectivos, respuestas y checksum'',
          ms_Value = concat [''delta='', int_dec delta, ''; respuestas='', int_dec responses, ''; checksum='', bool_text checksum],
          ms_Criterion = ''delta=1, 10 respuestas y checksum id'' @ [CHR 0xC3, CHR 0xA9] @ ''ntico'',
          ms_Status = status pass (okBefore \<and> okAfter), ms_Evidence = dir\<rparr>)"

section \<open>Isolation of the participant database\<close>

definition expDBIsolation :: "file_system \<Rightarrow> string \<Rightarrow> string \<Rightarrow> measurement" where
  "expDBIsolation fs root name =
     (let dir = join_path root name;
          raw = trim_space (readFile fs (join_path (join_path dir ''events'') ''http-status.txt''));
          readiness = contains_sub ''accepting connections''
            (to_lower (readFile fs (join_path (join_path dir ''events'') ''router-db-readiness.txt'')));
          pass = (raw = ''503'' \<and> readiness)
      in \<lparr>ms_Name = name, ms_Hypothesis = ''Aislamiento ante fallo de participant DB'',
          ms_Metric = ''HTTP y readiness de router DB'',
          ms_Value = concat [''HTTP='', raw, ''; accepting connections='', bool_text readiness],
          ms_Criterion = ''HTTP 503 y router DB lista'', ms_Status = status pass (raw \<noteq> [] \<or> readiness),
          ms_Evidence = dir\<rparr>)"

section \<open>The report\<close>

definition experiment_names :: "string list" where
  "experiment_names = [''01-happy-mesh'', ''02-instance-failure'', ''03-gateway-degraded'',
     ''04-provider-normalization'', ''05-idempotency-duplicates'', ''06-participant-db-failure'']"

definition latestRun :: "file_system \<Rightarrow> string \<Rightarrow> string" where
  "latestRun fs root =
     (let (entries, ok) = read_dir fs root;
          names = sort (map fst (filter snd entries))
      in if \<not> ok \<or> names = [] then [] else join_path root (last names))"

definition unmeasured :: "string \<Rightarrow> measurement" where
  "unmeasured name =
     \<lparr>ms_Name = name, ms_Hypothesis = [], ms_Metric = [CHR 0xE2, CHR 0x80, CHR 0x94], ms_Value = ''sin corrida'',
      ms_Criterion = ''artefactos requeridos'', ms_Status = ''NOT EXECUTED'', ms_Evidence = ''evidence/runs''\<rparr>"

definition measured :: "'f floats \<Rightarrow> (string \<Rightarrow> string) \<Rightarrow> file_system \<Rightarrow> string \<Rightarrow> measurement list" where
  "measured fl sha fs latest =
     (if latest = [] then map unmeasured experiment_names
      else [expHappy fl fs latest (experiment_names ! 0),
            expInstance fl fs latest (experiment_names ! 1),
            expDegraded fl fs latest (experiment_names ! 2),
            expNormalization fs latest (experiment_names ! 3),
            expIdempotency sha fs latest (experiment_names ! 4),
            expDBIsolation fs latest (experiment_names ! 5)])"

definition measurement_row :: "measurement \<Rightarrow> string" where
  "measurement_row m =
     concat [''| '' @ [CHR 0x60], ms_Name m, [CHR 0x60] @
       '' | '', ms_Metric m, '' | '', ms_Value m, '' | '', ms_Criterion m, '' | **'', ms_Status m,
       ''** | ['', ms_Evidence m, '']('', evidenceLink (ms_Evidence m), '') |'' @ [CHR 0x0A]]"

definition metadata_row :: "file_system \<Rightarrow> string \<Rightarrow> string \<Rightarrow> string" where
  "metadata_row fs latest name =
     (let dir = join_path latest name;
          m = snd (readJSON metadata_fields zero_metadata fs (join_path dir ''metadata.json''));
          v = snd (readJSON verdict_fields \<lparr>vd_Status = [], vd_Result = [], vd_Evidence = []\<rparr> fs
            (join_path dir ''verdict.json''));
          profile = (if md_Users m = 0 then ''no disponible''
            else concat [int_dec (md_Users m), '' usuarios / '', int_dec (md_SpawnRate m), '' usuarios/s / '', md_Duration m])
      in concat [''| '' @ [CHR 0x60], name, [CHR 0x60] @ '' | '', md_Hypothesis m, '' | '', profile, '' | '' @
        [CHR 0x60], vd_Status v, [CHR 0x60] @ '' | ['', dir, '']('',
           evidenceLink dir, '') |'' @ [CHR 0x0A]])"

definition metadata_rows :: "file_system \<Rightarrow> string \<Rightarrow> string" where
  "metadata_rows fs latest =
     (if latest \<noteq> []
      then concat (map (metadata_row fs latest) (map fst (filter snd (fst (read_dir fs latest)))))
      else ''| seis experimentos | '' @ [CHR 0xE2, CHR 0x80, CHR 0x94] @ '' | '' @
        [CHR 0xE2, CHR 0x80, CHR 0x94] @ '' | '' @ [CHR 0x60] @ ''NOT EXECUTED'' @ [CHR 0x60] @ '' | '' @
        [CHR 0xE2, CHR 0x80, CHR 0x94] @ '' |'' @ [CHR 0x0A])"

definition report_text :: "string \<Rightarrow> 'f floats \<Rightarrow> (string \<Rightarrow> string) \<Rightarrow> file_system \<Rightarrow> string" where
  "report_text generated fl sha fs =
     (let latest = latestRun fs ''evidence/runs'' in concat
       [''# Informe del experimento Payment Mesh'' @ [CHR 0x0A, CHR 0x0A] @ ''Generado: '' @
         [CHR 0x60], generated, [CHR 0x60, CHR 0x0A, CHR 0x0A],
        ''## Objetivo y m'' @ [CHR 0xC3, CHR 0xA9] @ ''todo'' @ [CHR 0x0A, CHR 0x0A] @ ''Se eval'' @
          [CHR 0xC3, CHR 0xBA] @ ''an seis hip'' @ [CHR 0xC3, CHR 0xB3] @
          ''tesis sobre bounded contexts, zero-trust, resiliencia, normalizaci'' @ [CHR 0xC3, CHR 0xB3] @
          ''n multi-proveedor, idempotencia y aislamiento de base de datos. La corrida conserva Locust CSV/HTML, m'' @
          [CHR 0xC3, CHR 0xA9] @ ''tricas, trazas, contadores, eventos y logs. El resultado se calcula '' @
          [CHR 0xC3, CHR 0xBA] @ ''nicamente a partir de esos artefactos.'' @ [CHR 0x0A, CHR 0x0A],
        if latest = [] then ''No hay ejecuciones en '' @ [CHR 0x60] @ ''evidence/runs/'' @ [CHR 0x60] @
          ''; los seis resultados son '' @ [CHR 0x60] @ ''NOT EXECUTED'' @ [CHR 0x60] @ ''.'' @ [CHR 0x0A]
        else concat [''Ejecuci'' @ [CHR 0xC3, CHR 0xB3] @ ''n m'' @ [CHR 0xC3, CHR 0xA1] @ ''s reciente: '' @
          [CHR 0x60], latest, [CHR 0x60] @ ''.'' @ [CHR 0x0A, CHR 0x0A]],
        ''## Resumen medido'' @ [CHR 0x0A, CHR 0x0A] @ ''| Experimento | M'' @ [CHR 0xC3, CHR 0xA9] @
          ''trica observada | Valor medido | Criterio | Resultado | Evidencia |'' @ [CHR 0x0A] @
          ''|---|---|---|---|---|---|'' @ [CHR 0x0A],
        concat (map measurement_row (measured fl sha fs latest)),
        [CHR 0x0A] @ ''## Metadatos y evidencia'' @ [CHR 0x0A, CHR 0x0A] @ ''| Experimento | Hip'' @
          [CHR 0xC3, CHR 0xB3] @ ''tesis | Perfil | Estado del runner | Evidencia |'' @ [CHR 0x0A] @
          ''|---|---|---|---|---|'' @ [CHR 0x0A],
        metadata_rows fs latest,
        [CHR 0x0A] @ ''## Interpretaci'' @ [CHR 0xC3, CHR 0xB3] @ ''n y l'' @ [CHR 0xC3, CHR 0xAD] @ ''mites'' @
          [CHR 0x0A, CHR 0x0A, CHR 0x60] @ ''PASS'' @ [CHR 0x60] @
          '' significa que el criterio medido se encontr'' @ [CHR 0xC3, CHR 0xB3] @ '' en los artefactos; '' @
          [CHR 0x60] @ ''FAIL'' @ [CHR 0x60] @ '' significa que hubo evidencia suficiente de incumplimiento; '' @
          [CHR 0x60] @ ''NOT EXECUTED'' @ [CHR 0x60] @ '' significa que falt'' @ [CHR 0xC3, CHR 0xB3] @
          '' el artefacto requerido. No se infieren resultados a partir del c'' @ [CHR 0xC3, CHR 0xB3] @
          ''digo de salida del runner. Las pruebas de cluster, mTLS e Istio solo cuentan cuando sus trazas, m'' @
          [CHR 0xC3, CHR 0xA9] @ ''tricas y eventos est'' @ [CHR 0xC3, CHR 0xA1] @ ''n presentes.'' @
          [CHR 0x0A]])"

text \<open>\<open>main\<close>: the file written, or a panic when it cannot be.\<close>

definition reportgen ::
  "(string \<Rightarrow> bool) \<Rightarrow> (string \<Rightarrow> string \<Rightarrow> bool) \<Rightarrow> string \<Rightarrow> 'f floats \<Rightarrow> (string \<Rightarrow> string) \<Rightarrow> file_system \<Rightarrow>
   (string \<times> string) option" where
  "reportgen mkdir write_file generated fl sha fs =
     (let text = report_text generated fl sha fs in
      if \<not> mkdir ''docs'' then None
      else if \<not> write_file ''docs/report.md'' text then None
      else Some (''docs/report.md'', text))"

end
