(* ===== verification/Report_Facts.thy ===== *)
theory Report_Facts
  imports Report_Verdicts
begin

text \<open>
  What the verdicts of the report generator mean: a run without artefacts is not executed, a
  trace counts as complete when its own spans play the four roles, and mutual TLS is accepted
  only when every series that carried traffic is mutual TLS on one of the two hops.
\<close>

section \<open>Nothing to read\<close>

definition unreadable :: "file_system \<Rightarrow> bool" where
  "unreadable fs \<longleftrightarrow> (\<forall>path. read_file fs path = ([], False) \<and> \<not> stat_ok fs path)"

lemma unreadable_file [simp]: "unreadable fs \<Longrightarrow> read_file fs path = ([], False)"
  by (simp add: unreadable_def)

lemma unreadable_text [simp]: "unreadable fs \<Longrightarrow> readFile fs path = []"
  by (simp add: readFile_def)

lemma unreadable_exists [simp]: "unreadable fs \<Longrightarrow> \<not> fileExists fs path"
  by (simp add: fileExists_def unreadable_def)

lemma unreadable_json [simp]: "unreadable fs \<Longrightarrow> readJSON fds z fs path = (False, z)"
  by (simp add: readJSON_def)

lemma unreadable_locust [simp]: "unreadable fs \<Longrightarrow> locustStats fs path = (0, 0, 0, False)"
  by (simp add: locustStats_def)

lemma status_cases: "status pass evidence \<in> {''PASS'', ''FAIL'', ''NOT EXECUTED''}"
  by (simp add: status_def)

lemma status_PASS: "status pass evidence = ''PASS'' \<longleftrightarrow> pass \<and> evidence"
  by (simp add: status_def)

lemma status_no_evidence [simp]: "status pass False = ''NOT EXECUTED''"
  by (simp add: status_def)

lemma unreadable_happy: "unreadable fs \<Longrightarrow> ms_Status (expHappy fl fs root name) = ''NOT EXECUTED''"
  by (simp add: expHappy_def happy_config_def Let_def split: prod.splits)

lemma unreadable_readInt [simp]: "unreadable fs \<Longrightarrow> readInt fs path = (0, False)"
  by (simp add: readInt_def trim_space_Nil)

lemma unreadable_instance: "unreadable fs \<Longrightarrow> ms_Status (expInstance fl fs root name) = ''NOT EXECUTED''"
  by (simp add: expInstance_def Let_def)

lemma unreadable_degraded: "unreadable fs \<Longrightarrow> ms_Status (expDegraded fl fs root name) = ''NOT EXECUTED''"
  by (simp add: expDegraded_def Let_def)

lemma unreadable_statuses:
  "unreadable fs \<Longrightarrow> want \<noteq> [] \<Longrightarrow> provider_statuses fs dir want ss ok pass = (ss, False, False)"
proof (induction want arbitrary: ok pass)
  case (Cons w want)
  then show ?case by (cases w; cases want) simp_all
qed simp

lemma unreadable_normalization: "unreadable fs \<Longrightarrow> ms_Status (expNormalization fs root name) = ''NOT EXECUTED''"
  by (simp add: expNormalization_def Let_def unreadable_statuses expected_results_def del: provider_statuses.simps)

lemma unreadable_idempotency: "unreadable fs \<Longrightarrow> ms_Status (expIdempotency sha fs root name) = ''NOT EXECUTED''"
  by (simp add: expIdempotency_def Let_def split: prod.splits)

lemma unreadable_isolation: "unreadable fs \<Longrightarrow> ms_Status (expDBIsolation fs root name) = ''NOT EXECUTED''"
  by (simp add: expDBIsolation_def Let_def trim_space_Nil)

lemmas unreadable_statuses_all = unreadable_happy unreadable_instance unreadable_degraded unreadable_normalization
  unreadable_idempotency unreadable_isolation

section \<open>Complete traces\<close>

definition own_span :: "traceRecord \<Rightarrow> traceSpan \<Rightarrow> bool" where
  "own_span t span \<longleftrightarrow> sp_TraceID span = [] \<or> sp_TraceID span = tr_TraceID t"

definition span_service :: "traceRecord \<Rightarrow> traceSpan \<Rightarrow> string" where
  "span_service t span =
     (case tr_Processes t (sp_ProcessID span) of Some p \<Rightarrow> tp_ServiceName p | None \<Rightarrow> [])"

definition plays :: "traceRecord \<Rightarrow> string \<Rightarrow> bool" where
  "plays t role \<longleftrightarrow> (\<exists>span \<in> set (tr_Spans t). own_span t span \<and> service_role (span_service t span) = Some role)"

definition complete_trace :: "traceRecord \<Rightarrow> bool" where
  "complete_trace t \<longleftrightarrow> plays t ''operator'' \<and> plays t ''participant'' \<and> plays t ''router'' \<and> plays t ''gateway''"

lemma span_roles_step:
  "span_roles t (span # spans) roles =
     span_roles t spans (\<lambda>role. roles role \<or> own_span t span \<and> service_role (span_service t span) = Some role)"
proof -
  have "roles(r := True) = (\<lambda>role. roles role \<or> r = role)" for r by auto
  then show ?thesis
    by (cases "service_role (span_service t span)")
      (auto simp: own_span_def span_service_def [symmetric] simp del: fun_upd_apply)
qed

lemma span_roles_iff:
  "span_roles t spans roles role \<longleftrightarrow> roles role \<or>
   (\<exists>span \<in> set spans. own_span t span \<and> service_role (span_service t span) = Some role)"
  by (induction spans arbitrary: roles) (auto simp: span_roles_step simp del: span_roles.simps(2))

lemma coverage_count:
  "coverage ts n c =
     (n + int (length (filter (\<lambda>t. tr_TraceID t \<noteq> []) ts)),
      c + int (length (filter (\<lambda>t. tr_TraceID t \<noteq> [] \<and> complete_trace t) ts)))"
proof (induction ts n c rule: coverage.induct)
  case (2 t ts n c)
  have "complete_trace t \<longleftrightarrow> (let roles = span_roles t (tr_Spans t) (\<lambda>_. False)
      in roles ''operator'' \<and> roles ''participant'' \<and> roles ''router'' \<and> roles ''gateway'')"
    by (simp add: complete_trace_def plays_def span_roles_iff Let_def)
  with 2 show ?case by (simp add: Let_def)
qed simp

section \<open>Mutual TLS\<close>

text \<open>What IEEE arithmetic promises about positive values, infinities included.\<close>

definition float_laws :: "'f floats \<Rightarrow> bool" where
  "float_laws fl \<longleftrightarrow>
     (\<forall>x. f_finite fl x \<and> \<not> f_less fl x (f_of_int fl 0) \<and> \<not> f_equal fl x (f_of_int fl 0) \<longrightarrow> f_less fl (f_of_int fl 0) x) \<and>
     (\<forall>x. f_less fl (f_of_int fl 0) x \<longrightarrow> \<not> f_equal fl x (f_of_int fl 0)) \<and>
     (\<forall>x v. f_less fl (f_of_int fl 0) v \<and> (f_equal fl x (f_of_int fl 0) \<or> f_less fl (f_of_int fl 0) x) \<longrightarrow>
        f_less fl (f_of_int fl 0) (f_add fl x v)) \<and>
     f_equal fl (f_of_int fl 0) (f_of_int fl 0)"

definition positive :: "'f floats \<Rightarrow> 'f \<Rightarrow> bool" where
  "positive fl x \<longleftrightarrow> f_less fl (f_of_int fl 0) x"

definition nonneg :: "'f floats \<Rightarrow> 'f \<Rightarrow> bool" where
  "nonneg fl x \<longleftrightarrow> f_equal fl x (f_of_int fl 0) \<or> positive fl x"

definition grows :: "'f floats \<Rightarrow> 'f \<Rightarrow> 'f \<Rightarrow> bool" where
  "grows fl x y \<longleftrightarrow> (nonneg fl x \<longrightarrow> nonneg fl y) \<and> (positive fl x \<longrightarrow> positive fl y)"

lemma grows_refl [simp]: "grows fl x x"
  by (simp add: grows_def)

lemma grows_trans: "grows fl x y \<Longrightarrow> grows fl y z \<Longrightarrow> grows fl x z"
  by (simp add: grows_def)

lemma add_positive: "float_laws fl \<Longrightarrow> positive fl v \<Longrightarrow> nonneg fl x \<Longrightarrow> positive fl (f_add fl x v)"
  by (auto simp: float_laws_def positive_def nonneg_def)

lemma grows_add: "float_laws fl \<Longrightarrow> positive fl v \<Longrightarrow> grows fl x (f_add fl x v)"
  by (auto simp: grows_def add_positive) (auto simp: nonneg_def add_positive)

lemma positive_not_zero: "float_laws fl \<Longrightarrow> positive fl x \<Longrightarrow> \<not> f_equal fl x (f_of_int fl 0)"
  by (auto simp: float_laws_def positive_def)

text \<open>A series with a value, and the hop it measures.\<close>

definition series_label :: "prometheusResult \<Rightarrow> string \<Rightarrow> string" where
  "series_label series k = (case px_Metric series k of Some s \<Rightarrow> s | None \<Rightarrow> [])"

definition mesh_hop :: "string \<Rightarrow> bool" where
  "mesh_hop destination \<longleftrightarrow> destination = ''participant-payment-manager'' \<or> destination = ''payment-router''"

definition secure_hop :: "prometheusResult \<Rightarrow> bool" where
  "secure_hop series \<longleftrightarrow> series_label series ''source_workload'' = ''payment-operator'' \<and>
     mesh_hop (series_label series ''destination_workload'') \<and>
     series_label series ''connection_security_policy'' = ''mutual_tls''"

definition carries :: "'f floats \<Rightarrow> prometheusResult \<Rightarrow> bool" where
  "carries fl series \<longleftrightarrow> (\<exists>val. prometheusValue fl (px_Value series) = Some val \<and> positive fl val)"

lemma mtls_series_grows:
  assumes "float_laws fl" "positive fl val"
  shows "grows fl (mt_NonTLS out) (mt_NonTLS (mtls_series fl val series out)) \<and>
    grows fl (mt_Unknown out) (mt_Unknown (mtls_series fl val series out))"
  using assms by (simp add: mtls_series_def Let_def grows_add)

lemma mtls_series_insecure:
  assumes "float_laws fl" "positive fl val" "\<not> secure_hop series" "nonneg fl (mt_NonTLS out)" "nonneg fl (mt_Unknown out)"
  shows "positive fl (mt_NonTLS (mtls_series fl val series out)) \<or> positive fl (mt_Unknown (mtls_series fl val series out))"
  using assms by (auto simp: mtls_series_def Let_def secure_hop_def mesh_hop_def series_label_def [symmetric] add_positive)

lemma mtls_series_hops:
  "set (mt_Hops (mtls_series fl val series out)) \<subseteq> insert (series_label series ''destination_workload'') (set (mt_Hops out))"
  by (auto simp: mtls_series_def Let_def series_label_def)

lemma prometheusValue_finite: "prometheusValue fl raw = Some val \<Longrightarrow> f_finite fl val"
  by (auto simp: prometheusValue_def finite_value_def split: if_splits json.splits option.splits)

lemma value_positive:
  assumes "float_laws fl" "prometheusValue fl raw = Some val" "\<not> f_less fl val (f_of_int fl 0)"
    "\<not> f_equal fl val (f_of_int fl 0)"
  shows "positive fl val"
  using assms prometheusValue_finite [OF assms(2)] by (simp add: float_laws_def positive_def)

text \<open>One round: a malformed value, a zero, or a series that carries traffic.\<close>

lemma mtls_loop_step:
  assumes "float_laws fl"
  obtains "mtls_loop fl (series # rs) out bad = mtls_loop fl rs out True"
  | val where "prometheusValue fl (px_Value series) = Some val" "f_equal fl val (f_of_int fl 0)"
      "\<not> f_less fl val (f_of_int fl 0)" "mtls_loop fl (series # rs) out bad = mtls_loop fl rs out bad"
  | val where "prometheusValue fl (px_Value series) = Some val" "positive fl val"
      "mtls_loop fl (series # rs) out bad = mtls_loop fl rs (mtls_series fl val series out) bad"
proof (cases "prometheusValue fl (px_Value series)")
  case None
  then show thesis using that(1) by simp
next
  case (Some val)
  then show thesis
    using that(1) that(2) [of val] that(3) [of val] value_positive [OF assms Some]
    by (cases "f_less fl val (f_of_int fl 0)"; cases "f_equal fl val (f_of_int fl 0)") simp_all
qed

lemma mtls_loop_grows:
  assumes laws: "float_laws fl" and "mtls_loop fl rs out bad = (out', bad')"
  shows "grows fl (mt_NonTLS out) (mt_NonTLS out') \<and> grows fl (mt_Unknown out) (mt_Unknown out') \<and> (bad \<longrightarrow> bad')"
  using assms(2)
proof (induction rs arbitrary: out bad)
  case (Cons series rs)
  show ?case
  proof (cases rule: mtls_loop_step [OF laws, of series rs out bad])
    case 1
    with Cons show ?thesis by fastforce
  next
    case (2 val)
    with Cons show ?thesis by fastforce
  next
    case (3 val)
    with Cons.IH [of "mtls_series fl val series out" bad] Cons.prems mtls_series_grows [OF laws 3(2), of out series]
    show ?thesis by (auto intro: grows_trans)
  qed
qed simp

text \<open>
  When nothing is malformed and neither the plain nor the unknown traffic has grown, every
  series is a finite number, and one that is not zero is mutual TLS on a hop of the mesh.
\<close>

definition accounted :: "'f floats \<Rightarrow> prometheusResult \<Rightarrow> bool" where
  "accounted fl series \<longleftrightarrow> (\<exists>val. prometheusValue fl (px_Value series) = Some val \<and>
     (f_equal fl val (f_of_int fl 0) \<or> positive fl val \<and> secure_hop series))"

lemma mtls_loop_secure:
  assumes laws: "float_laws fl" and "mtls_loop fl rs out bad = (out', False)"
    "nonneg fl (mt_NonTLS out)" "nonneg fl (mt_Unknown out)"
    "f_equal fl (mt_NonTLS out') (f_of_int fl 0)" "f_equal fl (mt_Unknown out') (f_of_int fl 0)"
  shows "(\<forall>series \<in> set rs. accounted fl series) \<and>
    set (mt_Hops out') \<subseteq> set (mt_Hops out) \<union>
      {series_label series ''destination_workload'' |series. series \<in> set rs \<and> carries fl series}"
  using assms(2-4)
proof (induction rs arbitrary: out bad)
  case (Cons series rs)
  show ?case
  proof (cases rule: mtls_loop_step [OF laws, of series rs out bad])
    case 1
    with Cons.prems mtls_loop_grows [OF laws, of rs out True out' False] show ?thesis by simp
  next
    case (2 val)
    then have "accounted fl series" by (auto simp: accounted_def)
    with Cons.IH [of out bad] Cons.prems 2 show ?thesis by (auto 0 3)
  next
    case (3 val)
    let ?out = "mtls_series fl val series out"
    note grown = mtls_series_grows [OF laws 3(2), of out series]
    have loop: "mtls_loop fl rs ?out bad = (out', False)" using 3(3) Cons.prems(1) by simp
    have ih: "(\<forall>series \<in> set rs. accounted fl series) \<and> set (mt_Hops out') \<subseteq> set (mt_Hops ?out) \<union>
        {series_label series ''destination_workload'' |series. series \<in> set rs \<and> carries fl series}"
      using grown Cons.prems by (intro Cons.IH [OF loop]) (auto simp: grows_def)
    have "\<not> positive fl (mt_NonTLS ?out)" "\<not> positive fl (mt_Unknown ?out)"
      using mtls_loop_grows [OF laws loop] assms(5,6) positive_not_zero [OF laws] by (auto simp: grows_def)
    then have "secure_hop series" using mtls_series_insecure [OF laws 3(2)] Cons.prems(2,3) by blast
    then have "accounted fl series" "carries fl series" using 3 by (auto simp: accounted_def carries_def)
    then show ?thesis using ih mtls_series_hops [of fl val series out] by (auto 0 3)
  qed
qed simp

text \<open>The verdict of the first experiment.\<close>

definition all_mutual :: "'f floats \<Rightarrow> prometheusResult list \<Rightarrow> bool" where
  "all_mutual fl rs \<longleftrightarrow> list_all (accounted fl) rs \<and>
     (\<forall>destination \<in> {''participant-payment-manager'', ''payment-router''}.
        \<exists>series \<in> set rs. carries fl series \<and> secure_hop series \<and>
          series_label series ''destination_workload'' = destination)"

lemma mtls_summary_all_mutual:
  assumes laws: "float_laws fl" and "mt_Valid (mtls_summary fl rs)"
    "f_equal fl (mt_NonTLS (mtls_summary fl rs)) (f_of_int fl 0)"
    "f_equal fl (mt_Unknown (mtls_summary fl rs)) (f_of_int fl 0)"
  shows "all_mutual fl rs"
proof -
  obtain out bad where loop: "mtls_loop fl rs (zero_mtls fl) False = (out, bad)" by fastforce
  have zero: "nonneg fl (mt_NonTLS (zero_mtls fl))" "nonneg fl (mt_Unknown (zero_mtls fl))"
    using laws by (auto simp: zero_mtls_def nonneg_def float_laws_def)
  have facts: "\<not> bad" "''participant-payment-manager'' \<in> set (mt_Hops out)" "''payment-router'' \<in> set (mt_Hops out)"
    "f_equal fl (mt_NonTLS out) (f_of_int fl 0)" "f_equal fl (mt_Unknown out) (f_of_int fl 0)"
    using assms(2-4) loop by (auto simp: mtls_summary_def Let_def split: if_splits)
  then have loop: "mtls_loop fl rs (zero_mtls fl) False = (out, False)" using loop by simp
  have all: "\<forall>series \<in> set rs. accounted fl series"
    and hops: "set (mt_Hops out) \<subseteq> {series_label series ''destination_workload'' |series. series \<in> set rs \<and> carries fl series}"
    using mtls_loop_secure [OF laws loop zero facts(4,5)] by (auto simp: zero_mtls_def)
  have secure: "secure_hop series" if "series \<in> set rs" "carries fl series" for series
    using all that positive_not_zero [OF laws] by (fastforce simp: accounted_def carries_def)
  have "\<exists>series \<in> set rs. carries fl series \<and> secure_hop series \<and>
      series_label series ''destination_workload'' = destination" if "destination \<in> set (mt_Hops out)" for destination
    using hops that secure by auto
  then show ?thesis using all facts(2,3) by (simp add: all_mutual_def list_all_iff)
qed

lemma expHappy_PASS:
  assumes laws: "float_laws fl" and pass: "ms_Status (expHappy fl fs root name) = ''PASS''"
  shows "\<exists>response count p95.
    readJSON prometheusVector_fields \<lparr>pv_Status = [], pv_ResultType = [], pv_Result = []\<rparr> fs
      (join_path (join_path (join_path root name) ''metrics'') ''istio-mtls.json'') = (True, response) \<and>
    all_mutual fl (pv_Result response) \<and>
    locustStats fs (join_path (join_path root name) ''locust_stats.csv'') = (count, 0, p95, True) \<and>
    0 < snd (traceCoverage fs (join_path (join_path (join_path root name) ''traces'') ''payment-operator.json''))"
proof -
  let ?path = "join_path (join_path (join_path root name) ''metrics'') ''istio-mtls.json''"
  obtain ok response where json: "readJSON prometheusVector_fields \<lparr>pv_Status = [], pv_ResultType = [], pv_Result = []\<rparr>
      fs ?path = (ok, response)" by fastforce
  have valid: "mt_Valid (readMTLS fl fs ?path)"
    and zero: "f_equal fl (mt_NonTLS (readMTLS fl fs ?path)) (f_of_int fl 0)"
      "f_equal fl (mt_Unknown (readMTLS fl fs ?path)) (f_of_int fl 0)"
    and locust: "\<exists>count p95. locustStats fs (join_path (join_path root name) ''locust_stats.csv'') = (count, 0, p95, True)"
    and traces: "0 < snd (traceCoverage fs (join_path (join_path (join_path root name) ''traces'') ''payment-operator.json''))"
    using pass by (auto simp: expHappy_def Let_def status_PASS split: prod.splits)
  have "ok" and summary: "readMTLS fl fs ?path = mtls_summary fl (pv_Result response)"
    using valid json by (auto simp: readMTLS_def zero_mtls_def split: if_splits)
  then have "all_mutual fl (pv_Result response)"
    using mtls_summary_all_mutual [OF laws] valid zero by simp
  then show ?thesis using json \<open>ok\<close> locust traces by auto
qed

end
