(* ===== verification/Report_Sample.thy ===== *)
theory Report_Sample
  imports Report_Facts
begin

text \<open>A run of the first experiment with every artefact in place, over exact arithmetic.\<close>

definition exact :: "int floats" where
  "exact = \<lparr>f_of_int = id, f_99 = 1, f_add = (+), f_mul = (*), f_div = (div), f_less = (<), f_leq = (\<le>),
     f_equal = (=), f_parse = parse_int64, f_finite = (\<lambda>_. True), f_text = (\<lambda>_. int_dec)\<rparr>"

definition sample_traces :: string where
  "sample_traces = ''{'' @ [CHR 0x22] @ ''data'' @ [CHR 0x22] @ '':[{'' @ [CHR 0x22] @ ''traceID'' @ [CHR 0x22] @
     '':'' @ [CHR 0x22] @ ''t'' @ [CHR 0x22] @ '','' @ [CHR 0x22] @ ''spans'' @ [CHR 0x22] @ '':[{'' @
     [CHR 0x22] @ ''processID'' @ [CHR 0x22] @ '':'' @ [CHR 0x22] @ ''o'' @ [CHR 0x22] @ ''},{'' @ [CHR 0x22] @
     ''processID'' @ [CHR 0x22] @ '':'' @ [CHR 0x22] @ ''m'' @ [CHR 0x22] @ ''},{'' @ [CHR 0x22] @ ''processID'' @
     [CHR 0x22] @ '':'' @ [CHR 0x22] @ ''r'' @ [CHR 0x22] @ ''},{'' @ [CHR 0x22] @ ''traceID'' @ [CHR 0x22] @
     '':'' @ [CHR 0x22] @ ''t'' @ [CHR 0x22] @ '','' @ [CHR 0x22] @ ''processID'' @ [CHR 0x22] @ '':'' @
     [CHR 0x22] @ ''g'' @ [CHR 0x22] @ ''}],'' @ [CHR 0x22] @ ''processes'' @ [CHR 0x22] @ '':{'' @ [CHR 0x22] @
     ''o'' @ [CHR 0x22] @ '':{'' @ [CHR 0x22] @ ''serviceName'' @ [CHR 0x22] @ '':'' @ [CHR 0x22] @
     ''payment-operator'' @ [CHR 0x22] @ ''},'' @ [CHR 0x22] @ ''m'' @ [CHR 0x22] @ '':{'' @ [CHR 0x22] @
     ''serviceName'' @ [CHR 0x22] @ '':'' @ [CHR 0x22] @ ''participant-payment-manager'' @ [CHR 0x22] @ ''},'' @
     [CHR 0x22] @ ''r'' @ [CHR 0x22] @ '':{'' @ [CHR 0x22] @ ''serviceName'' @ [CHR 0x22] @ '':'' @ [CHR 0x22] @
     ''payment-router'' @ [CHR 0x22] @ ''},'' @ [CHR 0x22] @ ''g'' @ [CHR 0x22] @ '':{'' @ [CHR 0x22] @
     ''serviceName'' @ [CHR 0x22] @ '':'' @ [CHR 0x22] @ ''gateway-card'' @ [CHR 0x22] @ ''}}},{'' @ [CHR 0x22] @
     ''traceID'' @ [CHR 0x22] @ '':'' @ [CHR 0x22] @ ''u'' @ [CHR 0x22] @ ''}]}''"

definition sample_series :: string where
  "sample_series = ''{'' @ [CHR 0x22] @ ''status'' @ [CHR 0x22] @ '':'' @ [CHR 0x22] @ ''success'' @ [CHR 0x22] @
     '','' @ [CHR 0x22] @ ''data'' @ [CHR 0x22] @ '':{'' @ [CHR 0x22] @ ''resultType'' @ [CHR 0x22] @ '':'' @
     [CHR 0x22] @ ''vector'' @ [CHR 0x22] @ '','' @ [CHR 0x22] @ ''result'' @ [CHR 0x22] @ '':[{'' @ [CHR 0x22] @
     ''metric'' @ [CHR 0x22] @ '':{'' @ [CHR 0x22] @ ''source_workload'' @ [CHR 0x22] @ '':'' @ [CHR 0x22] @
     ''payment-operator'' @ [CHR 0x22] @ '','' @ [CHR 0x22] @ ''destination_workload'' @ [CHR 0x22] @ '':'' @
     [CHR 0x22] @ ''payment-router'' @ [CHR 0x22] @ '','' @ [CHR 0x22] @ ''connection_security_policy'' @
     [CHR 0x22] @ '':'' @ [CHR 0x22] @ ''mutual_tls'' @ [CHR 0x22] @ ''},'' @ [CHR 0x22] @ ''value'' @
     [CHR 0x22] @ '':[1,'' @ [CHR 0x22] @ ''3'' @ [CHR 0x22] @ '']},{'' @ [CHR 0x22] @ ''metric'' @ [CHR 0x22] @
     '':{'' @ [CHR 0x22] @ ''source_workload'' @ [CHR 0x22] @ '':'' @ [CHR 0x22] @ ''payment-operator'' @
     [CHR 0x22] @ '','' @ [CHR 0x22] @ ''destination_workload'' @ [CHR 0x22] @ '':'' @ [CHR 0x22] @
     ''participant-payment-manager'' @ [CHR 0x22] @ '','' @ [CHR 0x22] @ ''connection_security_policy'' @
     [CHR 0x22] @ '':'' @ [CHR 0x22] @ ''mutual_tls'' @ [CHR 0x22] @ ''},'' @ [CHR 0x22] @ ''value'' @
     [CHR 0x22] @ '':[1,'' @ [CHR 0x22] @ ''2'' @ [CHR 0x22] @ '']},{'' @ [CHR 0x22] @ ''metric'' @ [CHR 0x22] @
     '':{},'' @ [CHR 0x22] @ ''value'' @ [CHR 0x22] @ '':[1,'' @ [CHR 0x22] @ ''0'' @ [CHR 0x22] @ '']}]}}''"

definition sample_locust :: string where
  "sample_locust = ''Type,Name,Request Count,Failure Count,95%'' @ [CHR 0x0A] @ '','' @ [CHR 0x22] @
     ''Aggregated'' @ [CHR 0x22] @ '',7,0,120'' @ [CHR 0x0A]"

definition sample_files :: "(string \<times> string) list" where
  "sample_files =
    [(''r/h/locust_stats.csv'', sample_locust),
     (''r/h/traces/payment-operator.json'', sample_traces),
     (''r/h/events/operator-mtls-secrets.txt'', ''ACTIVE''),
     (''r/h/events/egress-mtls-listener.json'', [CHR 0x22] @ ''requireClientCertificate'' @ [CHR 0x22] @ '': true''),
     (''r/h/metrics/istio-mtls.json'', sample_series)]"

definition sample_fs :: file_system where
  "sample_fs = \<lparr>read_file = (\<lambda>path. case map_of sample_files path of Some s \<Rightarrow> (s, True) | None \<Rightarrow> ([], False)),
     stat_ok = (\<lambda>path. map_of sample_files path \<noteq> None), read_dir = (\<lambda>_. ([], False))\<rparr>"

lemma exact_laws: "float_laws exact"
  by (auto simp: float_laws_def exact_def)

lemma sample_locust: "locustStats sample_fs ''r/h/locust_stats.csv'' = (7, 0, 120, True)"
  by code_simp

lemma sample_coverage: "traceCoverage sample_fs ''r/h/traces/payment-operator.json'' = (2, 1)"
  by code_simp

lemma sample_mtls: "readMTLS exact sample_fs ''r/h/metrics/istio-mtls.json'' =
    \<lparr>mt_Percent = 100, mt_Total = 5, mt_MutualTLS = 5, mt_NonTLS = 0, mt_Unknown = 0,
     mt_Hops = [''participant-payment-manager'', ''payment-router''], mt_Valid = True\<rparr>"
  by code_simp

lemma sample_config: "happy_config sample_fs ''r/h'' = (''ACTIVE'', [CHR 0x22] @ ''requireClientCertificate'' @
     [CHR 0x22] @ '': true'', True)"
  by code_simp

lemma sample_happy: "ms_Status (expHappy exact sample_fs ''r'' ''h'') = ''PASS''"
proof -
  have paths: "join_path ''r'' ''h'' = ''r/h''" "join_path ''r/h'' ''locust_stats.csv'' = ''r/h/locust_stats.csv''"
    "join_path (join_path ''r/h'' ''traces'') ''payment-operator.json'' = ''r/h/traces/payment-operator.json''"
    "join_path (join_path ''r/h'' ''metrics'') ''istio-mtls.json'' = ''r/h/metrics/istio-mtls.json''"
    by (simp_all add: join_path_def)
  show ?thesis
    by (simp add: expHappy_def Let_def paths sample_locust sample_coverage sample_mtls sample_config status_PASS)
      (simp add: exact_def)
qed

text \<open>Three roles do not make a trace complete; the criterion shows its percent sign twice.\<close>

lemma three_roles_incomplete:
  "coverage [\<lparr>tr_TraceID = ''t'', tr_Spans = [\<lparr>sp_TraceID = [], sp_ProcessID = ''o''\<rparr>, \<lparr>sp_TraceID = [], sp_ProcessID = ''m''\<rparr>,
       \<lparr>sp_TraceID = [], sp_ProcessID = ''r''\<rparr>],
     tr_Processes = [''o'' \<mapsto> \<lparr>tp_ServiceName = ''payment-operator''\<rparr>,
       ''m'' \<mapsto> \<lparr>tp_ServiceName = ''participant-payment-manager''\<rparr>, ''r'' \<mapsto> \<lparr>tp_ServiceName = ''payment-router''\<rparr>]\<rparr>] 0 0
   = (1, 0)"
  by code_simp

lemma happy_criterion_percent: "contains_sub ''100%%'' (ms_Criterion (expHappy fl fs root name))"
  by (simp add: expHappy_def Let_def split: prod.splits)

end
