(* ===== verification/Spec2Isabelle.thy ===== *)
theory Spec2Isabelle
  imports Overtaken_Read Run_Samples Router_Identity Startup Report_Sample
begin

text \<open>
  A model of the payment mesh (Go, \<open>src/\<close>) and what makes it correct.

  \<^bold>\<open>The program.\<close> A client posts a payment with an idempotency key to the \<^emph>\<open>operator\<close>
  (\<open>cmd/payment-operator\<close>). The operator asks the \<^emph>\<open>participant manager\<close>
  (\<open>cmd/participant-manager\<close>) whether debtor and creditor are active and have their roles,
  passes the payment to the \<^emph>\<open>router\<close> (\<open>cmd/payment-router\<close>) and keeps an order: its view of
  the router's payment. The router keeps one row per key, reserves it as PENDING under an
  advisory lock with a lease, calls one of two providers through an adapter
  (\<open>internal/payments/adapters.go\<close>) behind a circuit breaker (\<open>circuit.go\<close>), and records the
  result. The \<^emph>\<open>gateway mock\<close> (\<open>cmd/gateway-mock\<close>) is the provider: it charges once per
  key and keeps its books in a state file. Shared code is in \<open>internal/payments\<close>. The
  \<^emph>\<open>report generator\<close> (\<open>scripts/reportgen\<close>) turns the artefacts of six experiments into
  verdicts.

  \<^bold>\<open>Foundations.\<close> \<open>Mesh_Prelude\<close>: outcomes of statements, facts on lists. \<open>Go_Strings\<close>,
  \<open>Go_Csv\<close>, \<open>Json\<close>, \<open>Json_Text\<close>, \<open>Http\<close>: what the code uses of Go's library, at the level of
  bytes (a \<open>string\<close> is a list of bytes, an \<open>int\<close> of the code an \<open>int\<close> that is in
  \<open>in_int64\<close> or wraps with \<open>wrap64\<close>, a \<open>uint64\<close> a 64-bit word). \<open>Database\<close>: \<open>db.go\<close>, tables as
  lists of rows with unique columns, statements as functions on them.

  \<^bold>\<open>Components.\<close> \<open>Payment_Types\<close> is \<open>types.go\<close>; \<open>Telemetry\<close> the metrics of \<open>telemetry.go\<close>;
  \<open>Tracing\<close> is \<open>tracing.go\<close>; \<open>Circuit\<close> is \<open>circuit.go\<close>; \<open>Adapters\<close> is \<open>adapters.go\<close>;
  \<open>Participant_Manager\<close>, \<open>Gateway_Mock\<close>, \<open>Router\<close> and \<open>Operator\<close> are the four commands, with
  one definition per handler and the records \<open>manager\<close>, \<open>gateway\<close>, \<open>router\<close> and \<open>operator\<close> for
  their state; \<open>Schema\<close> has the \<open>Ensure\<close> statements of \<open>db.go\<close> on tables of cells (ensuring twice
  is ensuring once, and no stored row is lost), \<open>Startup\<close> the \<open>main\<close> functions; \<open>Reports\<close> and \<open>Report_Verdicts\<close> are the
  report generator. A handler takes an event record that says which statements reach the
  database and what the clock reads, so every error branch of the source is a branch of the
  model; a network is a function on a world, which may lose requests and answers.

  \<^bold>\<open>Contracts.\<close> \<open>Provider_Contract\<close> (locale \<open>provider\<close>, interpreted on both gateway
  contracts), \<open>Circuit\<close> (locale \<open>breaker\<close>), \<open>Ledger\<close> (locale \<open>ledger\<close>: a decided row never
  changes, interpreted on the tables of router and operator), \<open>Router_Providers\<close> (locale
  \<open>providers\<close>: a decided charge has evidence that lasts, interpreted on the adapters over any
  network and on the two gateways of the mesh).

  \<^bold>\<open>What the lemmas show.\<close> \<open>Gateway_Runs\<close>: interleaved requests, restarts and failed writes at
  a gateway. \<open>Provider_Link\<close>: adapters against the gateway over a lossy link. \<open>Router_Facts\<close>,
  \<open>Router_Identity\<close>: the router one request at a time. \<open>Router_Runs\<close>, \<open>Router_Refinement\<close>: any
  interleaving of create requests on any number of replicas, with sessions lost and processes
  killed, refines the specification Unknown, Open, Decided per key. \<open>Operator_Facts\<close>: the
  operator on any network. \<open>Mesh\<close>, \<open>Mesh_Orders\<close>, \<open>Mesh_Runs\<close>, \<open>Mesh_Liveness\<close>: all services
  composed, with the public requests served one after another; a decided order repeats a
  decided payment, which is on the books of the gateway, and a healthy mesh pays.
  \<open>Operator_Runs\<close>: creates and reads of orders step by step, with a step for each call and for
  the write at the end, which other requests and other replicas overtake in any order and
  which may stop anywhere; run alone they are the handlers. \<open>Overtaken_Read\<close>: concrete runs.
  \<open>Report_Facts\<close>: what the verdicts mean. \<open>Samples\<close>, \<open>Run_Samples\<close>, \<open>Mesh_Sample\<close> and
  \<open>Report_Sample\<close> are the concrete runs at which the properties C1 to C40 are witnessed.

  \<^bold>\<open>Bounds.\<close> The JSON parser's fuel is the length of the text; every other loop terminates by
  structure or a measure. \<open>openWithRetry\<close> tries 30 times, as in the source.

  \<^bold>\<open>Parameters.\<close> SHA-256 (with the hypothesis, where it is needed, that the texts at hand do
  not collide), the texts PostgreSQL reads as UUIDs, \<open>url.Parse\<close>, the random bytes of a UUID,
  time, the HTTP transport, IEEE arithmetic (with the laws \<open>float_laws\<close>) and the file system.

  \<^bold>\<open>Not modelled.\<close> PostgreSQL itself beyond single statements, locks and commits; connection
  pools; the OpenTelemetry SDK; TLS; what happens to a connection while a response is
  written; the operator's locks and uncommitted rows in \<open>Operator_Runs\<close> (its steps are allowed
  where PostgreSQL would delay them). A JSON array assigned twice to one field of a
  report artefact, and file names with the special characters of \<open>filepath.Glob\<close>, are outside the model.
  Kubernetes and Istio configuration, the shell scripts and the load test are not Go code.
\<close>

section \<open>The mesh\<close>

text \<open>C1: Whatever public requests are served, with any losses between the services, an order
  that is decided repeats a decided payment of the router with the same status and reference,
  and the gateway that was charged has exactly that outcome on its books.\<close>

theorem mesh_decided_order_on_books:
  assumes "mesh_run env cfg rs (s, b) = ((s', b'), resps)" "addresses_apart env"
    and "rc_adapters cfg = gateway_adapters ca ba"
    and "backend_good (rc_uuid_in cfg) (gateways_sound ca ba) on_books b" "orders_linked (bk_rows b) (op_rows s)"
    and "order_by_key key (op_rows s') = Some o'" "terminal (ord_status o')"
  shows "\<exists>row. select_by_key key (bk_rows b') = Some row \<and> row_status row = ord_status o' \<and> row_id row = ord_id o' \<and>
    coalesce (row_provider_ref row) = coalesce (ord_provider_ref o') \<and>
    on_books (bk_world b') (row_gateway row) key (ord_status o') (coalesce (ord_provider_ref o'))"
proof -
  from two_gateways.mesh_run_linked [OF assms(1-5)] have
    "backend_good (rc_uuid_in cfg) (gateways_sound ca ba) on_books b'" "orders_linked (bk_rows b') (op_rows s')"
    by (simp_all add: bk_step_def)
  with assms(6,7) show ?thesis by (intro two_gateways.decided_order_backed)
qed

lemma mesh_config_adapters: "rc_adapters mesh_config = gateway_adapters sample_card sample_bank"
  by (simp add: mesh_config_def)

theorem mesh_decided_order_on_books_witness:
  "\<exists>s b p o' row. mesh_run no_env mesh_config [(operator_ok, public_post)] (sample_operator, sample_backend) =
     ((s, b), [payment_answer p]) \<and> pay_Status p = ''SUCCEEDED'' \<and>
     order_by_key ''k'' (op_rows s) = Some o' \<and> select_by_key ''k'' (bk_rows b) = Some row \<and>
     row_status row = ord_status o' \<and>
     on_books (bk_world b) (row_gateway row) ''k'' (ord_status o') (coalesce (ord_provider_ref o'))"
proof -
  obtain s b p o' where run: "mesh_run no_env mesh_config [(operator_ok, public_post)] (sample_operator, sample_backend) =
     ((s, b), [payment_answer p])" "pay_Status p = ''SUCCEEDED''" and o': "order_by_key ''k'' (op_rows s) = Some o'" "terminal (ord_status o')"
    using sample_mesh by blast
  from mesh_decided_order_on_books [OF run(1) sample_apart mesh_config_adapters sample_good sample_linked o'] run o'
  show ?thesis by blast
qed

text \<open>C2: A decided order never changes again: whatever requests are served afterwards, one after
  another, its id, key, status, gateway, reference and error stay what they are.\<close>

theorem mesh_decided_order_is_final:
  assumes "mesh_run env cfg rs (s, b) = ((s', b'), resps)" "addresses_apart env"
    and "rc_adapters cfg = gateway_adapters ca ba"
    and "backend_good (rc_uuid_in cfg) (gateways_sound ca ba) on_books b" "orders_linked (bk_rows b) (op_rows s)"
    and "order_by_key key (op_rows s) = Some o'" "terminal (ord_status o')"
  shows "\<exists>o''. order_by_key key (op_rows s') = Some o'' \<and> order_response o'' = order_response o'"
  using assms by (rule two_gateways.mesh_run_keeps_decided)

theorem mesh_decided_order_is_final_witness:
  "\<exists>s b o' s' b' resps o''. mesh_run no_env mesh_config [(operator_ok, public_post)] (s, b) = ((s', b'), resps) \<and>
     order_by_key ''k'' (op_rows s) = Some o' \<and> terminal (ord_status o') \<and>
     order_by_key ''k'' (op_rows s') = Some o'' \<and> order_response o'' = order_response o'"
proof -
  obtain s b p o' where run: "mesh_run no_env mesh_config [(operator_ok, public_post)] (sample_operator, sample_backend) =
     ((s, b), [payment_answer p])" and o': "order_by_key ''k'' (op_rows s) = Some o'" "terminal (ord_status o')"
    using sample_mesh by blast
  from two_gateways.mesh_run_linked [OF run sample_apart mesh_config_adapters sample_good sample_linked]
  have good: "backend_good (rc_uuid_in mesh_config) (gateways_sound sample_card sample_bank) on_books b"
    "orders_linked (bk_rows b) (op_rows s)" by (simp_all add: bk_step_def)
  obtain s' b' resps where again: "mesh_run no_env mesh_config [(operator_ok, public_post)] (s, b) = ((s', b'), resps)"
    by (metis prod.collapse)
  from mesh_decided_order_is_final [OF again sample_apart mesh_config_adapters good o'] again o' show ?thesis by blast
qed



section \<open>The router\<close>

text \<open>C4: A decided answer (status 200 or 422) of the router is on record before it is given: the
  payment of the key is terminal, and the answer is exactly what the record says.\<close>

theorem decided_answers_are_on_record:
  assumes "Router.create cfg ev r s w = ((s', w'), Some resp)" "payments_inv (r_rows s)"
    and "http_status resp = 200 \<or> http_status resp = 422"
  shows "\<exists>row. select_by_key (request_key r) (r_rows s') = Some row \<and> terminal (row_status row) \<and>
    resp = JSON (StatusCode (row_status row)) (encode_payment (answer_of row))"
  using assms by (rule create_decided)

theorem decided_answers_are_on_record_witness:
  "\<exists>row. select_by_key (request_key (router_post ''k'' sample_request)) [sample_row] = Some row \<and>
     terminal (row_status row) \<and>
     JSON 200 (encode_payment (answer_of sample_row)) = JSON (StatusCode (row_status row)) (encode_payment (answer_of row))"
  using decided_answers_are_on_record [OF sample_create payments_inv_empty] by simp

text \<open>C5: Any interleaving of create requests, with lost sessions, crashes, open breakers and
  arbitrary provider results, is a run of the specification in which a key is Unknown, then
  Open, then Decided once and for all, and a decided answer repeats the decision.\<close>

theorem router_runs_refine_spec:
  assumes "rrun slot sha recovery S obs S'" "sys_inv slot S"
  shows "spec_run (key_state (sys_rows S)) obs (key_state (sys_rows S'))"
  using rrun_refines [OF assms] by simp

theorem router_runs_refine_spec_witness:
  "spec_run (\<lambda>_. Unknown) sample_obs ((\<lambda>_. Unknown)(''k'' := Decided (answer_of sample_row)))"
proof -
  obtain S where S: "rrun (\<lambda>k. k) (\<lambda>s. s) 0 (idle_system []) sample_obs S" "sys_rows S = [sample_row]"
    using sample_run by blast
  have "sys_inv (\<lambda>k. k) (idle_system [] :: string system)" by (rule sys_inv_idle) (simp add: payments_inv_def)
  moreover have "key_state [] = (\<lambda>_. Unknown)" by (simp add: key_state_def select_by_key_def fun_eq_iff)
  moreover have "key_state [sample_row] = (\<lambda>_. Unknown)(''k'' := Decided (answer_of sample_row))"
    by (auto simp: key_state_def select_by_key_def fun_eq_iff sample_row_def terminal_def)
  ultimately show ?thesis using router_runs_refine_spec [OF S(1)] S(2) by (simp add: idle_system_def)
qed

text \<open>C6: Two decided answers given for one key, by any threads and at any times, are equal.\<close>

theorem decided_answers_agree:
  assumes "rrun slot sha recovery (idle_system rows) obs S" "payments_inv rows"
    and "Answered key resp \<in> set obs" "Answered key resp' \<in> set obs"
    and "http_status resp \<in> {200, 422}" "http_status resp' \<in> {200, 422}"
  shows "resp = resp'"
proof -
  from rrun_refines [OF assms(1) sys_inv_idle [OF assms(2)]]
  have run: "spec_run (key_state rows) obs (key_state (sys_rows S))" by (simp add: idle_system_def)
  from spec_run_answers [OF run assms(3)] spec_run_answers [OF run assms(4)] assms(5,6) show ?thesis by auto
qed

theorem decided_answers_agree_witness:
  "\<exists>S. rrun (\<lambda>k. k) (\<lambda>s. s) 0 (idle_system []) sample_obs (S :: string system) \<and>
     sample_obs ! 4 = Answered ''k'' sample_reply \<and> sample_obs ! 7 = Answered ''k'' sample_reply \<and> sample_reply = sample_reply"
proof -
  obtain S :: "string system" where S: "rrun (\<lambda>k. k) (\<lambda>s. s) 0 (idle_system []) sample_obs S" using sample_run by blast
  have obs: "Answered ''k'' sample_reply \<in> set sample_obs" by (simp add: sample_obs_def)
  have st: "http_status sample_reply \<in> {200, 422}" by (simp add: sample_reply_def)
  have inv: "payments_inv []" by (simp add: payments_inv_def)
  from decided_answers_agree [OF S inv obs obs st st] S show ?thesis by (auto simp: sample_obs_def)
qed



text \<open>C8: A provider is called for a key only when a payment of that key is on record.\<close>

theorem providers_called_for_recorded_keys:
  assumes "rrun slot sha recovery (idle_system rows) obs S" "payments_inv rows" "Called key \<in> set obs"
  shows "\<exists>row. select_by_key key (sys_rows S) = Some row"
  using rrun_called [OF assms(1) sys_inv_idle [OF assms(2)] assms(3)] .

theorem providers_called_for_recorded_keys_witness:
  "\<exists>S row. rrun (\<lambda>k. k) (\<lambda>s. s) 0 (idle_system []) sample_obs (S :: string system) \<and> select_by_key ''k'' (sys_rows S) = Some row"
proof -
  obtain S :: "string system" where S: "rrun (\<lambda>k. k) (\<lambda>s. s) 0 (idle_system []) sample_obs S" using sample_run by blast
  have "Called ''k'' \<in> set sample_obs" "payments_inv []" by (simp_all add: sample_obs_def payments_inv_def)
  with providers_called_for_recorded_keys [OF S] S show ?thesis by blast
qed

text \<open>C9: A repeated request whose payment is decided gets the recorded outcome again; no provider is
  called, and nothing changes.\<close>

theorem replay_repeats_the_outcome:
  assumes "create_prologue (rc_sha cfg) r = Accept key hashes req"
    and "select_by_key key (r_rows s) = Some row" "terminal (row_status row)" "hash_matches hashes row"
    and "create_acquire ev key = None" "re_select ev" "reported_ok (re_commit ev)"
  shows "Router.create cfg ev r s w = ((s, w), Some (JSON (StatusCode (row_status row)) (encode_payment (answer_of row))))"
  using assms by (rule create_replay)

theorem replay_repeats_the_outcome_witness:
  "Router.create (sample_config paid) good_event (router_post ''k'' sample_request) (empty_router\<lparr>r_rows := [sample_row]\<rparr>) 7 =
    ((empty_router\<lparr>r_rows := [sample_row]\<rparr>, 7), Some (JSON 200 (encode_payment (answer_of sample_row))))"
proof -
  let ?s = "empty_router\<lparr>r_rows := [sample_row]\<rparr>"
  have sel: "select_by_key ''k'' (r_rows ?s) = Some sample_row" by (simp add: select_by_key_def sample_row_def)
  have t: "terminal (row_status sample_row)" by (simp add: sample_row_def terminal_def)
  have h: "hash_matches (request_hashes (rc_sha (sample_config paid)) sample_request) sample_row"
    using canonical_fixed [OF sample_canonical]
    by (simp add: hash_matches_def request_hashes_def RequestHash_def Let_def) (simp add: sample_config_def sample_row_def)
  have ev: "re_select good_event" "reported_ok (re_commit good_event)" by (simp_all add: good_event_def)
  from replay_repeats_the_outcome [OF sample_prologue sel t h sample_events ev, of 7]
  show ?thesis by (simp add: sample_row_def StatusCode_def)
qed

text \<open>C10: With the database up, a request whose key is taken is refused with 409 exactly when it is,
  in canonical form, another request than the recorded one, as long as SHA-256 does not
  collide on the four texts that are compared.\<close>

theorem conflict_iff_other_request:
  assumes "hashed_inv (rc_sha cfg) (r_rows s)" "payments_inv (r_rows s)"
    and "create_prologue (rc_sha cfg) r = Accept key (request_hashes (rc_sha cfg) original) (canonical_request original)"
    and "Decode decode_router r = Some original" "select_by_key key (r_rows s) = Some row"
    and "no_collision (rc_sha cfg) [request_of row, canonical_request original, original, legacy_request (canonical_request original)]"
    and "create_acquire ev key = None" "re_select ev"
    and "Router.create cfg ev r s w = ((s', w'), Some resp)"
  shows "http_status resp = 409 \<longleftrightarrow> request_of row \<noteq> canonical_request original"
proof -
  from Decode_ok [OF assms(4)] decode_router_text have rt: "router_text original" by blast
  have c: "canonical (canonical_request original)" using create_prologue_Accept [OF assms(3)] by blast
  have row: "row \<in> set (r_rows s)" "payment_row_ok row"
    using select_by_keyD [OF assms(5)] assms(2) by (auto simp: payments_inv_def)
  have match: "hash_matches (request_hashes (rc_sha cfg) original) row \<longleftrightarrow> request_of row = canonical_request original"
    using hash_matches_iff [OF assms(1) row c rt assms(6)] .
  show ?thesis
  proof
    assume "http_status resp = 409"
    from create_409 [OF assms(9) this assms(3)] assms(5) match show "request_of row \<noteq> canonical_request original" by auto
  next
    assume "request_of row \<noteq> canonical_request original"
    with match create_conflict_409 [OF assms(3,5) _ assms(7,8), of w] assms(9) show "http_status resp = 409" by simp
  qed
qed

definition other_row :: payment_row where
  "other_row = sample_row\<lparr>row_amount_minor := 6,
     row_hash := json_text (encode_router (sample_request\<lparr>rtr_AmountMinor := 6\<rparr>))\<rparr>"

lemma other_row_facts:
  "request_of other_row = sample_request\<lparr>rtr_AmountMinor := 6\<rparr>" "payments_inv [other_row]" "hashed_inv (\<lambda>s. s) [other_row]"
  "select_by_key ''k'' [other_row] = Some other_row"
proof -
  show r: "request_of other_row = sample_request\<lparr>rtr_AmountMinor := 6\<rparr>"
    by (simp add: request_of_def lookup_of_def other_row_def sample_row_def sample_request_def)
  have "list_all is_upper ''COP''" by code_simp
  then show "payments_inv [other_row]" using sample_pg
    by (simp add: payments_inv_def payment_row_ok_def other_row_def sample_row_def ValidInstrument_iff in_int64_def
        int64_min_def int64_max_def)
  show "hashed_inv (\<lambda>s. s) [other_row]" by (simp add: hashed_inv_def r) (simp add: other_row_def RequestHash_def)
  show "select_by_key ''k'' [other_row] = Some other_row" by (simp add: select_by_key_def other_row_def sample_row_def)
qed

theorem conflict_iff_other_request_witness:
  "\<exists>s' w' resp. Router.create (sample_config paid) good_event (router_post ''k'' sample_request)
     (empty_router\<lparr>r_rows := [other_row]\<rparr>) 0 = ((s', w'), Some resp) \<and> http_status resp = 409"
proof -
  let ?cfg = "sample_config paid" and ?r = "router_post ''k'' sample_request" and ?s = "empty_router\<lparr>r_rows := [other_row]\<rparr>"
  have sha: "rc_sha ?cfg = (\<lambda>s. s)" by (simp add: sample_config_def)
  have c: "canonical_request sample_request = sample_request" by (rule canonical_fixed) simp
  have pro: "create_prologue (rc_sha ?cfg) ?r = Accept ''k'' (request_hashes (rc_sha ?cfg) sample_request) (canonical_request sample_request)"
    unfolding c by (rule sample_prologue)
  have d: "Decode decode_router ?r = Some sample_request"
    using sample_canonical by (intro Decode_router) (simp_all add: canonical_def router_post_def)
  have inv: "hashed_inv (rc_sha ?cfg) (r_rows ?s)" "payments_inv (r_rows ?s)" "select_by_key ''k'' (r_rows ?s) = Some other_row"
    using other_row_facts sha by simp_all
  have nc: "no_collision (rc_sha ?cfg) [request_of other_row, canonical_request sample_request, sample_request,
      legacy_request (canonical_request sample_request)]" by (simp add: no_collision_def sha inj_on_def)
  have ev: "re_select good_event" by (simp add: good_event_def)
  have differs: "request_of other_row \<noteq> canonical_request sample_request"
    by (simp add: c other_row_facts(1)) (simp add: sample_request_def)
  have "\<not> hash_matches (request_hashes (rc_sha ?cfg) sample_request) other_row"
    using hash_matches_iff [OF inv(1) _ _ _ _ nc] other_row_facts(2) differs sample_canonical
    by (simp add: c payments_inv_def canonical_def)
  from create_conflict_409 [OF pro inv(3) this sample_events ev, of 0] obtain resp where
    "Router.create ?cfg good_event ?r ?s 0 = ((?s, 0), Some resp)" by blast
  with conflict_iff_other_request [OF inv(1,2) pro d inv(3) nc sample_events ev this] differs show ?thesis by blast
qed



text \<open>C12: Every create request keeps the table of payments well formed (one payment per key and per id,
  every row within its bounds, the hash of its own request), never changes what was
  requested, and never touches a decided payment.\<close>

theorem create_keeps_the_table:
  assumes "Router.create cfg ev r s w = ((s', w'), resp)"
    and "payments_inv (r_rows s)" "hashed_inv (rc_sha cfg) (r_rows s)"
  shows "payments_inv (r_rows s') \<and> hashed_inv (rc_sha cfg) (r_rows s') \<and>
    (\<forall>key row. select_by_key key (r_rows s) = Some row \<longrightarrow>
      (\<exists>row'. select_by_key key (r_rows s') = Some row' \<and> request_of row' = request_of row \<and> row_id row' = row_id row \<and>
        (terminal (row_status row) \<longrightarrow> row' = row)))"
proof -
  have ev: "table_evolves (r_rows s) (r_rows s')" using create_evolves(1) [OF assms(1)] .
  have "\<exists>row'. select_by_key key (r_rows s') = Some row' \<and> request_of row' = request_of row \<and> row_id row' = row_id row \<and>
      (terminal (row_status row) \<longrightarrow> row' = row)" if "select_by_key key (r_rows s) = Some row" for key row
  proof -
    from ev that obtain row' where row': "select_by_key key (r_rows s') = Some row'" "row_evolves row row'"
      unfolding table_evolves_def by blast
    then have "frozen row' = frozen row" by (simp add: row_evolves_def)
    from request_of_frozen [OF this] frozen_eqD [OF this] row' show ?thesis by (auto simp: row_evolves_def)
  qed
  with create_evolves(2) [OF assms(1,2)] create_hashed [OF assms(1,3)] show ?thesis by blast
qed

theorem create_keeps_the_table_witness:
  "payments_inv [sample_row] \<and> hashed_inv (\<lambda>s. s) [sample_row]"
  using create_keeps_the_table [OF sample_create payments_inv_empty]
  by (simp add: sample_config_def) (simp add: empty_router_def hashed_inv_def)

text \<open>C13: The recovery delay is a non-negative \<open>time.Duration\<close> whatever the environment says.\<close>

theorem recovery_delay_bounds: "0 \<le> pendingRecoveryAfter env \<and> pendingRecoveryAfter env < 2 ^ 63"
proof -
  have "pendingRecoveryAfter env < 2 ^ 63"
    using parse_duration_range by (fastforce simp: pendingRecoveryAfter_def defaultPendingRecoveryAfter_def Let_def split: option.splits)
  with pendingRecoveryAfter_nonneg show ?thesis by simp
qed


section \<open>Providers and gateways\<close>

text \<open>C15: Over a network that loses requests and answers, any number of attempts to charge the card
  gateway charge at most once per idempotency key, and a result that is reported as decided
  is the outcome the gateway has on its books for that key.\<close>

theorem card_charges_once_per_key:
  assumes "base = trim_right_chars ''/'' (card_BaseURL a)"
    and "card_attempts (link base) a ats (ds, g) = ((ds', g'), rs)"
    and "list_all delivery_ok ds" "list_all attempt_ok ats" "accepts_token g (card_AuthToken a)"
    and "durable g" "books_wf g" "ledger_inv g"
  shows "effective g' \<le> effective g + int (card ((snd \<circ> snd) ` set ats)) \<and>
    (\<forall>k res. (k, res) \<in> set rs \<and> prov_Status res = ''SUCCEEDED'' \<longrightarrow>
       (\<exists>n. g_card g' k = Some (authorized_card n) \<and> prov_ProviderRef res = card_AuthorizationID (authorized_card n))) \<and>
    (\<forall>k res. (k, res) \<in> set rs \<and> prov_Status res = ''FAILED'' \<longrightarrow> g_card g' k = Some declined_card)"
  using card_attempts_charges [OF assms] card_attempts_books [OF assms(1-7)] by blast

theorem card_charges_once_per_key_witness:
  "\<exists>ds g rs. card_attempts (link ''https://gateway-card:8443'') sample_card
      [(Map.empty, sample_request, ''k''), (Map.empty, sample_request, ''k'')]
      ([LostAnswer gateway_ok, Delivered gateway_ok], new_gateway gateway_env NoFile) = ((ds, g), rs) \<and> effective g \<le> 1"
proof -
  obtain ds g rs where c: "card_attempts (link ''https://gateway-card:8443'') sample_card
      [(Map.empty, sample_request, ''k''), (Map.empty, sample_request, ''k'')]
      ([LostAnswer gateway_ok, Delivered gateway_ok], new_gateway gateway_env NoFile) = ((ds, g), rs)" by (metis prod.collapse)
  have base: "''https://gateway-card:8443'' = trim_right_chars ''/'' (card_BaseURL sample_card)" by code_simp
  have eff: "effective (new_gateway gateway_env NoFile) = 0" by (simp add: effective_def new_gateway_def zero_stats_def)
  from card_charges_once_per_key [OF base c sample_link_facts(1,2,3,5) books_wf_new ledger_inv_new] c eff
  show ?thesis by auto
qed

text \<open>C16: The same holds of the bank gateway with its own contract.\<close>

theorem bank_charges_once_per_key:
  assumes "base = trim_right_chars ''/'' (bank_BaseURL a)"
    and "bank_attempts (link base) a ats (ds, g) = ((ds', g'), rs)"
    and "list_all delivery_ok ds" "list_all attempt_ok ats" "accepts_token g (bank_AuthToken a)"
    and "durable g" "books_wf g" "ledger_inv g"
  shows "effective g' \<le> effective g + int (card ((snd \<circ> snd) ` set ats)) \<and>
    (\<forall>k res. (k, res) \<in> set rs \<and> prov_Status res = ''SUCCEEDED'' \<longrightarrow>
       (\<exists>n. g_bank g' k = Some (accepted_bank n) \<and> prov_ProviderRef res = bank_TransferID (accepted_bank n))) \<and>
    (\<forall>k res. (k, res) \<in> set rs \<and> prov_Status res = ''FAILED'' \<longrightarrow> g_bank g' k = Some rejected_bank)"
  using bank_attempts_charges [OF assms] bank_attempts_books [OF assms(1-7)] by blast

theorem bank_charges_once_per_key_witness:
  "\<exists>ds g rs. bank_attempts (link ''https://gateway-bank:8443'') sample_bank
      [(Map.empty, sample_request, ''k''), (Map.empty, sample_request, ''k'')]
      ([LostAnswer gateway_ok, Delivered gateway_ok], new_gateway gateway_env NoFile) = ((ds, g), rs) \<and> effective g \<le> 1"
proof -
  obtain ds g rs where c: "bank_attempts (link ''https://gateway-bank:8443'') sample_bank
      [(Map.empty, sample_request, ''k''), (Map.empty, sample_request, ''k'')]
      ([LostAnswer gateway_ok, Delivered gateway_ok], new_gateway gateway_env NoFile) = ((ds, g), rs)" by (metis prod.collapse)
  have base: "''https://gateway-bank:8443'' = trim_right_chars ''/'' (bank_BaseURL sample_bank)" by code_simp
  have eff: "effective (new_gateway gateway_env NoFile) = 0" by (simp add: effective_def new_gateway_def zero_stats_def)
  from bank_charges_once_per_key [OF base c sample_link_facts(1,2,4,5) books_wf_new ledger_inv_new] c eff
  show ?thesis by auto
qed

text \<open>C17: A key has one outcome at a gateway with a state file: whatever happens in between (other
  requests, changed behaviour, failed writes, restarts), two answers for a key are the same,
  and the gateway still has it.\<close>

theorem gateway_answers_agree:
  assumes "gw_run (new_gateway env NoFile) obs g" "statePath env \<noteq> []"
  shows "(SawCard k r \<in> set obs \<and> SawCard k q \<in> set obs \<longrightarrow> r = q \<and> g_card g k = Some r) \<and>
    (SawBank k' r' \<in> set obs \<and> SawBank k' q' \<in> set obs \<longrightarrow> r' = q' \<and> g_bank g k' = Some r')"
proof -
  from gw_run_remembers [OF assms(1) durable_new [OF assms(2)]]
  have "\<And>ob. ob \<in> set obs \<Longrightarrow> remembers g ob" by blast
  from this [of "SawCard k r"] this [of "SawCard k q"] this [of "SawBank k' r'"] this [of "SawBank k' q'"]
  show ?thesis by (auto simp: remembers_def)
qed

theorem gateway_answers_agree_witness:
  "\<exists>g. gw_run (new_gateway gateway_env NoFile) [SawCard ''k'' (authorized_card 7), SawNothing, SawCard ''k'' (authorized_card 7)] g \<and>
     g_card g ''k'' = Some (authorized_card 7)"
proof -
  obtain g where g: "gw_run (new_gateway gateway_env NoFile)
      [SawCard ''k'' (authorized_card 7), SawNothing, SawCard ''k'' (authorized_card 7)] g" using sample_gateway_run by blast
  have "statePath gateway_env \<noteq> []" by code_simp
  from gateway_answers_agree [OF g this, of "''k''" "authorized_card 7" "authorized_card 7"]
  have "g_card g ''k'' = Some (authorized_card 7)" by simp
  with g show ?thesis by blast
qed

text \<open>C18: The counter of effective charges that the experiments read is exactly the number of keys
  that were charged, over restarts and failed writes.\<close>

theorem effective_charges_count_keys:
  assumes "gw_run (new_gateway env NoFile) obs g" "statePath env \<noteq> []"
  shows "finite (charged_cards g) \<and> finite (charged_banks g) \<and>
    EffectiveCharges (g_stats g) = int (card (charged_cards g)) + int (card (charged_banks g))"
  using gw_run_ledger [OF assms(1) durable_new [OF assms(2)] ledger_inv_new] by (simp add: ledger_inv_def effective_def)

theorem effective_charges_count_keys_witness:
  "\<exists>g. gw_run (new_gateway gateway_env NoFile) [SawCard ''k'' (authorized_card 7), SawNothing, SawCard ''k'' (authorized_card 7)] g \<and>
     EffectiveCharges (g_stats g) = int (card (charged_cards g)) + int (card (charged_banks g))"
proof -
  obtain g where g: "gw_run (new_gateway gateway_env NoFile)
      [SawCard ''k'' (authorized_card 7), SawNothing, SawCard ''k'' (authorized_card 7)] g" using sample_gateway_run by blast
  have "statePath gateway_env \<noteq> []" by code_simp
  from effective_charges_count_keys [OF g this] g show ?thesis by blast
qed

text \<open>What a request offers, and what a gateway expects.\<close>

definition offered :: "string \<Rightarrow> http_request \<Rightarrow> string" where
  "offered h r = (let p = trim_space (header_get (req_header r) h) in if p = [] then bearer r else p)"

definition payment_token :: "(string \<Rightarrow> string) \<Rightarrow> string" where
  "payment_token env = (let t = trim_space (env ''GATEWAY_PAYMENT_TOKEN'') in
     if t = [] then trim_space (env ''GATEWAY_AUTH_TOKEN'') else t)"

lemma paymentAuth_None: "paymentAuth env r = None \<longleftrightarrow> payment_token env \<noteq> [] \<and> offered ''X-Gateway-Auth'' r = payment_token env"
  by (auto simp: paymentAuth_def payment_token_def offered_def Let_def)

lemma controlAuth_None:
  "controlAuth env r = None \<longleftrightarrow> trim_space (env ''GATEWAY_ADMIN_TOKEN'') \<noteq> [] \<and>
     offered ''X-Gateway-Admin'' r = trim_space (env ''GATEWAY_ADMIN_TOKEN'')"
  by (auto simp: controlAuth_def offered_def Let_def)

text \<open>C19: A request changes a gateway only with the credential its page asks for: the payment token on
  the two payment pages, the admin token on the behaviour page; an empty token never opens a
  page, and every other page changes nothing.\<close>

theorem gateway_changes_need_credentials:
  assumes "gateway_serve ev r g = (g', resp)" "g' \<noteq> g"
  shows "req_path r \<in> {''/v1/card/authorizations'', ''/v2/transfers''} \<and> payment_token (g_env g) \<noteq> [] \<and>
      offered ''X-Gateway-Auth'' r = payment_token (g_env g) \<or>
    req_path r = ''/admin/behavior'' \<and> trim_space (g_env g ''GATEWAY_ADMIN_TOKEN'') \<noteq> [] \<and>
      offered ''X-Gateway-Admin'' r = trim_space (g_env g ''GATEWAY_ADMIN_TOKEN'')"
proof -
  from assms have "req_path r \<in> {''/v1/card/authorizations'', ''/v2/transfers''} \<and> paymentAuth (g_env g) r = None \<or>
      req_path r = ''/admin/behavior'' \<and> controlAuth (g_env g) r = None"
    by (auto simp: gateway_serve_def guarded_def health_def statsHandler_def split: if_splits option.splits)
  then show ?thesis unfolding paymentAuth_None controlAuth_None by blast
qed

definition sample_charge_request :: http_request where
  "sample_charge_request = (provider_request ''t'' ''x'' Map.empty (card_payload sample_request ''k''))\<lparr>req_path := ''/v1/card/authorizations''\<rparr>"

theorem gateway_changes_need_credentials_witness:
  "payment_token gateway_env \<noteq> [] \<and> offered ''X-Gateway-Auth'' sample_charge_request = payment_token gateway_env"
proof -
  let ?g = "new_gateway gateway_env NoFile" and ?r = sample_charge_request
  have up: "gateway_up gateway_ok ?g"
    by (simp add: gateway_up_def gateway_ok_def new_gateway_def gateway_env_def getenv_def in_int64_def int64_min_def int64_max_def)
  have none: "g_card ?g ''k'' = None" by (simp add: new_gateway_def)
  have rt: "router_text sample_request" using sample_canonical by (simp add: canonical_def)
  have b: "req_body ?r = card_payload sample_request ''k''" "req_method ?r = ''POST''" "req_path ?r = ''/v1/card/authorizations''"
    by (simp_all add: sample_charge_request_def provider_request_def)
  obtain c where c: "Decode decode_card_request ?r = Some c" "cr_RequestID c = ''k''"
    using Decode_card_payload [OF rt sample_letters(1) b(1)] by blast
  obtain g' where g': "cardAuthorization gateway_ok ?r ?g = (g', Some (JSON 200 (encode_card (authorized_card (ge_nanos gateway_ok)))))"
    using cardAuthorization_up [OF up none b(2) c] by blast
  have "trace_only Map.empty" by (simp add: trace_only_def)
  from paymentAuth_accepts [OF sample_tokens this] have "paymentAuth (g_env ?g) ?r = None"
    unfolding sample_charge_request_def .
  then have s: "gateway_serve gateway_ok ?r ?g = (g', Some (JSON 200 (encode_card (authorized_card (ge_nanos gateway_ok)))))"
    using g' b(3) by (simp add: gateway_serve_def guarded_def)
  have "Attempts (g_stats g') \<noteq> Attempts (g_stats ?g)"
    using g' b(2) c none by (auto simp: cardAuthorization_def card_lookup_def waitProvider_def gateway_ok_def
        card_commit_def read_behavior_def reply_response_def persistStateLocked_def add_charges_def count_attempt_def
        new_gateway_def Let_def split: if_splits)
  then have "g' \<noteq> ?g" by auto
  with gateway_changes_need_credentials [OF s] b(3) show ?thesis by (auto simp: new_gateway_def)
qed

section \<open>The circuit breaker and the metrics\<close>





text \<open>C22: An open breaker is not stuck: however often it is asked before its time it refuses and does
  not change, at its time it admits a call, and a success closes it for good.\<close>

theorem breaker_is_not_stuck:
  assumes "circuit_inv c" "openedAt c = Some t" "\<forall>u \<in> set us. u < t + cooldown c" "t + cooldown c \<le> now"
  shows "cb.attempts us c = (replicate (length us) False, c) \<and> fst (Allow now (snd (cb.attempts us c))) \<and>
    fst (Allow later (Success c))"
proof -
  have b: "blocked_until c = Some (t + cooldown c)" using assms(2) by (simp add: blocked_until_def)
  from cb.attempts_refused [OF assms(1) b assms(3)] cb.allowed_after [OF assms(1) b assms(4)] cb.success_allows [OF assms(1)]
  show ?thesis by simp
qed

theorem breaker_is_not_stuck_witness:
  "cb.attempts [12, 30] (circuit_run (NewCircuit 1 30) [CFailure 11]) =
     ([False, False], circuit_run (NewCircuit 1 30) [CFailure 11]) \<and>
   fst (Allow 41 (circuit_run (NewCircuit 1 30) [CFailure 11]))"
proof -
  let ?c = "circuit_run (NewCircuit 1 30) [CFailure 11]"
  have inv: "circuit_inv ?c" by (rule circuit_run_inv) simp
  have o: "openedAt ?c = Some 11" by (simp add: circuit_run_def NewCircuit_def Failure_def)
  have cd: "\<forall>u \<in> set [12, 30]. u < 11 + cooldown ?c" "11 + cooldown ?c \<le> 41" by (simp_all add: NewCircuit_def)
  from breaker_is_not_stuck [OF inv o cd, of 0]
  have "cb.attempts [12, 30] ?c = (replicate (length [12 :: int, 30]) False, ?c)"
    "fst (Allow 41 (snd (cb.attempts [12, 30] ?c)))" by blast+
  then show ?thesis by (simp del: breaker.attempts.simps)
qed

text \<open>C23: Up to 2^64 requests the counters are exact, and the histogram is cumulative: every bucket
  counts the requests that took at most its bound, grows with the bound and never exceeds the
  number of requests.\<close>

theorem metrics_count:
  assumes "length obs < 2 ^ 64"
  shows "unat (requests (count_all obs)) = length obs \<and>
    unat (failed (count_all obs)) = length (filter (\<lambda>(ok, latency). \<not> ok) obs) \<and>
    map unat (buckets (count_all obs)) = map (at_most obs) bounds \<and>
    sorted (map (at_most obs) bounds) \<and> (\<forall>b. at_most obs b \<le> unat (requests (count_all obs)))"
proof -
  have w: "n < 2 ^ 64 \<Longrightarrow> unat (of_nat n :: u64) = n" for n by (simp add: unsigned_of_nat take_bit_nat_eq_self)
  have "at_most obs b < 2 ^ 64" for b using assms at_most_le_length [of obs b] by linarith
  then have b: "unat (of_nat (at_most obs b) :: u64) = at_most obs b" for b by (simp add: w)
  have f: "length (filter (\<lambda>(ok, latency). \<not> ok) obs) < 2 ^ 64"
    using assms length_filter_le [of "\<lambda>(ok, latency). \<not> ok" obs] by linarith
  have "sorted (map (at_most obs) bounds)" by (simp add: bounds_def at_most_mono)
  with assms show ?thesis
    by (simp add: count_all_counters count_all_buckets w [OF assms] w [OF f] b at_most_le_length comp_def)
qed

theorem metrics_count_witness:
  "map unat (buckets (count_all [(True, 70), (False, 6000), (True, 50)])) = [1, 2, 2, 2, 2, 2]"
  using metrics_count [of "[(True, 70), (False, 6000), (True, 50)]"] by (simp add: bounds_def at_most_def)

section \<open>Texts on the wire\<close>



text \<open>C25: A router request survives the way over the wire, and its text, which is what is hashed,
  determines it.\<close>

theorem requests_round_trip:
  assumes "router_text a" "router_text b" "req_body r = json_text (encode_router a)"
  shows "Decode decode_router r = Some a \<and>
    (json_text (encode_router a) = json_text (encode_router b) \<longleftrightarrow> a = b)"
  using Decode_router [OF assms(1,3)] router_text_inj [OF assms(1,2)] by blast

theorem requests_round_trip_witness:
  "Decode decode_router (router_post ''k'' sample_request) = Some sample_request"
proof -
  have t: "router_text sample_request" using sample_canonical by (simp add: canonical_def)
  have "req_body (router_post ''k'' sample_request) = json_text (encode_router sample_request)" by (simp add: router_post_def)
  from requests_round_trip [OF t t this] show ?thesis by blast
qed

section \<open>The participant manager\<close>

text \<open>C26: A participant that was created is found under its id, in its normal form, and no other
  participant is affected.\<close>

theorem created_participant_is_found:
  assumes "Participant_Manager.create ev r m = (m', resp)" "http_status resp = 201" "Decode decode_participant r = Some p0"
    and "p = normalize_participant p0" "req_method g = ''GET''" "req_path g = ''/v1/participants/'' @ part_ID p" "me_query ev'"
  shows "resp = JSON 201 (encode_participant p) \<and> ValidateParticipant p = None \<and>
    snd (routing ev' g m') =
      (if part_Active p then JSON 200 (encode_participant p) else JSON 409 (error_body ''participant inactive'')) \<and>
    (\<forall>j. j \<noteq> part_ID p \<longrightarrow> find (\<lambda>q. prow_id q = j) (m_rows m') = find (\<lambda>q. prow_id q = j) (m_rows m))"
proof -
  from create_201 [OF assms(1,2)] assms(3,4) have p: "resp = JSON 201 (encode_participant p)"
    "ValidateParticipant p = None" "pg_text (part_ID p)"
    "m_rows m' = upsert prow_id (create_conflict (create_row p)) (create_row p) (m_rows m)" by auto
  then have "part_ID p \<noteq> []" by (auto simp: ValidateParticipant_def split: if_splits)
  from routing_select [OF assms(5,6) this p(3) assms(7), of m'] p show ?thesis
    by (simp add: find_created encode_create_row)
qed

definition participant_post :: http_request where
  "participant_post = \<lparr>req_method = ''POST'', req_path = ''/v1/participants'', req_header = Map.empty,
     req_body = json_text (encode_participant sample_debtor)\<rparr>"

theorem created_participant_is_found_witness:
  "\<exists>m'. Participant_Manager.create \<lparr>me_query = True, me_write = Ok, me_latency = 1\<rparr> participant_post
      \<lparr>m_rows = [], m_metrics = zero_metrics\<rparr> = (m', JSON 201 (encode_participant sample_debtor)) \<and>
    snd (routing \<lparr>me_query = True, me_write = Ok, me_latency = 1\<rparr>
      \<lparr>req_method = ''GET'', req_path = ''/v1/participants/d'', req_header = Map.empty, req_body = []\<rparr> m') =
      JSON 200 (encode_participant sample_debtor)"
proof -
  let ?ev = "\<lparr>me_query = True, me_write = Ok, me_latency = 1\<rparr>" and ?m = "\<lparr>m_rows = [], m_metrics = zero_metrics\<rparr>"
  let ?g = "\<lparr>req_method = ''GET'', req_path = ''/v1/participants/d'', req_header = Map.empty, req_body = []\<rparr>"
  have pt: "participant_text sample_debtor"
    using sample_letters by (simp add: participant_text_def sample_debtor_def)
  have d: "Decode decode_participant participant_post = Some sample_debtor"
    using decode_first_text [OF json_ok_encode_participant [OF pt], of "[]"] decode_encode_participant
    by (simp add: Decode_def participant_post_def)
  have n: "normalize_participant sample_debtor = sample_debtor" by code_simp
  have v: "ValidateParticipant sample_debtor = None" by code_simp
  have pg: "pg_text (part_ID sample_debtor)" "pg_text (part_Instrument sample_debtor)" "pg_text (part_Gateway sample_debtor)"
    using sample_letters by (simp_all add: pg_text_def sample_debtor_def)
  have m: "req_method participant_post = ''POST''" by (simp add: participant_post_def)
  obtain m' where c: "Participant_Manager.create ?ev participant_post ?m = (m', JSON 201 (encode_participant sample_debtor))"
    unfolding Participant_Manager.create_def d using m by (simp add: n v save_participant_def pg Let_def)
  have st: "http_status (JSON 201 (encode_participant sample_debtor)) = 201" "req_method ?g = ''GET''"
    "req_path ?g = ''/v1/participants/'' @ part_ID sample_debtor" "me_query ?ev" by (simp_all add: sample_debtor_def)
  have "part_Active sample_debtor" by (simp add: sample_debtor_def)
  with created_participant_is_found [OF c st(1) d n [symmetric] st(2-4)] have "snd (routing ?ev ?g m') = JSON 200 (encode_participant sample_debtor)"
    by simp
  with c show ?thesis by blast
qed

text \<open>C27: The table of participants stays well formed under the seed and under every request: ids are
  unique, and every participant has a supported instrument and a non-empty set of known roles.\<close>

theorem participants_stay_valid:
  assumes "manager_inv (m_rows m)"
  shows "manager_inv (seed (m_rows m)) \<and> manager_inv (m_rows (fst (manager_serve ev r m)))"
  using assms by (simp add: manager_inv_seed manager_inv_serve)

theorem participants_stay_valid_witness: "manager_inv (seed []) \<and> length (seed []) = 3"
proof -
  have "manager_inv (m_rows \<lparr>m_rows = [], m_metrics = zero_metrics\<rparr>)" by (simp add: manager_inv_def)
  from participants_stay_valid [OF this] have "manager_inv (seed [])" by simp
  moreover have "length (seed []) = 3" by code_simp
  ultimately show ?thesis ..
qed

text \<open>C28: The loop that normalises roles computes the first occurrences of the trimmed lower-case roles
  that are not empty.\<close>

theorem NormalizeRoles_reference:
  "NormalizeRoles roles = filter (\<lambda>r. r \<noteq> []) (first_occurrences (map normal_role roles))"
  by (rule NormalizeRoles_eq)

text \<open>C29: Opening a database ends after at most 30 attempts: with the first connection that is made, or
  with the error of the last attempt.\<close>

theorem openWithRetry_result:
  "(openWithRetry tries = Opened db \<longleftrightarrow> (\<exists>j < 30. tries j = Opened db \<and> \<not> (\<exists>i < j. \<exists>d. tries i = Opened d))) \<and>
   (openWithRetry tries = OpenFailed e \<longleftrightarrow> \<not> (\<exists>i < 30. \<exists>d. tries i = Opened d) \<and> tries 29 = OpenFailed e)"
proof -
  have neg: "(\<exists>m. tries k = OpenFailed m) \<longleftrightarrow> \<not> (\<exists>d. tries k = Opened d)" for k by (cases "tries k") auto
  have opened: "openWithRetry tries = Opened db \<longleftrightarrow> (\<exists>j < 30. tries j = Opened db \<and> \<not> (\<exists>i < j. \<exists>d. tries i = Opened d))" for db
    using open_loop_Opened [of 30 tries 0 None db] by (simp add: openWithRetry_def neg)
  have failed: "\<not> (\<exists>i < n. \<exists>d. tries (s + i) = Opened d) \<Longrightarrow> 0 < n \<Longrightarrow> open_loop n tries s last_error = tries (s + n - 1)"
    for n s last_error
  proof (induction n arbitrary: s last_error)
    case (Suc n)
    have "tries s \<noteq> Opened d" for d using Suc.prems(1) by (metis add_0_right zero_less_Suc)
    then obtain m where m: "tries s = OpenFailed m" by (cases "tries s") auto
    show ?case
    proof (cases n)
      case (Suc n')
      have "\<not> (\<exists>i < n. \<exists>d. tries (Suc s + i) = Opened d)"
        using Suc.prems(1) by (metis add_Suc_shift Suc_mono)
      from Suc.IH [OF this] Suc m show ?thesis by simp
    qed (use m in simp)
  qed simp
  show ?thesis
  proof (cases "\<exists>i < 30. \<exists>d. tries i = Opened d")
    case True
    define j where "j = (LEAST i. \<exists>d. tries i = Opened d)"
    from True obtain i where i: "i < 30" "\<exists>d. tries i = Opened d" by blast
    then have "\<exists>d. tries j = Opened d" "j \<le> i" unfolding j_def by (auto intro: LeastI Least_le)
    moreover have "\<not> (\<exists>i < j. \<exists>d. tries i = Opened d)" unfolding j_def using not_less_Least by blast
    ultimately obtain d where "openWithRetry tries = Opened d" using opened i(1) le_less_trans by blast
    with True opened [of db] show ?thesis by simp
  next
    case False
    with failed [of 30 0 None] have "openWithRetry tries = tries 29" by (simp add: openWithRetry_def)
    with False opened [of db] show ?thesis by auto
  qed
qed

theorem openWithRetry_result_witness:
  "openWithRetry (\<lambda>i. if i < 2 then OpenFailed ''refused'' else Opened i) = Opened 2"
  using openWithRetry_result [of "\<lambda>i. if i < 2 then OpenFailed ''refused'' else Opened i" 2] by auto

section \<open>The operator\<close>

text \<open>C30: In any sequence of create requests to one operator, over any network, the decided answers
  given for one key agree in everything but the spelling of the payment id, and show the
  order that is on record at the end.\<close>

theorem operator_decided_answers_agree:
  assumes "create_all cfg rs (s, w) = ((s', w'), as)" "orders_inv (op_rows s)"
    and "(key, a) \<in> set as" "(key, b) \<in> set as" "http_status a \<in> {200, 422}" "http_status b \<in> {200, 422}"
  shows "\<exists>row p q. order_by_key key (op_rows s') = Some row \<and> terminal (ord_status row) \<and>
    a = payment_answer p \<and> b = payment_answer q \<and> order_shows row p \<and> p\<lparr>pay_ID := i\<rparr> = q\<lparr>pay_ID := i\<rparr>"
proof -
  from create_all_decided [OF assms(1-3)] assms(5) obtain row p where
    p: "order_by_key key (op_rows s') = Some row" "terminal (ord_status row)" "a = payment_answer p" "order_shows row p" by auto
  from create_all_decided [OF assms(1,2,4)] assms(6) p(1) obtain q where q: "b = payment_answer q" "order_shows row q" by auto
  from p q order_shows_agree [OF p(4) q(2)] show ?thesis by blast
qed

theorem operator_decided_answers_agree_witness:
  "\<exists>s b a row. create_all (mesh_operator no_env mesh_config) [(operator_ok, public_post)] (sample_operator, sample_backend) =
     ((s, b), [(''k'', a)]) \<and> http_status a = 200 \<and> order_by_key ''k'' (op_rows s) = Some row \<and> terminal (ord_status row)"
proof -
  obtain s b p where serve: "operator_serve (mesh_operator no_env mesh_config) operator_ok public_post sample_operator sample_backend =
     ((s, b), payment_answer p)" "pay_Status p = ''SUCCEEDED''" using sample_serve by blast
  have "trim_space ''k'' = ''k''" by code_simp
  then have key: "order_key public_post = ''k''" by (simp add: order_key_def public_post_def)
  have "Operator.create (mesh_operator no_env mesh_config) operator_ok public_post sample_operator sample_backend =
      ((s, b), payment_answer p)" using serve(1) by (simp add: operator_serve_def public_post_def)
  then have c: "create_all (mesh_operator no_env mesh_config) [(operator_ok, public_post)] (sample_operator, sample_backend) =
     ((s, b), [(''k'', payment_answer p)])" by (simp add: key)
  have st: "http_status (payment_answer p) = 200" using serve(2) by (simp add: StatusCode_def)
  have inv: "orders_inv (op_rows sample_operator)" by (simp add: orders_inv_def sample_operator_def)
  have "(''k'', payment_answer p) \<in> set [(''k'', payment_answer p)]" "http_status (payment_answer p) \<in> {200, 422}"
    using st by simp_all
  from operator_decided_answers_agree [OF c inv this(1,1,2,2)] c st show ?thesis by blast
qed

text \<open>C31: An order is placed only for a valid request between two participants that the participant
  manager answered as active, the debtor in the debtor's role and the creditor in the creditor's.\<close>

theorem orders_need_active_participants:
  assumes "Operator.create cfg ev r s w = ((s', w'), resp)" "order_by_key (order_key r) (op_rows s) = None"
    and "order_by_key (order_key r) (op_rows s') = Some row"
  shows "\<exists>req w1 w2 debtor creditor. Decode decode_public r = Some req \<and> ValidateRequest req = None \<and>
    participant cfg (TraceHeaders r) (pub_DebtorParticipantID req) w = (w1, Inr debtor) \<and>
    participant cfg (TraceHeaders r) (pub_CreditorParticipantID req) w1 = (w2, Inr creditor) \<and>
    part_Active debtor \<and> part_Active creditor \<and>
    hasRole (part_Roles debtor) RoleDebtor \<and> hasRole (part_Roles creditor) RoleCreditor"
  using create_new_order [OF assms] by blast

theorem orders_need_active_participants_witness:
  "\<exists>b1 b2 debtor creditor. participant (mesh_operator no_env mesh_config) (TraceHeaders public_post) ''d'' sample_backend = (b1, Inr debtor) \<and>
     participant (mesh_operator no_env mesh_config) (TraceHeaders public_post) ''c'' b1 = (b2, Inr creditor) \<and>
     hasRole (part_Roles debtor) RoleDebtor \<and> hasRole (part_Roles creditor) RoleCreditor"
proof -
  obtain s b p row where serve: "operator_serve (mesh_operator no_env mesh_config) operator_ok public_post sample_operator sample_backend =
     ((s, b), payment_answer p)" and row: "order_by_key ''k'' (op_rows s) = Some row" using sample_serve by blast
  have "trim_space ''k'' = ''k''" by code_simp
  then have key: "order_key public_post = ''k''" by (simp add: order_key_def public_post_def)
  have c: "Operator.create (mesh_operator no_env mesh_config) operator_ok public_post sample_operator sample_backend =
      ((s, b), payment_answer p)" using serve by (simp add: operator_serve_def public_post_def)
  have none: "order_by_key (order_key public_post) (op_rows sample_operator) = None"
    by (simp add: sample_operator_def order_by_key_def)
  have "Decode decode_public public_post = Some sample_public" using order_checks_Checked [OF sample_order_checks] by simp
  with orders_need_active_participants [OF c none] row show ?thesis
    by (auto simp: key sample_public_def)
qed




section \<open>Progress\<close>

text \<open>C34: When the database works, the breaker admits and the provider authorizes, the first request for
  a key ends with status 200 and a SUCCEEDED payment.\<close>

theorem first_payment_succeeds:
  assumes "create_prologue (rc_sha cfg) r = Accept key hashes req" "router_up ev" "pg_text key"
    and "select_by_key key (r_rows s) = None" "payments_inv (r_rows s)"
    and "insert_payment (re_now ev) (newUUID (re_random ev)) key (fst hashes) req (gatewayFor (rtr_Instrument req)) (r_rows s) = Some rows"
    and "fst (charge_admit (rc_breakerEnabled cfg) (re_allow_at ev) (gatewayFor (rtr_Instrument req)) (r_circuits s))"
    and "rc_adapters cfg (gatewayFor (rtr_Instrument req)) = Some f"
    and "f (TraceHeaders r) req key w = (w1, provider_result ''SUCCEEDED'' ref [])" "pg_text ref"
  shows "\<exists>s' p. Router.create cfg ev r s w = ((s', w1), Some (JSON 200 (encode_payment p))) \<and>
    pay_Status p = ''SUCCEEDED'' \<and> pay_ProviderRef p = ref \<and> pay_IdempotencyKey p = key"
proof -
  have "fst (charge_admit (rc_breakerEnabled cfg) (re_allow_at ev) (gatewayFor (rtr_Instrument req)) (r_circuits (s\<lparr>r_rows := rows\<rparr>)))"
    using assms(7) by simp
  from charge_up [OF this assms(8,9)] obtain s1 where
    "charge cfg ev r req key (gatewayFor (rtr_Instrument req)) (s\<lparr>r_rows := rows\<rparr>) w =
      ((s1, w1), Some (zero_payment\<lparr>pay_Status := ''SUCCEEDED'', pay_ProviderRef := ref\<rparr>))" by blast
  from create_up [OF assms(1-4,6) this assms(10,5)] show ?thesis
    by (force simp: first_payment_def finish_def with_created_def)
qed

theorem first_payment_succeeds_witness:
  "\<exists>s' p. Router.create (sample_config paid) good_event (router_post ''k'' sample_request) empty_router 0 =
     ((s', 1), Some (JSON 200 (encode_payment p))) \<and> pay_Status p = ''SUCCEEDED''"
proof -
  have up: "router_up good_event" "pg_text ''k''" "pg_text ''ref-1''" using sample_pg by (simp_all add: router_up_def good_event_def)
  have none: "select_by_key ''k'' (r_rows empty_router) = None" by (simp add: empty_router_def select_by_key_def)
  have gw: "gatewayFor (rtr_Instrument sample_request) = ''gateway-card''" by (simp add: sample_request_def)
  have ins: "insert_payment (re_now good_event) (newUUID (re_random good_event)) ''k''
      (fst (request_hashes (rc_sha (sample_config paid)) sample_request)) sample_request
      (gatewayFor (rtr_Instrument sample_request)) (r_rows empty_router) = Some [sample_pending]"
    using sample_pg canonical_fixed [OF sample_canonical]
    by (simp add: request_hashes_def RequestHash_def Let_def)
      (simp add: sample_config_def good_event_def sample_request_def insert_payment_def empty_router_def sample_row_def
        sample_pending_def Let_def)
  have adm: "fst (charge_admit (rc_breakerEnabled (sample_config paid)) (re_allow_at good_event)
      (gatewayFor (rtr_Instrument sample_request)) (r_circuits empty_router))"
    by (simp add: gw) (simp add: charge_admit_def empty_router_def main_circuits_def Allow_def NewCircuit_def sample_config_def good_event_def)
  have ad: "rc_adapters (sample_config paid) (gatewayFor (rtr_Instrument sample_request)) = Some (counting_charger paid)"
    by (simp add: gw) (simp add: sample_config_def)
  have call: "counting_charger paid (TraceHeaders (router_post ''k'' sample_request)) sample_request ''k'' 0 =
      (1, provider_result ''SUCCEEDED'' ''ref-1'' [])" by (simp add: counting_charger_def paid_def)
  from first_payment_succeeds [OF sample_prologue up(1,2) none payments_inv_empty ins adm ad call up(3)] show ?thesis by blast
qed

section \<open>Requests that overtake each other\<close>

text \<open>C35: However the steps of creates and reads overtake each other at the operator and its replicas,
  with any losses between the services and any request gone at any step, an order that says it
  is decided repeats a decided payment of the router, and the gateway that was charged has that
  outcome on its books.\<close>

theorem overtaken_reads_decide_nothing_false:
  assumes "op_run (mesh_operator env cfg) (ords, b, []) (ords', b', ts')" "addresses_apart env"
    and "rc_adapters cfg = gateway_adapters ca ba"
    and "backend_good (rc_uuid_in cfg) (gateways_sound ca ba) on_books b" "orders_linked (bk_rows b) ords"
    and "order_by_key key ords' = Some o'" "terminal (ord_status o')"
  shows "\<exists>row. select_by_key key (bk_rows b') = Some row \<and> row_status row = ord_status o' \<and> row_id row = ord_id o' \<and>
    coalesce (row_provider_ref row) = coalesce (ord_provider_ref o') \<and>
    on_books (bk_world b') (row_gateway row) key (ord_status o') (coalesce (ord_provider_ref o'))"
proof -
  have "ops_inv (rc_uuid_in cfg) (gateways_sound ca ba) on_books (ords, b, [])" using assms(4,5) by (simp add: ops_inv_def)
  from two_gateways.op_run_inv [OF assms(1-3) this] have
    "backend_good (rc_uuid_in cfg) (gateways_sound ca ba) on_books b'" "orders_linked (bk_rows b') ords'"
    by (simp_all add: ops_inv_def)
  with assms(6,7) show ?thesis by (intro two_gateways.decided_order_backed)
qed

theorem overtaken_reads_decide_nothing_false_witness:
  "\<exists>ords b ts o' row. op_run (mesh_operator no_env mesh_config) (op_rows sample_operator, sample_backend, []) (ords, b, ts) \<and>
     order_by_key ''k'' ords = Some o' \<and> select_by_key ''k'' (bk_rows b) = Some row \<and>
     row_status row = ord_status o'"
proof -
  obtain ords b ts o' where run: "op_run (mesh_operator no_env mesh_config) (op_rows sample_operator, sample_backend, []) (ords, b, ts)"
    and o': "order_by_key ''k'' ords = Some o'" "terminal (ord_status o')"
    using sample_orders_run by blast
  from overtaken_reads_decide_nothing_false [OF run sample_apart mesh_config_adapters sample_good sample_linked o'] run o'
  show ?thesis by blast
qed

section \<open>Tracing\<close>



text \<open>C37: Span names are bounded: at most three segments, and the id of a payment or of a participant is
  never part of one.\<close>

theorem span_names_are_bounded:
  "count_list (boundedRoute path) (CHR ''/'') \<le> 3 \<and>
   (trim_chars ''/'' path = ''v1/payments/'' @ rest \<longrightarrow> boundedRoute path = ''/v1/payments'') \<and>
   (trim_chars ''/'' path = ''v1/participants/'' @ rest \<longrightarrow> boundedRoute path = ''/v1/participants'')"
  using boundedRoute_segments [of path] boundedRoute_drops_id [of "''payments''" path rest]
    boundedRoute_drops_id [of "''participants''" path rest]
  by auto

theorem span_names_are_bounded_witness: "boundedRoute ''/v1/payments/42'' = ''/v1/payments''"
proof -
  have "trim_chars ''/'' ''/v1/payments/42'' = ''v1/payments/'' @ ''42''" by code_simp
  with span_names_are_bounded [of "''/v1/payments/42''" "''42''"] show ?thesis by blast
qed

section \<open>The report\<close>

text \<open>C38: Where nothing can be read, no experiment passes or fails: all six verdicts are NOT EXECUTED.\<close>

theorem missing_artefacts_not_executed:
  assumes "unreadable fs"
  shows "map ms_Status (measured fl sha fs latest) = replicate 6 ''NOT EXECUTED''"
  by (simp add: measured_def experiment_names_def unmeasured_def numeral_eq_Suc unreadable_statuses_all [OF assms])

theorem missing_artefacts_not_executed_witness:
  "map ms_Status (measured exact id \<lparr>read_file = (\<lambda>_. ([], False)), stat_ok = (\<lambda>_. False), read_dir = (\<lambda>_. ([], True))\<rparr> ''r'') =
     replicate 6 ''NOT EXECUTED''"
  by (rule missing_artefacts_not_executed) (simp add: unreadable_def)

text \<open>C39: The trace coverage counts the named traces, and those among them in which every one of the
  four roles (operator, participant, router, gateway) is played by one of the trace's own spans.\<close>

theorem trace_coverage_counts:
  "traceCoverage fs path =
     (let (ok, traces) = readJSON [(''data'', set_list decode_trace (\<lambda>xs _. xs))] [] fs path;
          named = filter (\<lambda>t. tr_TraceID t \<noteq> []) traces
      in if ok then (int (length named), int (length (filter complete_trace named))) else (0, 0))"
  by (simp add: traceCoverage_def coverage_count Let_def conj_commute split: prod.splits)

text \<open>C40: The first experiment passes only when the load test had no failure, a complete trace was found,
  and every series of the mesh metric is zero or positive mutual-TLS traffic from the operator to one of
  its two services, both of them reached.\<close>

theorem happy_path_needs_mutual_tls:
  assumes "float_laws fl" "ms_Status (expHappy fl fs root name) = ''PASS''"
  shows "\<exists>response count p95.
    readJSON prometheusVector_fields \<lparr>pv_Status = [], pv_ResultType = [], pv_Result = []\<rparr> fs
      (join_path (join_path (join_path root name) ''metrics'') ''istio-mtls.json'') = (True, response) \<and>
    all_mutual fl (pv_Result response) \<and>
    locustStats fs (join_path (join_path root name) ''locust_stats.csv'') = (count, 0, p95, True) \<and>
    0 < snd (traceCoverage fs (join_path (join_path (join_path root name) ''traces'') ''payment-operator.json''))"
  by (rule expHappy_PASS [OF assms])

theorem happy_path_needs_mutual_tls_witness:
  "\<exists>response. all_mutual exact (pv_Result response) \<and>
     readJSON prometheusVector_fields \<lparr>pv_Status = [], pv_ResultType = [], pv_Result = []\<rparr> sample_fs
       ''r/h/metrics/istio-mtls.json'' = (True, response)"
  using happy_path_needs_mutual_tls [OF exact_laws sample_happy] by (auto simp: join_path_def)

end
